(* ===== verification/Bridge_Prelude.thy ===== *)
theory Bridge_Prelude imports
  Complex_Main
  "HOL-Library.Word"
  "HOL-Library.Sublist"
  "HOL-Library.AList"
  "HOL-Library.Char_ord"
  "HOL-Library.List_Lexorder"
  "HOL-Library.Signed_Division"
begin

text \<open>
  The prelude of the development: the names of Go's machine integers, the collections the
  component theories fill (\<open>go_simps\<close> for the text layer, \<open>trace_simps\<close> for the call log),
  and the facts on lists, association lists and signed words that several components share.
\<close>

section \<open>Machine integers of the source\<close>

text \<open>
  Go's \<open>uint64\<close> and \<open>int64\<close> are the same 64 bits; the signed reading is \<open>sint\<close>, and a
  conversion between the two is the identity on the word. Durations and instants
  (\<open>time.Duration\<close>, \<open>time.Time\<close>) are nanoseconds as unbounded \<open>int\<close>, except where the source
  multiplies them by something unbounded (the retry backoff), which stays a 64-bit word.
\<close>

type_synonym u64 = "64 word"
type_synonym i64 = "64 word"
type_synonym i32 = "32 word"

text \<open>Go's signed division truncates towards zero; the callers' divisors are never zero.\<close>

definition go_quot :: "'a::len word \<Rightarrow> 'a word \<Rightarrow> 'a word" where
  "go_quot a b = word_of_int (sgn (sint a) * sgn (sint b) * (\<bar>sint a\<bar> div \<bar>sint b\<bar>))"

text \<open>The nanoseconds in a second, the unit the source's durations are written in.\<close>

definition second :: int where
  "second = 1000000000"

section \<open>Collections\<close>

named_theorems go_simps \<open>rewrite rules of the text layer\<close>
named_theorems trace_simps \<open>effect of the operations on the log of external calls\<close>

section \<open>Signed words\<close>

lemma sless_sint: "a <s b \<longleftrightarrow> sint a < sint b"
  by (rule word_sless_alt)

lemma sle_sint: "a \<le>s b \<longleftrightarrow> sint a \<le> sint b"
  by (rule word_sle_eq)

lemma sint_word_of_int64:
  "- (2 ^ 63) \<le> i \<Longrightarrow> i < 2 ^ 63 \<Longrightarrow> sint (word_of_int i :: i64) = i"
  by (simp add: int_word_sint)

lemma sint_word_of_int32:
  "- (2 ^ 31) \<le> i \<Longrightarrow> i < 2 ^ 31 \<Longrightarrow> sint (word_of_int i :: i32) = i"
  by (simp add: int_word_sint)

lemma sint_ge64: "- (2 ^ 63) \<le> sint (a :: i64)"
  using sint_ge [of a] by simp

lemma sint_lt64: "sint (a :: i64) < 2 ^ 63"
  using sint_lt [of a] by simp

lemma sint_ge32: "- (2 ^ 31) \<le> sint (a :: i32)"
  using sint_ge [of a] by simp

lemma sint_lt32: "sint (a :: i32) < 2 ^ 31"
  using sint_lt [of a] by simp

lemma signed_take_bit_nonneg: "0 \<le> k \<Longrightarrow> k < 2 ^ n \<Longrightarrow> signed_take_bit n (k :: int) = k"
proof (rule signed_take_bit_int_eq_self)
  assume "0 \<le> k"
  moreover have "- (2 ^ n) \<le> (0 :: int)" by simp
  ultimately show "- (2 ^ n) \<le> k" by (rule order_trans [rotated])
qed simp

lemma sint_uint_small: "uint (a :: i64) < 2 ^ 63 \<Longrightarrow> sint a = uint a"
  by (simp add: sint_uint signed_take_bit_nonneg)

lemma uint_sint_nonneg: "0 \<le> sint (a :: i64) \<Longrightarrow> uint a = sint a"
proof -
  assume "0 \<le> sint a"
  then have "take_bit 64 (sint a) = sint a"
    using sint_lt64 [of a] by (intro take_bit_int_eq_self) simp_all
  then show ?thesis by (simp add: uint_sint)
qed

lemma sint_add64:
  "- (2 ^ 63) \<le> sint a + sint b \<Longrightarrow> sint a + sint b < 2 ^ 63 \<Longrightarrow> sint (a + b :: i64) = sint a + sint b"
proof -
  have "a + b = (word_of_int (sint a + sint b) :: i64)" by simp
  then show "- (2 ^ 63) \<le> sint a + sint b \<Longrightarrow> sint a + sint b < 2 ^ 63 \<Longrightarrow> ?thesis"
    by (simp only: sint_word_of_int64)
qed

lemma sint_sub64:
  "- (2 ^ 63) \<le> sint a - sint b \<Longrightarrow> sint a - sint b < 2 ^ 63 \<Longrightarrow> sint (a - b :: i64) = sint a - sint b"
proof -
  have "a - b = (word_of_int (sint a - sint b) :: i64)" by simp
  then show "- (2 ^ 63) \<le> sint a - sint b \<Longrightarrow> sint a - sint b < 2 ^ 63 \<Longrightarrow> ?thesis"
    by (simp only: sint_word_of_int64)
qed

lemma sint_mult64:
  "- (2 ^ 63) \<le> sint a * sint b \<Longrightarrow> sint a * sint b < 2 ^ 63 \<Longrightarrow> sint (a * b :: i64) = sint a * sint b"
proof -
  have "a * b = (word_of_int (sint a * sint b) :: i64)" by simp
  then show "- (2 ^ 63) \<le> sint a * sint b \<Longrightarrow> sint a * sint b < 2 ^ 63 \<Longrightarrow> ?thesis"
    by (simp only: sint_word_of_int64)
qed

lemma sint_go_quot64:
  assumes "0 \<le> sint (a :: i64)" "0 < sint b"
  shows "sint (go_quot a b) = sint a div sint b"
proof -
  have "sgn (sint a) * sgn (sint b) * (\<bar>sint a\<bar> div \<bar>sint b\<bar>) = sint a div sint b"
    using assms by (cases "sint a = 0") simp_all
  moreover have "0 \<le> sint a div sint b" using assms by (simp add: pos_imp_zdiv_nonneg_iff)
  moreover have "sint a div sint b < 2 ^ 63"
    using sint_lt64 [of a] assms zdiv_mono2 [of "sint a" 1 "sint b"] by simp
  ultimately show ?thesis by (simp add: go_quot_def sint_word_of_int64)
qed

text \<open>Rounding a quotient up: enough, and never more than needed.\<close>

lemma ceil_quot_int:
  fixes n b :: int
  assumes "0 < b"
  shows "n \<le> (n + b - 1) div b * b \<and> ((n + b - 1) div b - 1) * b < n"
proof -
  let ?q = "(n + b - 1) div b" and ?r = "(n + b - 1) mod b"
  have "?q * b + ?r = n + b - 1" by (rule div_mult_mod_eq)
  moreover have "0 \<le> ?r" "?r < b" using assms by simp_all
  moreover have "(?q - 1) * b = ?q * b - b" by (rule left_diff_distrib [where c = b and b = 1, simplified])
  ultimately show ?thesis by linarith
qed

section \<open>Association lists\<close>

text \<open>
  A Go map that the source ranges over is an association list with distinct keys; assignment
  is \<open>AList.update\<close> (the last assignment of a key wins), lookup is \<open>map_of\<close>.
\<close>

lemma map_of_update [simp]: "map_of (AList.update k v al) = (map_of al)(k \<mapsto> v)"
  by (rule update_conv')

section \<open>Lists\<close>

lemma fold_invariant_step:
  "(\<And>x s. x \<in> set xs \<Longrightarrow> P s \<Longrightarrow> P (f x s)) \<Longrightarrow> P s \<Longrightarrow> P (fold f xs s)"
  by (induction xs arbitrary: s) auto

lemma dropWhile_none: "\<forall>x \<in> set xs. \<not> P x \<Longrightarrow> dropWhile P xs = xs"
  by (cases xs) auto

end
