(* ===== verification/Go_Strings.thy ===== *)
theory Go_Strings imports
  Bridge_Prelude
begin

text \<open>
  The part of Go's \<open>strings\<close>, \<open>strconv\<close>, \<open>unicode/utf8\<close> and \<open>fmt\<close> packages that the bridge
  uses. A Go string is a list of bytes; \<open>char\<close> is the byte type. A rune loop decodes UTF-8
  as the language defines it, one invalid byte at a time.
\<close>

section \<open>Prefixes, splitting, joining\<close>

definition HasPrefix :: "string \<Rightarrow> string \<Rightarrow> bool" where
  "HasPrefix s p \<longleftrightarrow> prefix p s"

definition CutPrefix :: "string \<Rightarrow> string \<Rightarrow> string option" where
  "CutPrefix s p = (if HasPrefix s p then Some (drop (length p) s) else None)"

definition TrimPrefix :: "string \<Rightarrow> string \<Rightarrow> string" where
  "TrimPrefix s p = (if HasPrefix s p then drop (length p) s else s)"

fun TrimRight_char :: "char \<Rightarrow> string \<Rightarrow> string" where
  "TrimRight_char c s = rev (dropWhile (\<lambda>x. x = c) (rev s))"

fun Split_char :: "char \<Rightarrow> string \<Rightarrow> string list" where
  "Split_char c [] = [[]]"
| "Split_char c (x # xs) =
     (if x = c then [] # Split_char c xs
      else (case Split_char c xs of [] \<Rightarrow> [[x]] | w # ws \<Rightarrow> (x # w) # ws))"

fun Join :: "'a list \<Rightarrow> 'a list list \<Rightarrow> 'a list" where
  "Join sep [] = []"
| "Join sep [w] = w"
| "Join sep (w # ws) = w @ sep @ Join sep ws"

lemma HasPrefix_append [simp]: "HasPrefix (p @ s) p"
  by (simp add: HasPrefix_def)

lemma HasPrefixE: "HasPrefix s p \<Longrightarrow> (\<And>t. s = p @ t \<Longrightarrow> thesis) \<Longrightarrow> thesis"
  by (auto simp: HasPrefix_def elim: prefixE)

lemma CutPrefix_eq_Some: "CutPrefix s p = Some t \<longleftrightarrow> s = p @ t"
  by (auto simp: CutPrefix_def HasPrefix_def prefix_def)

lemma CutPrefix_append [simp]: "CutPrefix (p @ t) p = Some t"
  by (simp add: CutPrefix_eq_Some)

lemma Split_char_not_Nil [simp]: "Split_char c s \<noteq> []"
  by (induction s) (auto split: list.splits)

lemma Split_char_no_sep: "w \<in> set (Split_char c s) \<Longrightarrow> c \<notin> set w"
  by (induction s arbitrary: w) (auto split: list.splits if_splits)

lemma Split_char_append_sep:
  "c \<notin> set w \<Longrightarrow> Split_char c (w @ c # s) = w # Split_char c s"
  by (induction w) auto

lemma Split_char_id: "c \<notin> set w \<Longrightarrow> Split_char c w = [w]"
  by (induction w) auto

lemma Join_Split_char: "Join [c] (Split_char c s) = s"
proof (induction s)
  case (Cons x xs)
  then show ?case
    by (cases "Split_char c xs"; cases "tl (Split_char c xs)") (auto split: if_splits)
qed simp

section \<open>Decimal numbers\<close>

definition digit :: "nat \<Rightarrow> char" where
  "digit d = char_of (48 + d)"

definition is_digit :: "char \<Rightarrow> bool" where
  "is_digit c \<longleftrightarrow> 48 \<le> (of_char c :: nat) \<and> (of_char c :: nat) \<le> 57"

definition digit_val :: "char \<Rightarrow> nat" where
  "digit_val c = of_char c - 48"

text \<open>\<open>fmt\<close>'s \<open>%d\<close> for a number that is not negative.\<close>

fun dec :: "nat \<Rightarrow> string" where
  "dec n = (if n < 10 then [digit n] else dec (n div 10) @ [digit (n mod 10)])"

declare dec.simps [simp del]

definition dec_int :: "int \<Rightarrow> string" where
  "dec_int i = (if i < 0 then CHR ''-'' # dec (nat (- i)) else dec (nat i))"

fun digits_val :: "nat \<Rightarrow> string \<Rightarrow> nat" where
  "digits_val acc [] = acc"
| "digits_val acc (c # cs) = digits_val (10 * acc + digit_val c) cs"

text \<open>
  \<open>strconv.ParseUint(s, 10, bits)\<close> and \<open>strconv.ParseInt(s, 10, bits)\<close>; \<open>None\<close> is the error
  (syntax or range). Base 10 allows no underscores, and only \<open>ParseInt\<close> allows a sign.
\<close>

definition ParseUint :: "string \<Rightarrow> nat \<Rightarrow> nat option" where
  "ParseUint s bits =
     (if s = [] \<or> \<not> list_all is_digit s then None
      else if digits_val 0 s < 2 ^ bits then Some (digits_val 0 s) else None)"

definition ParseInt :: "string \<Rightarrow> nat \<Rightarrow> int option" where
  "ParseInt s bits =
     (let (neg, body) = (case s of [] \<Rightarrow> (False, [])
         | c # cs \<Rightarrow> if c = CHR ''+'' then (False, cs) else if c = CHR ''-'' then (True, cs) else (False, s))
      in if body = [] \<or> \<not> list_all is_digit body then None
         else let v = int (digits_val 0 body) in
           if neg then (if v \<le> 2 ^ (bits - 1) then Some (- v) else None)
           else if v < 2 ^ (bits - 1) then Some v else None)"

lemma of_char_digit: "d < 10 \<Longrightarrow> (of_char (digit d) :: nat) = 48 + d"
  by (simp add: digit_def)

lemma is_digit_digit [simp]: "d < 10 \<Longrightarrow> is_digit (digit d)"
  by (simp add: is_digit_def of_char_digit)

lemma digit_val_digit [simp]: "d < 10 \<Longrightarrow> digit_val (digit d) = d"
  by (simp add: digit_val_def of_char_digit)

lemma dec_not_Nil [simp]: "dec n \<noteq> []"
  by (subst dec.simps) simp

lemma dec_digits [simp]: "list_all is_digit (dec n)"
proof (induction n rule: dec.induct)
  case (1 n)
  then show ?case by (subst dec.simps) simp
qed

lemma digits_val_append:
  "digits_val acc (xs @ ys) = digits_val (digits_val acc xs) ys"
  by (induction xs arbitrary: acc) auto

lemma digits_val_dec [simp]: "digits_val 0 (dec n) = n"
proof (induction n rule: dec.induct)
  case (1 n)
  then show ?case by (subst dec.simps) (simp add: digits_val_append)
qed

lemma dec_inj [simp]: "dec m = dec n \<longleftrightarrow> m = n"
  by (metis digits_val_dec)

lemma not_digit_not_in_dec: "\<not> is_digit c \<Longrightarrow> c \<notin> set (dec n)"
  using dec_digits [of n] by (auto simp: list_all_iff)

lemma dash_not_digit [simp]: "\<not> is_digit CHR ''-''"
  by (simp add: is_digit_def)

lemma plus_not_digit [simp]: "\<not> is_digit CHR ''+''"
  by (simp add: is_digit_def)

lemma ParseUint_dec: "ParseUint (dec n) bits = (if n < 2 ^ bits then Some n else None)"
  by (simp add: ParseUint_def)

lemma ParseUint_bound: "ParseUint s bits = Some n \<Longrightarrow> n < 2 ^ bits"
  by (auto simp: ParseUint_def split: if_splits)

lemma dec_Cons: "dec n = c # cs \<Longrightarrow> is_digit c"
  using dec_digits [of n] by simp

lemma ParseInt_dec_int:
  assumes "- (2 ^ (bits - 1)) \<le> i" "i < 2 ^ (bits - 1)"
  shows "ParseInt (dec_int i) bits = Some i"
proof (cases "i < 0")
  case True
  with assms show ?thesis by (simp add: ParseInt_def dec_int_def)
next
  case False
  obtain c cs where d: "dec (nat i) = c # cs" by (cases "dec (nat i)") auto
  then have "is_digit c" by (rule dec_Cons)
  then have "c \<noteq> CHR ''+''" "c \<noteq> CHR ''-''" by auto
  moreover have "digits_val 0 (c # cs) = nat i" by (metis d digits_val_dec)
  moreover have "list_all is_digit (c # cs)" by (metis d dec_digits)
  ultimately show ?thesis using assms False
    by (simp add: ParseInt_def dec_int_def d del: digits_val.simps list.pred_inject)
qed

lemma dec_int_dash: "(\<exists>s. dec_int i = CHR ''-'' # s) \<longleftrightarrow> i < 0"
  by (auto simp: dec_int_def dest: dec_Cons)

lemma dec_int_inj [simp]: "dec_int i = dec_int j \<longleftrightarrow> i = j"
proof
  assume eq: "dec_int i = dec_int j"
  then have "i < 0 \<longleftrightarrow> j < 0" by (metis dec_int_dash)
  with eq show "i = j" by (simp add: dec_int_def split: if_splits)
qed simp

text \<open>A decimal number followed by a byte that is no digit can be read back uniquely.\<close>

lemma dec_sep_inj:
  assumes "dec m @ c # s = dec n @ c # t" "\<not> is_digit c"
  shows "m = n \<and> s = t"
proof -
  have "takeWhile is_digit (dec k @ c # u) = dec k" for k u
    using dec_digits [of k] assms(2) by (simp add: list_all_iff)
  then have "dec m = dec n" using assms(1) by metis
  with assms(1) show ?thesis by simp
qed

section \<open>UTF-8\<close>

text \<open>
  \<open>utf8.DecodeRune\<close>: the width a first byte announces (0 for a byte that starts nothing),
  the range of the second byte (which excludes overlong forms and surrogates), and the
  continuation bytes. A byte that starts no valid sequence decodes to U+FFFD with width 1.
\<close>

definition byte :: "char \<Rightarrow> nat" where
  "byte c = of_char c"

definition first_width :: "char \<Rightarrow> nat" where
  "first_width c =
     (let b = byte c in
      if b < 128 then 1
      else if 194 \<le> b \<and> b \<le> 223 then 2
      else if 224 \<le> b \<and> b \<le> 239 then 3
      else if 240 \<le> b \<and> b \<le> 244 then 4
      else 0)"

definition cont_byte :: "char \<Rightarrow> bool" where
  "cont_byte c \<longleftrightarrow> 128 \<le> byte c \<and> byte c \<le> 191"

definition second_ok :: "char \<Rightarrow> char \<Rightarrow> bool" where
  "second_ok a b \<longleftrightarrow>
     (if byte a = 224 then 160 \<le> byte b \<and> byte b \<le> 191
      else if byte a = 237 then 128 \<le> byte b \<and> byte b \<le> 159
      else if byte a = 240 then 144 \<le> byte b \<and> byte b \<le> 191
      else if byte a = 244 then 128 \<le> byte b \<and> byte b \<le> 143
      else cont_byte b)"

text \<open>The width of the rune at the head of \<open>a # s\<close>, 0 when no valid rune starts there.\<close>

definition rune_width :: "char \<Rightarrow> string \<Rightarrow> nat" where
  "rune_width a s =
     (let w = first_width a in
      if w \<le> 1 then w
      else if length s < w - 1 \<or> \<not> second_ok a (s ! 0) \<or> \<not> list_all cont_byte (take (w - 2) (drop 1 s))
      then 0 else w)"

datatype rune = Rune string | BadByte char

fun runes :: "string \<Rightarrow> rune list" where
  "runes [] = []"
| "runes (a # s) =
     (let w = rune_width a s in
      if w = 0 then BadByte a # runes s
      else Rune (a # take (w - 1) s) # runes (drop (w - 1) s))"

text \<open>The bytes a rune came from, and the bytes Go writes for it (U+FFFD for an invalid byte).\<close>

fun rune_bytes :: "rune \<Rightarrow> string" where
  "rune_bytes (Rune s) = s"
| "rune_bytes (BadByte c) = [c]"

definition replacement :: string where
  "replacement = map char_of [239, 191, 189 :: nat]"

fun encode_rune :: "rune \<Rightarrow> string" where
  "encode_rune (Rune s) = s"
| "encode_rune (BadByte c) = replacement"

definition encode :: "rune list \<Rightarrow> string" where
  "encode rs = concat (map encode_rune rs)"

definition valid_utf8 :: "string \<Rightarrow> bool" where
  "valid_utf8 s \<longleftrightarrow> list_all (\<lambda>r. case r of Rune _ \<Rightarrow> True | BadByte _ \<Rightarrow> False) (runes s)"

lemma concat_rune_bytes [simp]: "concat (map rune_bytes (runes s)) = s"
  by (induction s rule: runes.induct) (simp_all add: Let_def)

text \<open>
  A whole rune is one that decodes to itself. Decoding is compositional over whole runes, so
  encoding a list of them and decoding it again gives the list back.
\<close>

lemma rune_width_eq:
  "1 < w \<Longrightarrow> rune_width a s = w \<longleftrightarrow>
     first_width a = w \<and> w - 1 \<le> length s \<and> second_ok a (s ! 0) \<and> list_all cont_byte (take (w - 2) (drop 1 s))"
  by (auto simp: rune_width_def Let_def not_less)

lemma rune_width_one: "rune_width a s = 1 \<longleftrightarrow> first_width a = 1"
  by (auto simp: rune_width_def Let_def)

lemma rune_width_take:
  assumes "0 < rune_width a s"
  shows "rune_width a s - 1 \<le> length s
     \<and> rune_width a (take (rune_width a s - 1) s @ t) = rune_width a s"
proof (cases "rune_width a s = 1")
  case True
  then have "rune_width a t = 1" by (simp only: rune_width_one)
  with True show ?thesis by simp
next
  case False
  define w where "w = rune_width a s"
  have w: "1 < w" using assms False by (simp add: w_def)
  have s: "first_width a = w \<and> w - 1 \<le> length s \<and> second_ok a (s ! 0)
      \<and> list_all cont_byte (take (w - 2) (drop 1 s))"
    using rune_width_eq [OF w, of a s] by (simp add: w_def)
  have hd: "(take (w - 1) s @ t) ! 0 = s ! 0" using w s by (simp add: nth_append)
  have tl: "take (w - 2) (drop 1 (take (w - 1) s @ t)) = take (w - 2) (drop 1 s)"
    using w s by (simp add: drop_take min_def) arith
  have "w - 1 \<le> length (take (w - 1) s @ t)" using s by simp
  then have "rune_width a (take (w - 1) s @ t) = w"
    unfolding rune_width_eq [OF w] hd tl using s by blast
  with s show ?thesis by (simp add: w_def)
qed

definition wf_rune :: "rune \<Rightarrow> bool" where
  "wf_rune r \<longleftrightarrow> (case r of Rune u \<Rightarrow> runes u = [Rune u] | BadByte c \<Rightarrow> False)"

lemma runes_append:
  assumes "runes u = [Rune u]" shows "runes (u @ t) = Rune u # runes t"
proof -
  obtain a s where u: "u = a # s" using assms by (cases u) auto
  define w where "w = rune_width a s"
  have w: "w \<noteq> 0" and tk: "take (w - 1) s = s" and dr: "runes (drop (w - 1) s) = []"
    using assms by (auto simp: u Let_def w_def split: if_splits)
  have len: "length s = w - 1"
    using rune_width_take [of a s] w tk by (simp add: w_def)
  then have "rune_width a (s @ t) = w"
    using rune_width_take [of a s t] w tk by (simp add: w_def)
  then show ?thesis using w len by (simp add: u Let_def)
qed

lemma wf_runes: "r \<in> set (runes s) \<Longrightarrow> r = Rune u \<Longrightarrow> wf_rune r"
proof (induction s rule: runes.induct)
  case (2 a s)
  define w where "w = rune_width a s"
  have "wf_rune (Rune (a # take (w - 1) s))" if "w \<noteq> 0"
    using rune_width_take [of a s "[]"] that by (simp add: wf_rune_def w_def Let_def)
  then show ?case using 2 by (auto simp: Let_def w_def split: if_splits)
qed simp

lemma runes_encode: "list_all wf_rune rs \<Longrightarrow> runes (encode rs) = rs"
  by (induction rs) (auto simp: encode_def wf_rune_def runes_append split: rune.splits)

lemma wf_rune_ascii: "byte c < 128 \<Longrightarrow> wf_rune (Rune [c])"
  by (simp add: wf_rune_def rune_width_def first_width_def)

lemma wf_rune_replacement: "wf_rune (Rune replacement)"
  by (simp add: wf_rune_def replacement_def rune_width_def first_width_def byte_def Let_def
      second_ok_def cont_byte_def)

lemma wf_rune_length_one: "wf_rune (Rune [c]) \<Longrightarrow> byte c < 128"
  by (auto simp: wf_rune_def rune_width_def first_width_def Let_def split: if_splits)

lemma encode_runes_valid: "valid_utf8 s \<Longrightarrow> encode (runes s) = s"
proof -
  assume "valid_utf8 s"
  then have "map encode_rune (runes s) = map rune_bytes (runes s)"
    by (auto simp: valid_utf8_def list_all_iff split: rune.splits) (case_tac x; fastforce)
  then have "encode (runes s) = concat (map rune_bytes (runes s))" by (simp only: encode_def)
  then show ?thesis by simp
qed

text \<open>\<open>unicode.IsSpace\<close>, as the encodings of the white space code points.\<close>

definition space_encodings :: "string list" where
  "space_encodings = map (map (char_of :: nat \<Rightarrow> char))
     ([[9], [10], [11], [12], [13], [32], [194, 133], [194, 160], [225, 154, 128]] @
      map (\<lambda>b. [226, 128, b]) [128, 129, 130, 131, 132, 133, 134, 135, 136, 137, 138, 168, 169, 175] @
      [[226, 129, 159], [227, 128, 128]])"

fun is_space_rune :: "rune \<Rightarrow> bool" where
  "is_space_rune (Rune s) = List.member space_encodings s"
| "is_space_rune (BadByte c) = False"

definition TrimSpace :: "string \<Rightarrow> string" where
  "TrimSpace s =
     concat (map rune_bytes (rev (dropWhile is_space_rune (rev (dropWhile is_space_rune (runes s))))))"

text \<open>\<open>strings.Fields\<close>: the maximal runs of runes that are no white space.\<close>

fun fields_go :: "rune list \<Rightarrow> rune list \<Rightarrow> rune list list" where
  "fields_go cur [] = (if cur = [] then [] else [rev cur])"
| "fields_go cur (r # rs) =
     (if is_space_rune r then (if cur = [] then fields_go [] rs else rev cur # fields_go [] rs)
      else fields_go (r # cur) rs)"

definition Fields :: "string \<Rightarrow> string list" where
  "Fields s = map (\<lambda>f. concat (map rune_bytes f)) (fields_go [] (runes s))"

lemma fields_go_nonempty: "f \<in> set (fields_go cur rs) \<Longrightarrow> f \<noteq> []"
  by (induction cur rs rule: fields_go.induct) (auto split: if_splits)

lemma fields_go_no_space:
  "list_all (\<lambda>r. \<not> is_space_rune r) cur \<Longrightarrow>
   list_all (list_all (\<lambda>r. \<not> is_space_rune r)) (fields_go cur rs)"
  by (induction cur rs rule: fields_go.induct) (simp_all add: list_all_rev)

lemma fields_go_runes:
  "list_all P cur \<Longrightarrow> list_all P rs \<Longrightarrow> list_all (list_all P) (fields_go cur rs)"
  by (induction cur rs rule: fields_go.induct) (simp_all add: list_all_rev)

lemma set_Join: "set (Join sep ws) \<subseteq> set sep \<union> \<Union> (set ` set ws)"
  by (induction sep ws rule: Join.induct) auto

lemma encode_append: "encode (xs @ ys) = encode xs @ encode ys"
  by (simp add: encode_def)

lemma encode_Join: "encode (Join sep fs) = Join (encode sep) (map encode fs)"
  by (induction sep fs rule: Join.induct) (simp_all add: encode_append, simp add: encode_def)

lemma encode_wf: "list_all wf_rune rs \<Longrightarrow> concat (map rune_bytes rs) = encode rs"
  by (induction rs) (auto simp: encode_def wf_rune_def split: rune.splits)

lemma fields_go_word:
  "list_all (\<lambda>r. \<not> is_space_rune r) w \<Longrightarrow> is_space_rune sp \<Longrightarrow> cur \<noteq> [] \<or> w \<noteq> [] \<Longrightarrow>
   fields_go cur (w @ sp # rs) = (rev cur @ w) # fields_go [] rs"
  by (induction w arbitrary: cur) auto

lemma fields_go_last:
  "list_all (\<lambda>r. \<not> is_space_rune r) w \<Longrightarrow> cur \<noteq> [] \<or> w \<noteq> [] \<Longrightarrow> fields_go cur w = [rev cur @ w]"
  by (induction w arbitrary: cur) auto

lemma fields_go_Join:
  "list_all (list_all (\<lambda>r. \<not> is_space_rune r)) fs \<Longrightarrow> [] \<notin> set fs \<Longrightarrow> is_space_rune sp \<Longrightarrow>
   fields_go [] (Join [sp] fs) = fs"
proof (induction "[sp]" fs rule: Join.induct)
  case (2 w)
  then show ?case by (simp add: fields_go_last)
next
  case (3 w v ws)
  then show ?case using fields_go_word [of w sp "[]"] by auto
qed simp

lemma is_space_space: "is_space_rune (Rune '' '')"
  by code_simp

text \<open>The bytes of a rune outside ASCII are all above it.\<close>

lemma wf_rune_bytes:
  assumes "wf_rune (Rune u)" "c \<in> set u" "length u \<noteq> 1"
  shows "128 \<le> byte c"
proof -
  obtain a s where u: "u = a # s" using assms(2) by (cases u) auto
  define w where "w = rune_width a s"
  have w0: "w \<noteq> 0" and tk: "take (w - 1) s = s"
    using assms(1) by (auto simp: wf_rune_def u Let_def w_def split: if_splits)
  have "w \<noteq> 1" using tk assms(3) by (auto simp: u)
  with w0 have w: "1 < w" by simp
  have eq: "first_width a = w \<and> w - 1 \<le> length s \<and> second_ok a (s ! 0) \<and> list_all cont_byte (take (w - 2) (drop 1 s))"
    using rune_width_eq [OF w, of a s] by (simp add: w_def)
  have "128 \<le> byte a" using eq w by (auto simp: first_width_def Let_def split: if_splits)
  moreover obtain b r where s: "s = b # r" using eq w by (cases s) auto
  moreover have "128 \<le> byte b"
    using eq by (auto simp: s second_ok_def cont_byte_def split: if_splits)
  moreover have "take (w - 2) r = r" using tk w by (simp add: s take_Cons' split: if_splits)
  then have "list_all cont_byte r" using eq by (simp add: s)
  then have "c \<in> set r \<Longrightarrow> 128 \<le> byte c" by (auto simp: list_all_iff cont_byte_def)
  ultimately show ?thesis using assms(2) by (auto simp: u)
qed

text \<open>
  \<open>strings.ToLower\<close> as far as a comparison with an ASCII word can see it: ASCII letters, and the
  two code points outside ASCII whose lower case is an ASCII letter (U+0130 and U+212A).
\<close>

definition lower_byte :: "char \<Rightarrow> char" where
  "lower_byte c = (if 65 \<le> byte c \<and> byte c \<le> 90 then char_of (byte c + 32) else c)"

fun lower_rune :: "rune \<Rightarrow> string" where
  "lower_rune (Rune s) =
     (if map byte s = [196, 176] then ''i''
      else if map byte s = [226, 132, 170] then ''k''
      else map lower_byte s)"
| "lower_rune (BadByte c) = replacement"

definition ToLower :: "string \<Rightarrow> string" where
  "ToLower s = concat (map lower_rune (runes s))"

text \<open>
  Printable ASCII without the space: what the names, tokens and requests of the examples and most
  inputs consist of. The rune machinery is the identity on it.
\<close>

definition graphic :: "string \<Rightarrow> bool" where
  "graphic s = list_all (\<lambda>c. 33 \<le> byte c \<and> byte c < 127) s"

lemma runes_ascii: "list_all (\<lambda>c. byte c < 128) s \<Longrightarrow> runes s = map (\<lambda>c. Rune [c]) s"
  by (induction s) (simp_all add: rune_width_def first_width_def Let_def)

lemma runes_graphic: "graphic s \<Longrightarrow> runes s = map (\<lambda>c. Rune [c]) s"
  by (rule runes_ascii) (auto simp: graphic_def list_all_iff)

lemma graphic_not_space: "33 \<le> byte c \<Longrightarrow> byte c < 127 \<Longrightarrow> \<not> is_space_rune (Rune [c])"
  by (auto simp: space_encodings_def byte_def)

lemma is_space_ascii:
  "byte c < 128 \<Longrightarrow> is_space_rune (Rune [c]) \<longleftrightarrow> byte c \<in> {9, 10, 11, 12, 13, 32}"
proof -
  assume "byte c < 128"
  have "c = char_of k \<longleftrightarrow> byte c = k" if "k < 256" for k :: nat
    using that by (auto simp: byte_def)
  then show ?thesis by (auto simp: space_encodings_def)
qed

lemma TrimSpace_graphic: "graphic s \<Longrightarrow> TrimSpace s = s"
proof -
  assume g: "graphic s"
  then have "\<forall>r \<in> set (runes s). \<not> is_space_rune r"
    by (auto simp: runes_graphic graphic_def list_all_iff graphic_not_space simp del: is_space_rune.simps)
  then show ?thesis by (simp add: TrimSpace_def dropWhile_none)
qed

lemma ToLower_graphic: "graphic s \<Longrightarrow> ToLower s = map lower_byte s"
  by (simp add: ToLower_def runes_graphic comp_def)

end
