(* ===== verification/Slurm_Job.thy ===== *)
theory Slurm_Job imports
  Go_Strings
begin

text \<open>
  The job record of \<open>internal/slurm/client.go\<close> and its accessors: the state tests
  (\<open>IsPending\<close>, \<open>IsHeld\<close>, \<open>IsTerminal\<close>), the size fields with sbatch's defaults, the GRES
  parser, and the tolerant decoding of the \<open>exclusive\<close> field. Integers keep the width of the
  source: a count from slurmrestd is a \<open>u64\<close>, sizes are \<open>i64\<close>, pod counts \<open>i32\<close>.
\<close>

section \<open>The record\<close>

record uint64_noval =
  nv_set :: bool
  nv_infinite :: bool
  nv_number :: u64

record job =
  JobID :: u64
  JobName :: string
  Partition :: string
  JobState :: "string list"
  StateReason :: string
  Priority :: uint64_noval
  Tasks :: uint64_noval
  CPUsPerTask :: uint64_noval
  MemoryPerCPU :: uint64_noval
  TresPerNode :: string
  TresPerJob :: string
  RequiredSwitches :: u64
  NodeCount :: uint64_noval
  TasksPerNode :: uint64_noval
  TimeLimit :: uint64_noval
  Comment :: string
  AdminComment :: string
  SubmitTime :: uint64_noval
  Hold :: bool
  Exclusive :: "string list"

text \<open>The zero values of Go, which is what an absent JSON field decodes to.\<close>

definition noval0 :: uint64_noval where
  "noval0 = \<lparr>nv_set = False, nv_infinite = False, nv_number = 0\<rparr>"

definition some_val :: "u64 \<Rightarrow> uint64_noval" where
  "some_val n = \<lparr>nv_set = True, nv_infinite = False, nv_number = n\<rparr>"

definition job0 :: job where
  "job0 = \<lparr>JobID = 0, JobName = [], Partition = [], JobState = [], StateReason = [],
     Priority = noval0, Tasks = noval0, CPUsPerTask = noval0, MemoryPerCPU = noval0,
     TresPerNode = [], TresPerJob = [], RequiredSwitches = 0, NodeCount = noval0,
     TasksPerNode = noval0, TimeLimit = noval0, Comment = [], AdminComment = [],
     SubmitTime = noval0, Hold = False, Exclusive = []\<rparr>"

section \<open>State tests\<close>

definition IsPending :: "job \<Rightarrow> bool" where
  "IsPending j \<longleftrightarrow> List.member (JobState j) ''PENDING''"

definition IsHeld :: "job \<Rightarrow> bool" where
  "IsHeld j =
     (if Hold j then True
      else nv_set (Priority j) \<and> nv_number (Priority j) = 0 \<and> HasPrefix (StateReason j) ''JobHeld'')"

definition terminal_states :: "string list" where
  "terminal_states = [''COMPLETED'', ''FAILED'', ''CANCELLED'', ''TIMEOUT'', ''NODE_FAIL'',
     ''PREEMPTED'', ''BOOT_FAIL'', ''DEADLINE'', ''OUT_OF_MEMORY'']"

definition IsTerminal :: "job \<Rightarrow> bool" where
  "IsTerminal j \<longleftrightarrow> list_ex (List.member terminal_states) (JobState j)"

definition WantsSwitchLocality :: "job \<Rightarrow> bool" where
  "WantsSwitchLocality j \<longleftrightarrow> RequiredSwitches j > 0"

section \<open>Sizes\<close>

definition clampUint64ToInt32 :: "u64 \<Rightarrow> i32" where
  "clampUint64ToInt32 v = (if v > 2147483647 then 2147483647 else ucast v)"

definition NTasks :: "job \<Rightarrow> i32" where
  "NTasks j = (if nv_set (Tasks j) \<and> nv_number (Tasks j) > 0
     then clampUint64ToInt32 (nv_number (Tasks j)) else 1)"

definition CPUs :: "job \<Rightarrow> i64" where
  "CPUs j = (if nv_set (CPUsPerTask j) \<and> nv_number (CPUsPerTask j) > 0
     then nv_number (CPUsPerTask j) else 1)"

definition MemPerCPUMB :: "job \<Rightarrow> i64" where
  "MemPerCPUMB j = (if nv_set (MemoryPerCPU j) \<and> nv_number (MemoryPerCPU j) > 0
     then nv_number (MemoryPerCPU j) else 1024)"

definition Nodes :: "job \<Rightarrow> i32" where
  "Nodes j = (if nv_set (NodeCount j) \<and> nv_number (NodeCount j) > 0
     then clampUint64ToInt32 (nv_number (NodeCount j)) else 0)"

definition TasksPerNodeOrDefault :: "job \<Rightarrow> i64" where
  "TasksPerNodeOrDefault j = (if nv_set (TasksPerNode j) \<and> nv_number (TasksPerNode j) > 0
     then nv_number (TasksPerNode j) else 1)"

definition TimeLimitSeconds :: "job \<Rightarrow> i64" where
  "TimeLimitSeconds j =
     (if nv_set (TimeLimit j) \<and> \<not> nv_infinite (TimeLimit j) \<and> nv_number (TimeLimit j) > 0
      then nv_number (TimeLimit j) * 60 else 0)"

section \<open>GRES requests\<close>

text \<open>The loop over the segments from the last one back: the first that parses is the count.\<close>

fun last_count :: "string list \<Rightarrow> i64" where
  "last_count [] = 0"
| "last_count (p # ps) =
     (case ParseInt p 64 of
        Some n \<Rightarrow> (if n < 0 then 0 else word_of_int n)
      | None \<Rightarrow> last_count ps)"

fun gpu_entries :: "string list \<Rightarrow> i64 option" where
  "gpu_entries [] = None"
| "gpu_entries (e # es) =
     (case CutPrefix (TrimSpace e) ''gres/gpu'' of
        None \<Rightarrow> gpu_entries es
      | Some rest \<Rightarrow>
          if rest \<noteq> [] \<and> hd rest \<noteq> CHR '':'' \<and> hd rest \<noteq> CHR ''='' then gpu_entries es
          else let r = TrimPrefix (TrimPrefix rest ''='') '':'' in
            if r = [] then Some 1
            else Some (last_count (rev (Split_char CHR '':'' r))))"

text \<open>\<open>None\<close> is the source's \<open>(0, false)\<close>: no GPU entry at all.\<close>

definition extractGPUCount :: "string \<Rightarrow> i64 option" where
  "extractGPUCount s = gpu_entries (Split_char CHR '','' s)"

definition GPUsPerNode :: "job \<Rightarrow> i64" where
  "GPUsPerNode j =
     (case extractGPUCount (TresPerNode j) of
        Some n \<Rightarrow> n
      | None \<Rightarrow>
          (case extractGPUCount (TresPerJob j) of
             Some n \<Rightarrow>
               (let nodes0 = (scast (Nodes j) :: i64);
                    nodes = (if nodes0 \<le>s 0 then 1 else nodes0)
                in go_quot (n + nodes - 1) nodes)
           | None \<Rightarrow> 0))"

section \<open>The exclusive field\<close>

text \<open>
  The JSON value handed to \<open>UnmarshalJSON\<close> (the decoder has already checked its syntax); the first
  argument is the receiver, which an unexpected shape leaves as it is. A JSON \<open>null\<close> inside a
  string array decodes to the empty string.
\<close>

datatype json = JNull | JBool bool | JNum string | JStr string | JArr "json list" | JObj "(string \<times> json) list"

fun json_string_elem :: "json \<Rightarrow> string option" where
  "json_string_elem (JStr s) = Some s"
| "json_string_elem JNull = Some []"
| "json_string_elem _ = None"

fun string_array :: "json list \<Rightarrow> string list option" where
  "string_array [] = Some []"
| "string_array (v # vs) =
     (case json_string_elem v of None \<Rightarrow> None
      | Some s \<Rightarrow> map_option (\<lambda>ss. s # ss) (string_array vs))"

fun exclusiveFlags_unmarshal :: "string list \<Rightarrow> json \<Rightarrow> string list" where
  "exclusiveFlags_unmarshal e (JArr vs) = (case string_array vs of Some ss \<Rightarrow> ss | None \<Rightarrow> e)"
| "exclusiveFlags_unmarshal e (JStr s) = [s]"
| "exclusiveFlags_unmarshal e _ = e"

definition exclusive_tokens :: "string list" where
  "exclusive_tokens = [''true'', ''user'', ''mcs'', ''topo'']"

definition IsExclusive :: "job \<Rightarrow> bool" where
  "IsExclusive j \<longleftrightarrow> list_ex (\<lambda>f. List.member exclusive_tokens (ToLower (TrimSpace f))) (Exclusive j)"

section \<open>Bounds of the sizes\<close>

lemma sint_clamp: "sint (clampUint64ToInt32 v) = min (uint v) (2 ^ 31 - 1)"
proof (cases "v > 2147483647")
  case True
  then have "uint v > 2147483647" by (simp add: word_less_def)
  with True show ?thesis by (simp add: clampUint64ToInt32_def)
next
  case False
  then have le: "uint v \<le> 2147483647" by (simp add: word_less_def)
  have ge: "0 \<le> uint v" by simp
  have "uint (ucast v :: i32) = uint v"
    using le ge by (simp add: unsigned_ucast_eq take_bit_int_eq_self)
  then have "sint (ucast v :: i32) = uint v"
    using le ge by (simp add: sint_uint signed_take_bit_nonneg)
  with False le show ?thesis by (simp add: clampUint64ToInt32_def)
qed

lemma sint_clamp_pos: "v > 0 \<Longrightarrow> 0 < sint (clampUint64ToInt32 v)"
  by (simp add: sint_clamp word_less_def)

lemma sint_NTasks_pos: "0 < sint (NTasks j)"
  by (simp add: NTasks_def sint_clamp_pos)

lemma sint_Nodes_nonneg: "0 \<le> sint (Nodes j)"
  by (simp add: Nodes_def sint_clamp)

lemma sint_Nodes_lt: "sint (Nodes j) < 2 ^ 31"
  by (rule sint_lt32)

lemma sint_scast_Nodes: "sint (scast (Nodes j) :: i64) = sint (Nodes j)"
  by (rule sint_up_scast) (simp add: is_up)

section \<open>A concrete job\<close>

text \<open>A held two-node job with four tasks per node, six GPUs for the whole job and a time limit,
  used where a property is applied to a concrete input.\<close>

definition example_job :: job where
  "example_job = job0\<lparr>JobID := 42, Partition := ''mixed'', JobState := [''PENDING''],
     StateReason := ''JobHeldAdmin'', Priority := some_val 0, NodeCount := some_val 2,
     TasksPerNode := some_val 4, CPUsPerTask := some_val 2, TresPerJob := ''gres/gpu:5'',
     TimeLimit := some_val 60, SubmitTime := some_val 1700000000, Exclusive := [''user'']\<rparr>"

lemmas example_job_simps = example_job_def job0_def noval0_def some_val_def

end
