(* ===== verification/K8s_Objects.thy ===== *)
theory K8s_Objects imports
  Go_Strings
begin

text \<open>
  The Kubernetes objects the two bridges read and write, as far as their code sets or reads
  them: the JobSet with its pod template, the Kueue Workload read as an unstructured object,
  and the errors a call to the API server or to slurmrestd can return. Label and annotation
  maps are association lists read with \<open>map_of\<close>; an absent (nil) map is the empty list.
\<close>

section \<open>Errors\<close>

text \<open>
  \<open>ApiError\<close> is \<open>slurm.APIError\<close> (status, method, path, body). \<open>AlreadyExists\<close> and \<open>NotFound\<close> are
  the API server's answers that \<open>apierrors.IsAlreadyExists\<close> and \<open>apierrors.IsNotFound\<close> recognise.
  \<open>Wrap\<close> is \<open>fmt.Errorf\<close> with \<open>%w\<close>, \<open>Joined\<close> is \<open>errors.Join\<close>.
\<close>

datatype error =
    ApiError int string string string
  | AlreadyExists
  | NotFound
  | Msg string
  | NoPriorityClass string
  | Wrap string error
  | Joined "error list"

text \<open>\<open>errors.As\<close> for \<open>*slurm.APIError\<close>: the first one in a depth-first walk; its status code.\<close>

fun api_status :: "error \<Rightarrow> int option" where
  "api_status (ApiError code m p b) = Some code"
| "api_status (Wrap s e) = api_status e"
| "api_status (Joined es) =
     foldr (\<lambda>e found. case api_status e of None \<Rightarrow> found | Some code \<Rightarrow> Some code) es None"
| "api_status _ = None"

text \<open>\<open>apierrors.IsAlreadyExists\<close> and \<open>apierrors.IsNotFound\<close> look through wrapping as well.\<close>

fun is_already_exists :: "error \<Rightarrow> bool" where
  "is_already_exists AlreadyExists = True"
| "is_already_exists (Wrap s e) = is_already_exists e"
| "is_already_exists _ = False"

fun is_kube_not_found :: "error \<Rightarrow> bool" where
  "is_kube_not_found NotFound = True"
| "is_kube_not_found (Wrap s e) = is_kube_not_found e"
| "is_kube_not_found _ = False"

section \<open>JobSets\<close>

datatype quantity_format = DecimalSI | BinarySI

record quantity =
  qty_value :: i64
  qty_format :: quantity_format

record security_context =
  sc_privileged :: bool
  sc_allow_escalation :: "bool option"
  sc_drop :: "string list"
  sc_add :: "string list"

datatype probe = TcpProbe int int int | ExecProbe "string list" int int

datatype volume_source = SecretVolume string int | NfsVolume string string

record volume_mount =
  vm_name :: string
  vm_path :: string
  vm_subpath :: string
  vm_readonly :: bool

record container =
  c_name :: string
  c_image :: string
  c_security :: security_context
  c_command :: "string list"
  c_args :: "string list"
  c_probe :: probe
  c_requests :: "(string \<times> quantity) list"
  c_limits :: "(string \<times> quantity) list"
  c_mounts :: "volume_mount list"
  c_env :: "(string \<times> string) list"

record toleration =
  tol_key :: string
  tol_operator :: string
  tol_effect :: string

record affinity_term =
  at_topology_key :: string
  at_match_labels :: "(string \<times> string) list"

record pod_spec =
  p_restart :: string
  p_containers :: "container list"
  p_volumes :: "(string \<times> volume_source) list"
  p_tolerations :: "toleration list"
  p_anti_affinity :: "affinity_term list"

record job_template =
  jt_parallelism :: "i32 option"
  jt_completions :: "i32 option"
  jt_backoff :: "i32 option"
  jt_deadline :: "i64 option"
  jt_pod_labels :: "(string \<times> string) list"
  jt_pod_annotations :: "(string \<times> string) list"
  jt_pod :: pod_spec

record replicated_job =
  rj_name :: string
  rj_replicas :: i32
  rj_template :: job_template

text \<open>
  Status conditions are a list keyed by type in the API, here an association list from the
  type to status and message: \<open>apimeta.FindStatusCondition\<close> is the lookup.
\<close>

record jobset =
  js_name :: string
  js_namespace :: string
  js_labels :: "(string \<times> string) list"
  js_annotations :: "(string \<times> string) list"
  js_owners :: "(string \<times> string) list"
  js_max_restarts :: i32
  js_replicated :: "replicated_job list"
  js_conditions :: "(string \<times> (string \<times> string)) list"

definition label_of :: "jobset \<Rightarrow> string \<Rightarrow> string" where
  "label_of js k = (case map_of (js_labels js) k of Some v \<Rightarrow> v | None \<Rightarrow> [])"

definition annotation_of :: "jobset \<Rightarrow> string \<Rightarrow> string" where
  "annotation_of js k = (case map_of (js_annotations js) k of Some v \<Rightarrow> v | None \<Rightarrow> [])"

definition set_annotation :: "string \<Rightarrow> string \<Rightarrow> jobset \<Rightarrow> jobset" where
  "set_annotation k v js = js\<lparr>js_annotations := AList.update k v (js_annotations js)\<rparr>"

definition condition_true :: "jobset \<Rightarrow> string \<Rightarrow> bool" where
  "condition_true js t =
     (case map_of (js_conditions js) t of Some (status, _) \<Rightarrow> status = ''True'' | None \<Rightarrow> False)"

lemma set_annotation_simps [simp]:
  "js_name (set_annotation k v js) = js_name js"
  "js_namespace (set_annotation k v js) = js_namespace js"
  "js_labels (set_annotation k v js) = js_labels js"
  "js_conditions (set_annotation k v js) = js_conditions js"
  "js_replicated (set_annotation k v js) = js_replicated js"
  "map_of (js_annotations (set_annotation k v js)) = (map_of (js_annotations js))(k \<mapsto> v)"
  by (simp_all add: set_annotation_def)

lemma condition_true_set_annotation [simp]:
  "condition_true (set_annotation k v js) t = condition_true js t"
  by (simp add: condition_true_def)

section \<open>Workloads\<close>

text \<open>
  A Workload condition is whatever JSON the object carries: \<open>NotAMap\<close> for an element that is no
  object, else the \<open>type\<close>, \<open>status\<close> and \<open>message\<close> fields, each \<open>None\<close> when absent or not a
  string. \<open>wl_priority\<close> is \<open>None\<close> when \<open>spec.priority\<close> is not there.
\<close>

datatype ucondition =
    NotAMap
  | UCond (uc_type: "string option") (uc_status: "string option") (uc_message: "string option")

record workload =
  wl_name :: string
  wl_owners :: "(string \<times> string) list"
  wl_conditions :: "ucondition list"
  wl_priority :: "i64 option"

end
