(* ===== verification/Bridge_Config.thy ===== *)
theory Bridge_Config imports
  K8s_Objects
begin

text \<open>
  \<open>internal/config/config.go\<close>: the configuration record both loaders fill, its lookups, the
  defaults, the validation, and the two deploy-time allowlists (images and file paths). The
  lookup contract of a mapping table is the locale \<open>mapping_table\<close>, which the Ray side's pool
  mappings satisfy as well.
\<close>

section \<open>The record\<close>

record partition_mapping =
  PartitionName :: string
  WorkloadPriorityClass :: string
  PartitionQueue :: string

record shared_storage =
  NFSServer :: string
  NFSPath :: string
  MountPath :: string

record slurmd =
  Image :: string
  ConfServer :: string
  AuthSecretName :: string
  GPUResourceName :: string
  Privileged :: "bool option"
  SharedStorage :: "shared_storage option"

record topology =
  RequiredLevel :: string
  PreferredLevel :: string

text \<open>Durations are nanoseconds; the request rate is a finite double, hence a rational.\<close>

record config =
  SlurmRestURL :: string
  SlurmTokenFile :: string
  SlurmUser :: string
  AllowInsecureHTTP :: bool
  SlurmCACertFile :: string
  SlurmInsecureSkipTLSVerify :: bool
  SlurmRequestTimeout :: int
  SlurmRequestsPerSecond :: rat
  Namespace :: string
  LocalQueue :: string
  PartitionMappings :: "partition_mapping list"
  Slurmd :: slurmd
  Topology :: topology
  PollInterval :: int
  EnablePrioritySync :: bool
  MaxUserPriority :: i32
  CancelOrphanedJobs :: bool
  OrphanGraceTicks :: int
  DrainOnPreemption :: bool
  FailedJobSetRetention :: int
  CreateWorkers :: int
  WorkloadMixingName :: string

definition PrivilegedOrDefault :: "slurmd \<Rightarrow> bool" where
  "PrivilegedOrDefault s = (case Privileged s of None \<Rightarrow> True | Some p \<Rightarrow> p)"

section \<open>Lookups\<close>

fun class_in :: "partition_mapping list \<Rightarrow> string \<Rightarrow> string option" where
  "class_in [] p = None"
| "class_in (m # ms) p = (if PartitionName m = p then Some (WorkloadPriorityClass m) else class_in ms p)"

fun queue_in :: "partition_mapping list \<Rightarrow> string \<Rightarrow> string option" where
  "queue_in [] p = None"
| "queue_in (m # ms) p =
     (if PartitionName m = p \<and> PartitionQueue m \<noteq> [] then Some (PartitionQueue m) else queue_in ms p)"

definition PriorityClassFor :: "config \<Rightarrow> string \<Rightarrow> string option" where
  "PriorityClassFor c p = class_in (PartitionMappings c) p"

definition LocalQueueFor :: "config \<Rightarrow> string \<Rightarrow> string" where
  "LocalQueueFor c p = (case queue_in (PartitionMappings c) p of Some q \<Rightarrow> q | None \<Rightarrow> LocalQueue c)"

text \<open>
  The contract of such a table: first match wins. What the clients rely on follows once: with
  distinct keys the order of the entries does not matter, an entry behind one with the same
  key is dead, and a lookup succeeds exactly for the listed keys.
\<close>

locale mapping_table =
  fixes key :: "'m \<Rightarrow> string"
    and cls :: "'m \<Rightarrow> string"
    and lookup :: "'m list \<Rightarrow> string \<Rightarrow> string option"
  assumes lookup_Nil: "lookup [] k = None"
    and lookup_Cons: "lookup (m # ms) k = (if key m = k then Some (cls m) else lookup ms k)"
begin

lemma lookup_map_of: "lookup ms k = map_of (map (\<lambda>m. (key m, cls m)) ms) k"
  by (induction ms) (simp_all add: lookup_Nil lookup_Cons)

lemma lookup_mapped_iff: "lookup ms k \<noteq> None \<longleftrightarrow> k \<in> key ` set ms"
  by (induction ms) (auto simp: lookup_Nil lookup_Cons)

lemma lookup_shadowed: "lookup (xs @ m # ys) k = (if k \<in> key ` set xs then lookup xs k
    else if key m = k then Some (cls m) else lookup ys k)"
  by (induction xs) (auto simp: lookup_Nil lookup_Cons)

lemma lookup_perm:
  assumes "distinct (map key ms)" "set ns = set ms" "distinct (map key ns)"
  shows "lookup ns k = lookup ms k"
proof -
  have "map_of (map (\<lambda>m. (key m, cls m)) ns) = map_of (map (\<lambda>m. (key m, cls m)) ms)"
    using assms by (intro map_of_inject_set [THEN iffD2]) (simp_all add: comp_def)
  then show ?thesis by (simp add: lookup_map_of)
qed

end

interpretation partitions: mapping_table PartitionName WorkloadPriorityClass class_in
  by unfold_locales simp_all

section \<open>Defaults\<close>

definition ApplyDefaults :: "config \<Rightarrow> config" where
  "ApplyDefaults c0 =
     (let c1 = (if PollInterval c0 = 0 then c0\<lparr>PollInterval := 10 * second\<rparr> else c0);
          c2 = (if GPUResourceName (Slurmd c1) = []
                then c1\<lparr>Slurmd := (Slurmd c1)\<lparr>GPUResourceName := ''nvidia.com/gpu''\<rparr>\<rparr> else c1);
          c3 = (if CreateWorkers c2 = 0 then c2\<lparr>CreateWorkers := 8\<rparr> else c2);
          c4 = (if OrphanGraceTicks c3 = 0 then c3\<lparr>OrphanGraceTicks := 3\<rparr> else c3)
      in if SlurmRequestTimeout c4 = 0 then c4\<lparr>SlurmRequestTimeout := 30 * second\<rparr> else c4)"

section \<open>Validation\<close>

datatype config_error =
    RequiredFields | NoMappings | BlankMapping nat | DuplicateMapping nat string
  | BadURL | PlaintextHTTP | BadScheme string | PollTooShort | NoImage | NoAuthSecret
  | NegativeMaxPriority | NegativeWorkers | NegativeGrace | BadRate | BadTimeout
  | NegativeRetention | RetentionTooLong | BadDuration string string
  | ImageNotAllowed string | PathNotAbsolute string string | PathNotAllowed string string
  | InsecureTLSRefused | InResource string string config_error

fun check_mappings :: "nat \<Rightarrow> string list \<Rightarrow> partition_mapping list \<Rightarrow> config_error option" where
  "check_mappings i seen [] = None"
| "check_mappings i seen (m # ms) =
     (if TrimSpace (PartitionName m) = [] \<or> TrimSpace (WorkloadPriorityClass m) = [] then Some (BlankMapping i)
      else if List.member seen (PartitionName m) then Some (DuplicateMapping i (PartitionName m))
      else check_mappings (Suc i) (PartitionName m # seen) ms)"

text \<open>
  \<open>url_scheme\<close> stands for \<open>net/url.Parse\<close>: the lower-cased scheme of the URL, \<open>None\<close> when it does
  not parse. The result is the error, \<open>None\<close> for nil, with the checks in the source's order.
\<close>

definition check_url :: "(string \<Rightarrow> string option) \<Rightarrow> config \<Rightarrow> config_error option" where
  "check_url url_scheme c =
     (case url_scheme (SlurmRestURL c) of
        None \<Rightarrow> Some BadURL
      | Some sch \<Rightarrow>
          if sch = ''https'' then None
          else if sch = ''http'' then (if \<not> AllowInsecureHTTP c then Some PlaintextHTTP else None)
          else Some (BadScheme sch))"

definition Validate :: "(string \<Rightarrow> string option) \<Rightarrow> config \<Rightarrow> config_error option" where
  "Validate url_scheme c =
     (if SlurmRestURL c = [] \<or> Namespace c = [] \<or> LocalQueue c = [] then Some RequiredFields
      else if PartitionMappings c = [] then Some NoMappings
      else case check_mappings 0 [] (PartitionMappings c) of Some e \<Rightarrow> Some e | None \<Rightarrow>
           case check_url url_scheme c of Some e \<Rightarrow> Some e | None \<Rightarrow>
      if PollInterval c < second then Some PollTooShort
      else if TrimSpace (Image (Slurmd c)) = [] then Some NoImage
      else if TrimSpace (AuthSecretName (Slurmd c)) = [] then Some NoAuthSecret
      else if MaxUserPriority c <s 0 then Some NegativeMaxPriority
      else if CreateWorkers c < 0 then Some NegativeWorkers
      else if OrphanGraceTicks c < 0 then Some NegativeGrace
      else if SlurmRequestsPerSecond c < 0 \<or> SlurmRequestsPerSecond c > 10000 then Some BadRate
      else if SlurmRequestTimeout c < second \<or> SlurmRequestTimeout c > 600 * second then Some BadTimeout
      else if FailedJobSetRetention c < 0 then Some NegativeRetention
      else if FailedJobSetRetention c > 7 * 24 * 3600 * second then Some RetentionTooLong
      else None)"

text \<open>\<open>Load\<close> after the file has been read and parsed; the error is that of \<open>Validate\<close>.\<close>

definition Load :: "(string \<Rightarrow> string option) \<Rightarrow> config \<Rightarrow> config_error + config" where
  "Load url_scheme parsed =
     (let cfg = ApplyDefaults parsed
      in case Validate url_scheme cfg of Some err \<Rightarrow> Inl err | None \<Rightarrow> Inr cfg)"

section \<open>Deploy-time allowlists\<close>

definition ValidateImageAllowed :: "string \<Rightarrow> string list \<Rightarrow> config_error option" where
  "ValidateImageAllowed img allowed =
     (if list_ex (HasPrefix img) allowed then None else Some (ImageNotAllowed img))"

text \<open>
  \<open>path/filepath\<close> on a Unix system: \<open>IsAbs\<close> is a leading slash; \<open>Clean\<close> drops empty and \<open>.\<close>
  elements and resolves \<open>..\<close> against what stands before it (a leading \<open>..\<close> stays in a relative
  path and vanishes at the root).
\<close>

definition IsAbs :: "string \<Rightarrow> bool" where
  "IsAbs p = HasPrefix p ''/''"

fun clean_elems :: "bool \<Rightarrow> string list \<Rightarrow> string list \<Rightarrow> string list" where
  "clean_elems rooted out [] = rev out"
| "clean_elems rooted out (e # es) =
     (if e = [] \<or> e = ''.'' then clean_elems rooted out es
      else if e = ''..'' then
        (case out of
           [] \<Rightarrow> clean_elems rooted (if rooted then [] else [''..'']) es
         | o1 # os \<Rightarrow> clean_elems rooted (if o1 = ''..'' then ''..'' # out else os) es)
      else clean_elems rooted (e # out) es)"

definition Clean :: "string \<Rightarrow> string" where
  "Clean p =
     (let rooted = IsAbs p;
          body = Join ''/'' (clean_elems rooted [] (Split_char CHR ''/'' p))
      in if rooted then CHR ''/'' # body else if body = [] then ''.'' else body)"

definition under_prefix :: "string \<Rightarrow> string \<Rightarrow> bool" where
  "under_prefix clean pre \<longleftrightarrow>
     pre \<noteq> [] \<and> (clean = Clean pre \<or> HasPrefix clean (Clean pre @ ''/''))"

definition ValidateFilePathAllowed :: "string \<Rightarrow> string \<Rightarrow> string list \<Rightarrow> config_error option" where
  "ValidateFilePathAllowed field path allowed =
     (if \<not> IsAbs path then Some (PathNotAbsolute field path)
      else if list_ex (under_prefix (Clean path)) allowed then None
      else Some (PathNotAllowed field (Clean path)))"

definition DefaultAllowedTokenPaths :: "string list" where
  "DefaultAllowedTokenPaths = [''/var/run/secrets/slurm/'', ''/etc/k8s-bridge/'']"

section \<open>A concrete configuration\<close>

definition example_config :: config where
  "example_config =
     \<lparr>SlurmRestURL = ''https://slurm:6820'', SlurmTokenFile = ''/var/run/secrets/slurm/token'',
      SlurmUser = [], AllowInsecureHTTP = False, SlurmCACertFile = [], SlurmInsecureSkipTLSVerify = False,
      SlurmRequestTimeout = 30 * second, SlurmRequestsPerSecond = 0, Namespace = ''slurm-jobs'',
      LocalQueue = ''mixed-queue'',
      PartitionMappings = [\<lparr>PartitionName = ''mixed'', WorkloadPriorityClass = ''high'', PartitionQueue = []\<rparr>],
      Slurmd = \<lparr>Image = ''ghcr.io/slurmd'', ConfServer = ''slurmctld:6817'', AuthSecretName = ''slurm-key'',
                GPUResourceName = ''nvidia.com/gpu'', Privileged = None, SharedStorage = None\<rparr>,
      Topology = \<lparr>RequiredLevel = [], PreferredLevel = []\<rparr>,
      PollInterval = 10 * second, EnablePrioritySync = True, MaxUserPriority = 0,
      CancelOrphanedJobs = True, OrphanGraceTicks = 3, DrainOnPreemption = True,
      FailedJobSetRetention = 0, CreateWorkers = 8, WorkloadMixingName = []\<rparr>"

definition two_mappings :: "partition_mapping list" where
  "two_mappings =
     [\<lparr>PartitionName = ''mixed'', WorkloadPriorityClass = ''high'', PartitionQueue = []\<rparr>,
      \<lparr>PartitionName = ''gpu'', WorkloadPriorityClass = ''low'', PartitionQueue = ''gpu-queue''\<rparr>]"

section \<open>Lemmas\<close>

definition mapping_ok :: "partition_mapping \<Rightarrow> bool" where
  "mapping_ok m \<longleftrightarrow> TrimSpace (PartitionName m) \<noteq> [] \<and> TrimSpace (WorkloadPriorityClass m) \<noteq> []"

lemma check_mappings_None:
  "check_mappings i seen ms = None \<longleftrightarrow>
     list_all mapping_ok ms \<and> distinct (map PartitionName ms) \<and> set seen \<inter> PartitionName ` set ms = {}"
  by (induction i seen ms rule: check_mappings.induct) (auto simp: mapping_ok_def)

lemma queue_in_map_of:
  "queue_in ms p = map_of (map (\<lambda>m. (PartitionName m, PartitionQueue m)) (filter (\<lambda>m. PartitionQueue m \<noteq> []) ms)) p"
  by (induction ms) auto

lemma queue_in_perm:
  assumes "distinct (map PartitionName ms)" "distinct (map PartitionName ns)" "set ns = set ms"
  shows "queue_in ns p = queue_in ms p"
proof -
  let ?f = "\<lambda>ms. map (\<lambda>m. (PartitionName m, PartitionQueue m)) (filter (\<lambda>m. PartitionQueue m \<noteq> []) ms)"
  have "map_of (?f ns) = map_of (?f ms)"
    using assms by (intro map_of_inject_set [THEN iffD2]) (simp_all add: comp_def distinct_map_filter)
  then show ?thesis by (simp add: queue_in_map_of)
qed

text \<open>An element that survives cleaning at the root.\<close>

definition clean_elem :: "string \<Rightarrow> bool" where
  "clean_elem e \<longleftrightarrow> e \<noteq> [] \<and> e \<noteq> ''.'' \<and> e \<noteq> ''..'' \<and> CHR ''/'' \<notin> set e"

lemma clean_elems_ok:
  "list_all clean_elem out \<Longrightarrow> list_all (\<lambda>e. CHR ''/'' \<notin> set e) es \<Longrightarrow>
   list_all clean_elem (clean_elems True out es)"
  by (induction True out es rule: clean_elems.induct)
    (auto simp: clean_elem_def list_all_rev split: list.splits)

lemma clean_elems_id:
  "list_all clean_elem es \<Longrightarrow> clean_elems r out es = rev out @ es"
  by (induction es arbitrary: out) (auto simp: clean_elem_def)

lemma Split_char_Join:
  "ws \<noteq> [] \<Longrightarrow> list_all (\<lambda>w. c \<notin> set w) ws \<Longrightarrow> Split_char c (Join [c] ws) = ws"
proof (induction "[c]" ws rule: Join.induct)
  case (3 w v ws)
  then show ?case using Split_char_append_sep [of c w] by simp
qed (simp_all add: Split_char_id)

definition path_elems :: "string \<Rightarrow> string list" where
  "path_elems p = clean_elems True [] (Split_char CHR ''/'' p)"

lemma path_elems_ok: "list_all clean_elem (path_elems p)"
  unfolding path_elems_def
  by (rule clean_elems_ok) (auto simp: list_all_iff dest: Split_char_no_sep)

lemma Clean_abs: "IsAbs p \<Longrightarrow> Clean p = CHR ''/'' # Join ''/'' (path_elems p)"
  by (simp add: Clean_def path_elems_def)

lemma Split_Clean:
  assumes "IsAbs p"
  shows "Split_char CHR ''/'' (Clean p) = [] # (if path_elems p = [] then [[]] else path_elems p)"
proof -
  have "list_all (\<lambda>w. CHR ''/'' \<notin> set w) (path_elems p)"
    using path_elems_ok [of p] by (simp add: list_all_iff clean_elem_def)
  then show ?thesis by (simp add: Clean_abs [OF assms] Split_char_Join)
qed

lemma IsAbs_Clean: "IsAbs p \<Longrightarrow> IsAbs (Clean p)"
  by (simp add: Clean_abs) (simp add: IsAbs_def HasPrefix_def)

lemma Clean_idem:
  assumes "IsAbs p" shows "Clean (Clean p) = Clean p"
proof -
  have "path_elems (Clean p) = path_elems p"
    using path_elems_ok [of p]
    by (auto simp: path_elems_def [of "Clean p"] Split_Clean [OF assms] clean_elems_id)
  moreover have "Clean (Clean p) = CHR ''/'' # Join ''/'' (path_elems (Clean p))"
    by (rule Clean_abs [OF IsAbs_Clean [OF assms]])
  ultimately show ?thesis by (simp add: Clean_abs [OF assms])
qed

lemma ValidateFilePathAllowed_None:
  "ValidateFilePathAllowed f p allowed = None \<longleftrightarrow> IsAbs p \<and> (\<exists>pre \<in> set allowed. under_prefix (Clean p) pre)"
  by (auto simp: ValidateFilePathAllowed_def list_ex_iff)

lemma Clean_default_paths:
  "map Clean DefaultAllowedTokenPaths = [''/var/run/secrets/slurm'', ''/etc/k8s-bridge'']"
  by (simp add: DefaultAllowedTokenPaths_def Clean_def IsAbs_def HasPrefix_def)

section \<open>Properties\<close>

text \<open>\<open>Validate\<close> accepts exactly the configurations the bridge can run with: required fields
  set, at least one mapping, every mapping named and no partition twice, an encrypted endpoint
  unless plaintext is allowed, and every tunable within its range.\<close>

lemma validate_accepts_exactly:
  "Validate url_scheme c = None \<longleftrightarrow>
     SlurmRestURL c \<noteq> [] \<and> Namespace c \<noteq> [] \<and> LocalQueue c \<noteq> []
     \<and> PartitionMappings c \<noteq> [] \<and> list_all mapping_ok (PartitionMappings c)
     \<and> distinct (map PartitionName (PartitionMappings c))
     \<and> (url_scheme (SlurmRestURL c) = Some ''https''
        \<or> url_scheme (SlurmRestURL c) = Some ''http'' \<and> AllowInsecureHTTP c)
     \<and> TrimSpace (Image (Slurmd c)) \<noteq> [] \<and> TrimSpace (AuthSecretName (Slurmd c)) \<noteq> []
     \<and> second \<le> PollInterval c \<and> 0 \<le> sint (MaxUserPriority c)
     \<and> 0 \<le> CreateWorkers c \<and> 0 \<le> OrphanGraceTicks c
     \<and> 0 \<le> SlurmRequestsPerSecond c \<and> SlurmRequestsPerSecond c \<le> 10000
     \<and> second \<le> SlurmRequestTimeout c \<and> SlurmRequestTimeout c \<le> 600 * second
     \<and> 0 \<le> FailedJobSetRetention c \<and> FailedJobSetRetention c \<le> 7 * 24 * 3600 * second"
proof -
  have url: "check_url url_scheme c = None \<longleftrightarrow> url_scheme (SlurmRestURL c) = Some ''https''
        \<or> url_scheme (SlurmRestURL c) = Some ''http'' \<and> AllowInsecureHTTP c"
    by (auto simp: check_url_def split: option.splits)
  have maps: "check_mappings 0 [] (PartitionMappings c) = None \<longleftrightarrow>
      list_all mapping_ok (PartitionMappings c) \<and> distinct (map PartitionName (PartitionMappings c))"
    by (simp add: check_mappings_None)
  show ?thesis
    unfolding url [symmetric] conj_assoc [symmetric] Validate_def sless_sint
    by (cases "check_mappings 0 [] (PartitionMappings c)"; cases "check_url url_scheme c")
      (use maps in \<open>auto simp: not_less\<close>)
qed

text \<open>For validated configurations the order of the partition mappings is irrelevant: two that
  list the same mappings map every partition to the same priority class and the same queue.\<close>

lemma mapping_order_irrelevant:
  assumes "Validate us c = None" "Validate us' c' = None"
    and "set (PartitionMappings c') = set (PartitionMappings c)" "LocalQueue c' = LocalQueue c"
  shows "PriorityClassFor c' p = PriorityClassFor c p \<and> LocalQueueFor c' p = LocalQueueFor c p"
proof -
  have d: "Validate us c = None \<Longrightarrow> distinct (map PartitionName (PartitionMappings c))" for us c
    by (auto simp: Validate_def check_mappings_None split: if_splits option.splits)
  show ?thesis
    using partitions.lookup_perm [OF d [OF assms(1)] assms(3) d [OF assms(2)]]
      queue_in_perm [OF d [OF assms(1)] d [OF assms(2)] assms(3)] assms(4)
    by (simp add: PriorityClassFor_def LocalQueueFor_def split: option.split)
qed

text \<open>An accepted file path cannot escape its allowlist: it is absolute, its cleaned form has no
  dot-dot element and is stable under cleaning, and it is an allowed directory itself or lies
  below one at a path boundary. With the default list everything under the Kubernetes service
  account mount is refused.\<close>

lemma accepted_path_is_confined:
  assumes "ValidateFilePathAllowed f p allowed = None"
  shows "IsAbs p \<and> Clean (Clean p) = Clean p
    \<and> ''..'' \<notin> set (Split_char CHR ''/'' (Clean p))
    \<and> (\<exists>pre. List.member allowed pre \<and> pre \<noteq> []
        \<and> (Clean p = Clean pre \<or> (\<exists>rest. Clean p = Clean pre @ ''/'' @ rest)))
    \<and> (allowed = DefaultAllowedTokenPaths \<longrightarrow> \<not> prefix ''/var/run/secrets/kubernetes.io'' (Clean p))"
proof -
  from assms obtain pre where abs: "IsAbs p" and pre: "pre \<in> set allowed" "under_prefix (Clean p) pre"
    by (auto simp: ValidateFilePathAllowed_None)
  have "''..'' \<notin> set (path_elems p)" using path_elems_ok [of p] by (auto simp: list_all_iff clean_elem_def)
  then have dots: "''..'' \<notin> set (Split_char CHR ''/'' (Clean p))" by (simp add: Split_Clean [OF abs])
  have below: "Clean p = Clean pre \<or> (\<exists>rest. Clean p = Clean pre @ ''/'' @ rest)"
    using pre(2) by (auto simp: under_prefix_def elim: HasPrefixE)
  have "\<not> prefix ''/var/run/secrets/kubernetes.io'' (Clean p)" if "allowed = DefaultAllowedTokenPaths"
  proof -
    have "Clean pre \<in> set (map Clean DefaultAllowedTokenPaths)" using pre(1) that by auto
    then have "Clean pre = ''/var/run/secrets/slurm'' \<or> Clean pre = ''/etc/k8s-bridge''"
      by (simp add: Clean_default_paths)
    with below show ?thesis by auto
  qed
  with abs dots below pre show ?thesis
    by (auto simp: Clean_idem under_prefix_def)
qed

text \<open>Allowing the root directory allows nothing but the root itself: the boundary check looks
  for two slashes, which no cleaned path has.\<close>

lemma root_prefix_allows_nothing_below:
  assumes "ValidateFilePathAllowed f p [''/''] = None"
  shows "Clean p = ''/''"
proof -
  have abs: "IsAbs p" and "under_prefix (Clean p) ''/''"
    using assms by (auto simp: ValidateFilePathAllowed_None)
  moreover have "Clean ''/'' = ''/''" by (simp add: Clean_def IsAbs_def HasPrefix_def)
  moreover have "\<not> HasPrefix (Clean p) ''//''"
  proof (cases "path_elems p")
    case (Cons e es)
    then have "clean_elem e" using path_elems_ok [of p] by simp
    then show ?thesis using Cons
      by (cases e; cases es) (auto simp: Clean_abs [OF abs] HasPrefix_def clean_elem_def)
  qed (simp add: Clean_abs [OF abs] HasPrefix_def)
  ultimately show ?thesis by (auto simp: under_prefix_def)
qed

end
