(* ===== verification/Translate.thy ===== *)
theory Translate imports
  Slurm_Job
  Bridge_Config
begin

text \<open>
  \<open>internal/translate/translate.go\<close>: the JobSet a held Slurm job becomes. The definitions follow
  the source's functions; \<open>ToJobSet\<close> is split into the steps its body takes on the pod
  specification (base pod, shared storage, GPU, exclusive) and the metadata.
\<close>

section \<open>Names\<close>

definition ManagedByLabel :: string where
  "ManagedByLabel = ''k8s-bridge.x-k8s.io/managed-by''"

definition ManagedByValue :: string where
  "ManagedByValue = ''k8s-bridge''"

definition SlurmJobIDLabel :: string where
  "SlurmJobIDLabel = ''k8s-bridge.x-k8s.io/slurm-job-id''"

definition WorkloadMixingLabel :: string where
  "WorkloadMixingLabel = ''k8s-bridge.x-k8s.io/workloadmixing''"

definition SlurmSubmitTimeAnnotation :: string where
  "SlurmSubmitTimeAnnotation = ''k8s-bridge.x-k8s.io/slurm-submit-time''"

definition RetainUntilAnnotation :: string where
  "RetainUntilAnnotation = ''k8s-bridge.x-k8s.io/retain-until''"

definition NodesReleasedAnnotation :: string where
  "NodesReleasedAnnotation = ''k8s-bridge.x-k8s.io/nodes-released''"

definition queueNameLabel :: string where
  "queueNameLabel = ''kueue.x-k8s.io/queue-name''"

definition priorityClassLabel :: string where
  "priorityClassLabel = ''kueue.x-k8s.io/priority-class''"

definition workersReplicatedJobName :: string where
  "workersReplicatedJobName = ''workers''"

lemmas label_names = ManagedByLabel_def SlurmJobIDLabel_def WorkloadMixingLabel_def
  SlurmSubmitTimeAnnotation_def RetainUntilAnnotation_def NodesReleasedAnnotation_def
  queueNameLabel_def priorityClassLabel_def

text \<open>\<open>%d\<close> of an unsigned 64-bit number.\<close>

definition dec_u64 :: "u64 \<Rightarrow> string" where
  "dec_u64 n = dec (unat n)"

definition JobSetName :: "u64 \<Rightarrow> string" where
  "JobSetName i = ''slurm-job-'' @ dec_u64 i"

definition NodeFeature :: "u64 \<Rightarrow> string" where
  "NodeFeature i = ''nodes-for-'' @ dec_u64 i"

definition NodeName :: "u64 \<Rightarrow> nat \<Rightarrow> string" where
  "NodeName i k = JobSetName i @ ''-'' @ workersReplicatedJobName @ ''-0-'' @ dec k"

text \<open>
  A negative count has no names here; the source's \<open>make\<close> panics on one, and every caller passes
  a pod count, which is positive (\<open>PodCount_pos\<close>), or a parallelism it has defaulted.
\<close>

definition NodeNames :: "u64 \<Rightarrow> i32 \<Rightarrow> string list" where
  "NodeNames i n = map (NodeName i) [0..<nat (sint n)]"

lemma dec_u64_inj [simp]: "dec_u64 a = dec_u64 b \<longleftrightarrow> a = b"
  by (simp add: dec_u64_def word_unat_eq_iff)

lemma ParseUint_dec_u64 [simp]: "ParseUint (dec_u64 n) 64 = Some (unat n)"
  using unsigned_less [of n, where ?'a = nat] by (simp add: dec_u64_def ParseUint_dec)

text \<open>
  The contract of a deterministic name: distinct identifiers have distinct names. What the
  reconcilers rely on: an object found by name belongs to that identifier, and names of distinct
  identifiers never collide, so a create is an upsert keyed on the identifier.
\<close>

locale deterministic_name =
  fixes name_of :: "'id \<Rightarrow> string"
  assumes name_inj: "name_of a = name_of b \<Longrightarrow> a = b"
begin

lemma name_eq_iff: "name_of a = name_of b \<longleftrightarrow> a = b"
  by (auto dest: name_inj)

lemma distinct_names: "distinct (map name_of ids) \<longleftrightarrow> distinct ids"
  by (auto simp: distinct_map inj_on_def dest: name_inj)

lemma find_by_name:
  "find (\<lambda>x. name_of (ident x) = name_of i) xs = find (\<lambda>x. ident x = i) xs"
  by (induction xs) (auto simp: name_eq_iff)

lemma upsert_by_name:
  "map_of (map (\<lambda>x. (name_of (ident x), x)) xs) (name_of i) = map_of (map (\<lambda>x. (ident x, x)) xs) i"
  by (induction xs) (auto simp: name_eq_iff)

end

interpretation jobset_name: deterministic_name JobSetName
  by unfold_locales (simp add: JobSetName_def)

interpretation node_feature: deterministic_name NodeFeature
  by unfold_locales (simp add: NodeFeature_def)

lemma NodeName_eq_iff: "NodeName a k = NodeName b l \<longleftrightarrow> a = b \<and> k = l"
proof
  assume eq: "NodeName a k = NodeName b l"
  let ?rest = "\<lambda>k. ''workers-0-'' @ dec k"
  have "dec (unat a) @ CHR ''-'' # ?rest k = dec (unat b) @ CHR ''-'' # ?rest l"
    using eq by (simp add: NodeName_def JobSetName_def workersReplicatedJobName_def dec_u64_def)
  then have "unat a = unat b \<and> ?rest k = ?rest l"
    by (rule dec_sep_inj) simp
  then show "a = b \<and> k = l" by (simp add: word_unat_eq_iff)
qed simp

interpretation node_name: deterministic_name "\<lambda>(i, k). NodeName i k"
  by unfold_locales (auto simp: NodeName_eq_iff)

section \<open>Pod shape\<close>

definition podShape :: "job \<Rightarrow> i32 \<times> i64" where
  "podShape j =
     (if nv_set (TasksPerNode j) \<and> nv_number (TasksPerNode j) > 0 \<and> 0 <s Nodes j
      then (Nodes j, TasksPerNodeOrDefault j)
      else if (\<not> nv_set (Tasks j) \<or> nv_number (Tasks j) = 0) \<and> 0 <s Nodes j
      then (Nodes j, 1)
      else (NTasks j, 1))"

definition PodCount :: "job \<Rightarrow> i32" where
  "PodCount j = fst (podShape j)"

section \<open>The parts of the JobSet\<close>

definition submitTimeAnnotation :: "job \<Rightarrow> (string \<times> string) list" where
  "submitTimeAnnotation j =
     (if \<not> nv_set (SubmitTime j) \<or> nv_infinite (SubmitTime j) \<or> nv_number (SubmitTime j) = 0 then []
      else [(SlurmSubmitTimeAnnotation, dec_u64 (nv_number (SubmitTime j)))])"

definition slurmdSecurityContext :: "config \<Rightarrow> security_context" where
  "slurmdSecurityContext c =
     (if PrivilegedOrDefault (Slurmd c)
      then \<lparr>sc_privileged = True, sc_allow_escalation = None, sc_drop = [], sc_add = []\<rparr>
      else \<lparr>sc_privileged = False, sc_allow_escalation = Some True, sc_drop = [''ALL''],
            sc_add = [''SYS_ADMIN'', ''SYS_NICE'', ''NET_ADMIN'', ''SETUID'', ''SETGID'', ''CHOWN'']\<rparr>)"

definition dec_i64 :: "i64 \<Rightarrow> string" where
  "dec_i64 n = dec_int (sint n)"

definition slurmdConf :: "job \<Rightarrow> string" where
  "slurmdConf j =
     (let perPodTasks = (if 0 <s Nodes j then TasksPerNodeOrDefault j else 1);
          gpus = GPUsPerNode j;
          conf = ''Features='' @ NodeFeature (JobID j)
                 @ '' CPUs='' @ dec_i64 (CPUs j * perPodTasks)
                 @ '' RealMemory='' @ dec_i64 (MemPerCPUMB j * CPUs j * perPodTasks);
          conf' = (if 0 <s gpus then conf @ '' Gres=gpu:'' @ dec_i64 gpus else conf)
      in [CHR 0x27] @ conf' @ [CHR 0x27])"

definition topologyAnnotations :: "job \<Rightarrow> config \<Rightarrow> (string \<times> string) list" where
  "topologyAnnotations j c =
     (if WantsSwitchLocality j \<and> RequiredLevel (Topology c) \<noteq> []
      then [(''kueue.x-k8s.io/podset-required-topology'', RequiredLevel (Topology c))]
      else if PreferredLevel (Topology c) \<noteq> []
      then [(''kueue.x-k8s.io/podset-preferred-topology'', PreferredLevel (Topology c))]
      else [])"

text \<open>The resource list, which is both the requests and the limits.\<close>

definition podResources :: "config \<Rightarrow> quantity \<Rightarrow> quantity \<Rightarrow> i64 \<Rightarrow> (string \<times> quantity) list" where
  "podResources c cpu mem gpus =
     (let rl = [(''cpu'', cpu), (''memory'', mem)] in
      if 0 <s gpus
      then AList.update (GPUResourceName (Slurmd c)) \<lparr>qty_value = gpus, qty_format = DecimalSI\<rparr> rl
      else rl)"

section \<open>ToJobSet\<close>

definition cpuQuantity :: "job \<Rightarrow> quantity" where
  "cpuQuantity j = \<lparr>qty_value = CPUs j * snd (podShape j), qty_format = DecimalSI\<rparr>"

definition memQuantity :: "job \<Rightarrow> quantity" where
  "memQuantity j = \<lparr>qty_value = (MemPerCPUMB j * CPUs j * snd (podShape j)) * 2 ^ 20, qty_format = BinarySI\<rparr>"

definition slurmdContainer :: "job \<Rightarrow> config \<Rightarrow> container" where
  "slurmdContainer j c =
     (let rl = podResources c (cpuQuantity j) (memQuantity j) (GPUsPerNode j) in
      \<lparr>c_name = ''slurmd'', c_image = Image (Slurmd c),
       c_security = slurmdSecurityContext c,
       c_command = [],
       c_args = [''-Z'', ''--conf'', slurmdConf j, ''--conf-server'', ConfServer (Slurmd c), ''-b''],
       c_probe = TcpProbe 6818 2 3,
       c_requests = rl, c_limits = rl,
       c_mounts = [\<lparr>vm_name = ''slurm-key'', vm_path = ''/etc/slurm/slurm.key'',
                    vm_subpath = ''slurm.key'', vm_readonly = True\<rparr>],
       c_env = []\<rparr>)"

definition basePod :: "job \<Rightarrow> config \<Rightarrow> pod_spec" where
  "basePod j c =
     \<lparr>p_restart = ''Never'', p_containers = [slurmdContainer j c],
      p_volumes = [(''slurm-key'', SecretVolume (AuthSecretName (Slurmd c)) 384)],
      p_tolerations = [], p_anti_affinity = []\<rparr>"

text \<open>\<open>podSpec.Containers[0]\<close> is the only container; an update of it is an update of all.\<close>

definition on_container :: "(container \<Rightarrow> container) \<Rightarrow> pod_spec \<Rightarrow> pod_spec" where
  "on_container f p = p\<lparr>p_containers := map f (p_containers p)\<rparr>"

definition withSharedStorage :: "config \<Rightarrow> pod_spec \<Rightarrow> pod_spec" where
  "withSharedStorage c p =
     (case SharedStorage (Slurmd c) of
        None \<Rightarrow> p
      | Some ss \<Rightarrow>
          (on_container (\<lambda>ct. ct\<lparr>c_mounts := c_mounts ct @
              [\<lparr>vm_name = ''shared-storage'', vm_path = MountPath ss, vm_subpath = [], vm_readonly = False\<rparr>]\<rparr>) p)
          \<lparr>p_volumes := p_volumes p @ [(''shared-storage'', NfsVolume (NFSServer ss) (NFSPath ss))]\<rparr>)"

definition gpuEnv :: "(string \<times> string) list" where
  "gpuEnv =
     [(''PATH'', ''/usr/local/nvidia/bin:/usr/local/sbin:/usr/local/bin:/usr/sbin:/usr/bin:/sbin:/bin''),
      (''LD_LIBRARY_PATH'', ''/usr/local/nvidia/lib64''),
      (''NVIDIA_VISIBLE_DEVICES'', ''all''),
      (''NVIDIA_DRIVER_CAPABILITIES'', ''compute,utility'')]"

definition withGPU :: "job \<Rightarrow> pod_spec \<Rightarrow> pod_spec" where
  "withGPU j p =
     (if 0 <s GPUsPerNode j
      then (on_container (\<lambda>ct. ct\<lparr>c_env := c_env ct @ gpuEnv\<rparr>) p)
           \<lparr>p_tolerations := p_tolerations p @
              [\<lparr>tol_key = ''nvidia.com/gpu'', tol_operator = ''Exists'', tol_effect = ''NoSchedule''\<rparr>]\<rparr>
      else p)"

definition withExclusive :: "job \<Rightarrow> pod_spec \<Rightarrow> pod_spec" where
  "withExclusive j p =
     (if IsExclusive j
      then p\<lparr>p_anti_affinity :=
             [\<lparr>at_topology_key = ''kubernetes.io/hostname'',
               at_match_labels = [(ManagedByLabel, ManagedByValue)]\<rparr>]\<rparr>
      else p)"

definition podSpec :: "job \<Rightarrow> config \<Rightarrow> pod_spec" where
  "podSpec j c = withExclusive j (withGPU j (withSharedStorage c (basePod j c)))"

definition activeDeadline :: "job \<Rightarrow> i64 option" where
  "activeDeadline j =
     (let limit = TimeLimitSeconds j in
      if 0 <s limit
      then (let b = go_quot limit 10; buffer = (if b <s 300 then 300 else b) in Some (limit + buffer))
      else None)"

definition jobSetLabels :: "job \<Rightarrow> config \<Rightarrow> string \<Rightarrow> (string \<times> string) list" where
  "jobSetLabels j c priorityClass =
     (let labels = [(ManagedByLabel, ManagedByValue), (SlurmJobIDLabel, dec_u64 (JobID j)),
                    (queueNameLabel, LocalQueueFor c (Partition j)), (priorityClassLabel, priorityClass)]
      in if WorkloadMixingName c \<noteq> []
         then AList.update WorkloadMixingLabel (WorkloadMixingName c) labels else labels)"

definition ToJobSet :: "job \<Rightarrow> config \<Rightarrow> error + jobset" where
  "ToJobSet j c =
     (case PriorityClassFor c (Partition j) of
        None \<Rightarrow> Inl (NoPriorityClass (Partition j))
      | Some priorityClass \<Rightarrow>
          Inr \<lparr>js_name = JobSetName (JobID j), js_namespace = Namespace c,
               js_labels = jobSetLabels j c priorityClass,
               js_annotations = submitTimeAnnotation j,
               js_owners = [],
               js_max_restarts = 2,
               js_replicated =
                 [\<lparr>rj_name = workersReplicatedJobName, rj_replicas = 1,
                   rj_template =
                     \<lparr>jt_parallelism = Some (fst (podShape j)), jt_completions = Some (fst (podShape j)),
                      jt_backoff = Some 0, jt_deadline = activeDeadline j,
                      jt_pod_labels = [(SlurmJobIDLabel, dec_u64 (JobID j)), (ManagedByLabel, ManagedByValue)],
                      jt_pod_annotations = topologyAnnotations j c,
                      jt_pod = podSpec j c\<rparr>\<rparr>],
               js_conditions = []\<rparr>)"

section \<open>Lemmas on the shape\<close>

lemma podShape_tasks:
  "snd (podShape j) = (if 0 <s Nodes j then TasksPerNodeOrDefault j else 1)"
  by (auto simp: podShape_def TasksPerNodeOrDefault_def)

lemma sint_PodCount_pos: "0 < sint (PodCount j)"
  by (auto simp: PodCount_def podShape_def sless_sint sint_NTasks_pos)

lemma ToJobSet_InrE:
  assumes "ToJobSet j c = Inr js"
  obtains pc where "PriorityClassFor c (Partition j) = Some pc"
    "js_name js = JobSetName (JobID j)" "js_namespace js = Namespace c"
    "js_labels js = jobSetLabels j c pc" "js_annotations js = submitTimeAnnotation j"
    "js_conditions js = []"
    "map rj_name (js_replicated js) = [workersReplicatedJobName]"
    "map (jt_parallelism \<circ> rj_template) (js_replicated js) = [Some (PodCount j)]"
    "map (jt_deadline \<circ> rj_template) (js_replicated js) = [activeDeadline j]"
    "map (jt_pod_labels \<circ> rj_template) (js_replicated js) =
       [[(SlurmJobIDLabel, dec_u64 (JobID j)), (ManagedByLabel, ManagedByValue)]]"
    "map (jt_pod \<circ> rj_template) (js_replicated js) = [podSpec j c]"
  using assms by (auto simp: ToJobSet_def PodCount_def split: option.splits)

lemma ToJobSet_total:
  "PriorityClassFor c (Partition j) \<noteq> None \<Longrightarrow> \<exists>js. ToJobSet j c = Inr js"
  by (auto simp: ToJobSet_def)

lemma map_of_jobSetLabels:
  "map_of (jobSetLabels j c pc) k =
     (if k = ManagedByLabel then Some ManagedByValue
      else if k = SlurmJobIDLabel then Some (dec_u64 (JobID j))
      else if k = queueNameLabel then Some (LocalQueueFor c (Partition j))
      else if k = priorityClassLabel then Some pc
      else if k = WorkloadMixingLabel \<and> WorkloadMixingName c \<noteq> [] then Some (WorkloadMixingName c)
      else None)"
  by (auto simp: jobSetLabels_def Let_def label_names)

lemma podSpec_containers:
  "\<exists>ct. p_containers (podSpec j c) = [ct] \<and> c_args ct = c_args (slurmdContainer j c)
     \<and> c_requests ct = c_requests (slurmdContainer j c) \<and> c_limits ct = c_limits (slurmdContainer j c)
     \<and> c_security ct = slurmdSecurityContext c \<and> c_image ct = Image (Slurmd c)"
  by (auto simp: podSpec_def withExclusive_def withGPU_def withSharedStorage_def on_container_def
      basePod_def slurmdContainer_def Let_def split: option.splits)

section \<open>A concrete JobSet\<close>

definition example_jobset :: jobset where
  "example_jobset = projr (ToJobSet example_job example_config)"

lemma example_jobset: "ToJobSet example_job example_config = Inr example_jobset"
  by (simp add: example_jobset_def ToJobSet_def PriorityClassFor_def example_config_def example_job_simps)

lemma example_jobset_other:
  "ToJobSet (example_job\<lparr>JobID := 7\<rparr>) example_config =
     Inr (projr (ToJobSet (example_job\<lparr>JobID := 7\<rparr>) example_config))"
  by (simp add: ToJobSet_def PriorityClassFor_def example_config_def example_job_simps)

section \<open>Properties\<close>

text \<open>C24: \<open>podShape\<close> and \<open>slurmdConf\<close> compute the tasks per pod separately, yet always agree: the
  CPUs and memory the node advertises to Slurm are the pod's own requests (which are its limits),
  whatever combination of counts the job carries.\<close>

theorem slurmd_conf_matches_pod_resources:
  assumes "ToJobSet j c = Inr js" "GPUResourceName (Slurmd c) \<notin> {''cpu'', ''memory''}"
  shows "\<exists>ct cpu mem memMB.
    concat (map (p_containers \<circ> jt_pod \<circ> rj_template) (js_replicated js)) = [ct]
    \<and> c_limits ct = c_requests ct
    \<and> map_of (c_requests ct) ''cpu'' = Some cpu \<and> map_of (c_requests ct) ''memory'' = Some mem
    \<and> qty_value mem = memMB * 2 ^ 20
    \<and> map_of (c_requests ct) (GPUResourceName (Slurmd c)) =
        (if 0 <s GPUsPerNode j then Some \<lparr>qty_value = GPUsPerNode j, qty_format = DecimalSI\<rparr> else None)
    \<and> c_args ct ! 2 = [CHR 0x27] @ ''Features='' @ NodeFeature (JobID j)
        @ '' CPUs='' @ dec_i64 (qty_value cpu) @ '' RealMemory='' @ dec_i64 memMB
        @ (if 0 <s GPUsPerNode j then '' Gres=gpu:'' @ dec_i64 (GPUsPerNode j) else []) @ [CHR 0x27]"
proof -
  obtain ct where ct: "p_containers (podSpec j c) = [ct]" "c_args ct = c_args (slurmdContainer j c)"
    "c_requests ct = c_requests (slurmdContainer j c)" "c_limits ct = c_limits (slurmdContainer j c)"
    using podSpec_containers by blast
  have "concat (map (p_containers \<circ> jt_pod \<circ> rj_template) (js_replicated js)) = [ct]"
    using assms(1) ct(1) by (auto simp: ToJobSet_def split: option.splits)
  with ct assms(2) show ?thesis
    by (intro exI [of _ ct] exI [of _ "cpuQuantity j"] exI [of _ "memQuantity j"]
        exI [of _ "MemPerCPUMB j * CPUs j * snd (podShape j)"])
      (auto simp: slurmdContainer_def podResources_def slurmdConf_def Let_def cpuQuantity_def
        memQuantity_def podShape_tasks)
qed

theorem slurmd_conf_matches_pod_resources_witness:
  "\<exists>ct cpu memMB.
    concat (map (p_containers \<circ> jt_pod \<circ> rj_template) (js_replicated example_jobset)) = [ct]
    \<and> map_of (c_requests ct) ''cpu'' = Some cpu
    \<and> c_args ct ! 2 = [CHR 0x27] @ ''Features='' @ NodeFeature 42
        @ '' CPUs='' @ dec_i64 (qty_value cpu) @ '' RealMemory='' @ dec_i64 memMB
        @ (if 0 <s GPUsPerNode example_job then '' Gres=gpu:'' @ dec_i64 (GPUsPerNode example_job) else [])
        @ [CHR 0x27]"
proof -
  have "GPUResourceName (Slurmd example_config) \<notin> {''cpu'', ''memory''}" by (simp add: example_config_def)
  moreover have "JobID example_job = 42" by (simp add: example_job_simps)
  ultimately show ?thesis
    using slurmd_conf_matches_pod_resources [OF example_jobset] by metis
qed

text \<open>The identity a JobSet carries can be read back: its name and its job-id label determine
  the Slurm job, the label parses to exactly that id, it is labelled as bridge-managed, and it
  carries the owning resource's name exactly when the configuration has one.\<close>

lemma jobset_identity_roundtrip:
  assumes "ToJobSet j c = Inr js"
  shows "ParseUint (label_of js SlurmJobIDLabel) 64 = Some (unat (JobID j))
    \<and> (js_name js = JobSetName i \<longleftrightarrow> JobID j = i)
    \<and> label_of js ManagedByLabel = ManagedByValue
    \<and> map_of (js_labels js) WorkloadMixingLabel =
        (if WorkloadMixingName c = [] then None else Some (WorkloadMixingName c))"
proof -
  obtain pc where "js_name js = JobSetName (JobID j)" "js_labels js = jobSetLabels j c pc"
    by (rule ToJobSet_InrE [OF assms])
  then show ?thesis
    by (simp add: label_of_def map_of_jobSetLabels jobset_name.name_eq_iff)
      (simp add: label_names)
qed

text \<open>Node names. A job's JobSet has at least one pod, its node names are as many as its pods
  and pairwise distinct, and no two jobs share a node name, so deleting one job's node records
  never touches another job's.\<close>

lemma node_names_exact:
  assumes "ToJobSet j c = Inr js" "ToJobSet j' c' = Inr js'" "JobID j \<noteq> JobID j'"
  shows "0 < sint (PodCount j)
    \<and> map (map_option sint \<circ> jt_parallelism \<circ> rj_template) (js_replicated js)
        = [Some (int (length (NodeNames (JobID j) (PodCount j))))]
    \<and> distinct (NodeNames (JobID j) (PodCount j))
    \<and> set (NodeNames (JobID j) (PodCount j)) \<inter> set (NodeNames (JobID j') (PodCount j')) = {}"
proof -
  have "map (map_option sint \<circ> jt_parallelism \<circ> rj_template) (js_replicated js)
      = [Some (sint (PodCount j))]"
    using assms(1) by (auto simp: ToJobSet_def PodCount_def split: option.splits)
  with assms(3) show ?thesis
    using sint_PodCount_pos [of j]
    by (auto simp: NodeNames_def distinct_map inj_on_def NodeName_eq_iff)
qed

text \<open>\<open>--exclusive\<close>. The anti-affinity term of an exclusive job's pods selects the pods of
  every JobSet the bridge makes, whatever job and configuration, so no bridge pod shares its
  node; a job that is not exclusive has no such term.\<close>

lemma exclusive_repels_every_bridge_pod:
  assumes "ToJobSet j c = Inr js" "ToJobSet j' c' = Inr js'"
  shows "list_all (\<lambda>rj. p_anti_affinity (jt_pod (rj_template rj)) = [] \<longleftrightarrow> \<not> IsExclusive j) (js_replicated js)
    \<and> list_all (\<lambda>rj. list_all (\<lambda>term. at_topology_key term = ''kubernetes.io/hostname'' \<and>
        list_all (\<lambda>rj'. set (at_match_labels term) \<subseteq> set (jt_pod_labels (rj_template rj'))) (js_replicated js'))
      (p_anti_affinity (jt_pod (rj_template rj)))) (js_replicated js)"
  using assms
  by (auto simp: ToJobSet_def podSpec_def withExclusive_def withGPU_def withSharedStorage_def
      on_container_def basePod_def split: option.splits)

text \<open>GPUs requested for the whole job are spread over its nodes rounding up: the nodes
  together get at least the requested number, and one GPU less per node would not do. The bound
  excludes the wrap-around of the source's \<open>n + nodes - 1\<close>.\<close>

lemma gpus_cover_job_request:
  assumes "extractGPUCount (TresPerNode j) = None" "extractGPUCount (TresPerJob j) = Some n"
    and "0 \<le> sint n" "sint n < 2 ^ 62"
  shows "sint n \<le> sint (GPUsPerNode j) * max 1 (sint (Nodes j))
    \<and> (sint (GPUsPerNode j) - 1) * max 1 (sint (Nodes j)) < sint n"
proof -
  define nodes :: i64 where "nodes = (if (scast (Nodes j) :: i64) \<le>s 0 then 1 else scast (Nodes j))"
  have nodes: "sint nodes = max 1 (sint (Nodes j))"
    using sint_Nodes_nonneg [of j] by (auto simp: nodes_def sle_sint sint_scast_Nodes)
  have lt: "sint nodes < 2 ^ 31" using sint_Nodes_lt [of j] by (simp add: nodes)
  have ge: "1 \<le> sint nodes" by (simp add: nodes)
  have add: "sint (n + nodes) = sint n + sint nodes"
    using assms(3,4) lt ge by (intro sint_add64) simp_all
  then have sub: "sint (n + nodes - 1) = sint n + sint nodes - 1"
    using assms(3,4) lt ge sint_sub64 [of "n + nodes" 1] by simp
  then have "sint (go_quot (n + nodes - 1) nodes) = (sint n + sint nodes - 1) div sint nodes"
    using assms(3) ge by (subst sint_go_quot64) simp_all
  moreover have "GPUsPerNode j = go_quot (n + nodes - 1) nodes"
    using assms(1,2) by (simp add: GPUsPerNode_def Let_def nodes_def)
  ultimately show ?thesis
    using ceil_quot_int [of "sint nodes" "sint n"] ge by (simp add: nodes)
qed

text \<open>The resource-leak guard. A job with a wall-clock limit has a deadline that is its limit
  plus a tenth of it, and at least five minutes more, so Kubernetes never ends a JobSet before
  Slurm's own limit; a job without one has none. The bound on the limit excludes the 64-bit
  wrap-around of minutes times sixty.\<close>

lemma deadline_outlives_time_limit:
  assumes "uint (nv_number (TimeLimit j)) < 2 ^ 56"
  shows "case activeDeadline j of
      None \<Rightarrow> \<not> nv_set (TimeLimit j) \<or> nv_infinite (TimeLimit j) \<or> nv_number (TimeLimit j) = 0
    | Some d \<Rightarrow> nv_set (TimeLimit j) \<and> \<not> nv_infinite (TimeLimit j)
        \<and> sint d = 60 * uint (nv_number (TimeLimit j))
            + max 300 (60 * uint (nv_number (TimeLimit j)) div 10)"
proof (cases "nv_set (TimeLimit j) \<and> \<not> nv_infinite (TimeLimit j) \<and> nv_number (TimeLimit j) > 0")
  case True
  define m where "m = nv_number (TimeLimit j)"
  have mpos: "0 < uint m" using True by (simp add: m_def word_less_def)
  have mlt: "uint m < 2 ^ 56" using assms by (simp add: m_def)
  have sm: "sint m = uint m" using mlt by (intro sint_uint_small) simp
  have lim: "sint (m * 60) = 60 * uint m" using mlt mpos by (subst sint_mult64) (simp_all add: sm)
  have quot: "sint (go_quot (m * 60) 10) = 60 * uint m div 10"
    using mpos by (subst sint_go_quot64) (simp_all add: lim)
  define b :: i64 where "b = (if go_quot (m * 60) 10 <s 300 then 300 else go_quot (m * 60) 10)"
  have buf: "sint b = max 300 (60 * uint m div 10)"
    by (simp add: b_def sless_sint quot max_def)
  have "sint (m * 60) + sint b < 2 ^ 63" using mlt mpos by (simp add: lim buf max_def)
  then have "sint (m * 60 + b) = 60 * uint m + max 300 (60 * uint m div 10)"
    using mpos by (subst sint_add64) (simp_all add: lim buf max_def)
  moreover have "0 <s m * 60" using mpos by (simp add: sless_sint lim)
  moreover from this have "activeDeadline j = Some (m * 60 + b)"
    using True by (simp add: activeDeadline_def TimeLimitSeconds_def Let_def b_def flip: m_def)
  ultimately show ?thesis using True by (simp add: m_def)
next
  case False
  then have "TimeLimitSeconds j = 0" by (auto simp: TimeLimitSeconds_def)
  then have "activeDeadline j = None" by (simp add: activeDeadline_def sless_sint)
  with False show ?thesis by (auto simp: word_gt_0)
qed

end
