(* ===== verification/Kueue_Workload.thy ===== *)
theory Kueue_Workload imports
  K8s_Objects
begin

text \<open>
  Reading a Kueue Workload: \<open>internal/kueue/kueue.go\<close> (admitted, evicted, quota reason, owner
  lookup) and the admission status of \<open>internal/bridge/kueue.go\<close> with its class, the rune-wise
  truncation and the normalization that the rewrite throttle compares on.
\<close>

section \<open>Conditions\<close>

text \<open>The loop that returns at the first condition of a type.\<close>

fun first_status :: "string \<Rightarrow> ucondition list \<Rightarrow> bool" where
  "first_status t [] = False"
| "first_status t (NotAMap # cs) = first_status t cs"
| "first_status t (UCond ty st msg # cs) = (if ty = Some t then st = Some ''True'' else first_status t cs)"

definition IsAdmitted :: "workload option \<Rightarrow> bool" where
  "IsAdmitted wl = (case wl of None \<Rightarrow> False | Some w \<Rightarrow> first_status ''Admitted'' (wl_conditions w))"

definition IsEvicted :: "workload option \<Rightarrow> bool" where
  "IsEvicted wl = (case wl of None \<Rightarrow> False | Some w \<Rightarrow> first_status ''Evicted'' (wl_conditions w))"

fun quota_message :: "ucondition list \<Rightarrow> string" where
  "quota_message [] = []"
| "quota_message (NotAMap # cs) = quota_message cs"
| "quota_message (UCond ty st msg # cs) =
     (if ty = Some ''QuotaReserved'' \<and> st \<noteq> Some ''True'' \<and> msg \<noteq> None then the msg else quota_message cs)"

definition QuotaReason :: "workload option \<Rightarrow> string" where
  "QuotaReason wl = (case wl of None \<Rightarrow> [] | Some w \<Rightarrow> quota_message (wl_conditions w))"

definition owned_by :: "string \<Rightarrow> workload \<Rightarrow> bool" where
  "owned_by owner w \<longleftrightarrow> list_ex (\<lambda>(k, n). k = ''JobSet'' \<and> n = owner) (wl_owners w)"

text \<open>The first listed Workload with such an owner reference; the argument is the listing.\<close>

definition WorkloadForOwner :: "workload list \<Rightarrow> string \<Rightarrow> workload option" where
  "WorkloadForOwner ws owner = find (owned_by owner) ws"

section \<open>Admission status\<close>

datatype statusClass = ClassCreating | ClassWaitingQuota | ClassQueued | ClassAdmitted

fun class_index :: "statusClass \<Rightarrow> nat" where
  "class_index ClassCreating = 0"
| "class_index ClassWaitingQuota = 1"
| "class_index ClassQueued = 2"
| "class_index ClassAdmitted = 3"

text \<open>The source's constants are numbered by \<open>iota\<close>, which orders the classes.\<close>

instantiation statusClass :: linorder
begin

definition less_eq_statusClass :: "statusClass \<Rightarrow> statusClass \<Rightarrow> bool" where
  "less_eq_statusClass a b \<longleftrightarrow> class_index a \<le> class_index b"

definition less_statusClass :: "statusClass \<Rightarrow> statusClass \<Rightarrow> bool" where
  "less_statusClass a b \<longleftrightarrow> class_index a < class_index b"

instance
proof
  fix a b :: statusClass
  show "a \<le> b \<Longrightarrow> b \<le> a \<Longrightarrow> a = b"
    by (cases a; cases b) (simp_all add: less_eq_statusClass_def)
qed (auto simp: less_eq_statusClass_def less_statusClass_def)

end

definition truncateRunes :: "string \<Rightarrow> nat \<Rightarrow> string" where
  "truncateRunes s n = (let r = runes s in if length r \<le> n then s else encode (take n r))"

definition quotaReasonMaxLen :: nat where
  "quotaReasonMaxLen = 96"

text \<open>The loop of \<open>admissionStatus\<close>: unlike \<open>IsAdmitted\<close> the last condition of a type wins.\<close>

fun scan_conditions :: "ucondition list \<Rightarrow> bool \<Rightarrow> string \<Rightarrow> bool \<times> string" where
  "scan_conditions [] admitted reason = (admitted, reason)"
| "scan_conditions (NotAMap # cs) admitted reason = scan_conditions cs admitted reason"
| "scan_conditions (UCond ty st msg # cs) admitted reason =
     (if ty = Some ''Admitted'' then scan_conditions cs (st = Some ''True'') reason
      else if ty = Some ''QuotaReserved'' then
        scan_conditions cs admitted (if st \<noteq> Some ''True'' \<and> msg \<noteq> None then the msg else reason)
      else scan_conditions cs admitted reason)"

definition admissionStatus :: "workload option \<Rightarrow> string \<times> statusClass" where
  "admissionStatus wl =
     (case wl of
        None \<Rightarrow> (''wm: creating capacity request'', ClassCreating)
      | Some w \<Rightarrow>
          (case scan_conditions (wl_conditions w) False [] of
             (admitted, reason) \<Rightarrow>
               if admitted then (''wm: capacity admitted, provisioning nodes'', ClassAdmitted)
               else if reason \<noteq> []
               then (''wm: waiting for quota: '' @ truncateRunes reason quotaReasonMaxLen, ClassWaitingQuota)
               else (''wm: queued for admission'', ClassQueued)))"

text \<open>\<open>[0-9]+\<close> replaced by a hash sign: the flag says that the run before has been replaced.\<close>

fun strip_digits :: "bool \<Rightarrow> string \<Rightarrow> string" where
  "strip_digits inrun [] = []"
| "strip_digits inrun (c # cs) =
     (if is_digit c then (if inrun then strip_digits True cs else CHR ''#'' # strip_digits True cs)
      else c # strip_digits False cs)"

definition normalizeStatusForComparison :: "string \<Rightarrow> string" where
  "normalizeStatusForComparison s = strip_digits False s"

section \<open>Lemmas\<close>

definition condition_types :: "ucondition list \<Rightarrow> string list" where
  "condition_types cs = List.map_filter (\<lambda>c. case c of NotAMap \<Rightarrow> None | UCond ty _ _ \<Rightarrow> ty) cs"

lemma condition_types_simps [simp]:
  "condition_types [] = []"
  "condition_types (NotAMap # cs) = condition_types cs"
  "condition_types (UCond ty st msg # cs) =
     (case ty of None \<Rightarrow> condition_types cs | Some t \<Rightarrow> t # condition_types cs)"
  by (auto simp: condition_types_def List.map_filter_simps split: option.splits)

lemma scan_admitted_absent:
  "''Admitted'' \<notin> set (condition_types cs) \<Longrightarrow> fst (scan_conditions cs a r) = a"
  by (induction cs a r rule: scan_conditions.induct) (auto split: option.splits)

lemma scan_admitted:
  "distinct (condition_types cs) \<Longrightarrow> fst (scan_conditions cs False r) = first_status ''Admitted'' cs"
proof (induction cs arbitrary: r)
  case (Cons c cs)
  show ?case
  proof (cases c)
    case (UCond ty st msg)
    then show ?thesis using Cons by (auto simp: scan_admitted_absent split: option.splits)
  qed (use Cons in simp)
qed simp

lemma is_digit_hash [simp]: "\<not> is_digit CHR ''#''"
  by (simp add: is_digit_def)

lemma strip_digits_append_nondigit:
  "\<not> is_digit c \<Longrightarrow> strip_digits b (xs @ c # ys) = strip_digits b xs @ c # strip_digits False ys"
  by (induction b xs rule: strip_digits.induct) auto

lemma strip_digits_run:
  "list_all is_digit ds \<Longrightarrow> strip_digits True (ds @ ys) = strip_digits True ys"
  by (induction ds) auto

lemma strip_digits_run_start:
  "list_all is_digit ds \<Longrightarrow> ds \<noteq> [] \<Longrightarrow> strip_digits b (ds @ ys) = strip_digits b (CHR ''0'' # ys)"
  by (cases ds) (auto simp: strip_digits_run is_digit_def)

text \<open>A decimal run may be replaced by any other, wherever it stands.\<close>

lemma strip_digits_number:
  "strip_digits b (xs @ dec m @ ys) = strip_digits b (xs @ dec n @ ys)"
proof (induction b xs rule: strip_digits.induct)
  case (1 b)
  show ?case using strip_digits_run_start [of "dec m" b ys] strip_digits_run_start [of "dec n" b ys] by simp
next
  case (2 b c cs)
  then show ?case by simp
qed

lemma strip_digits_no_digit: "list_all (\<lambda>c. \<not> is_digit c) s \<Longrightarrow> strip_digits b s = s"
  by (induction s arbitrary: b) auto

lemma strip_digits_result: "list_all (\<lambda>c. \<not> is_digit c) (strip_digits b s)"
  by (induction b s rule: strip_digits.induct) auto

lemma runes_take_encode:
  "list_all wf_rune rs \<Longrightarrow> runes (encode (take n rs)) = take n rs"
  by (rule runes_encode) (auto simp: list_all_iff dest: in_set_takeD)

section \<open>Properties\<close>

text \<open>The gate and the message agree. On a Workload with at most one condition per type (the
  API's contract for a condition list) the status class is \<open>admitted\<close> exactly when \<open>IsAdmitted\<close>
  opens the release gate, and \<open>creating\<close> exactly when there is no Workload yet.\<close>

lemma status_class_agrees_with_gate:
  assumes "case wl of None \<Rightarrow> True | Some w \<Rightarrow> distinct (condition_types (wl_conditions w))"
  shows "(snd (admissionStatus wl) = ClassAdmitted \<longleftrightarrow> IsAdmitted wl)
    \<and> (snd (admissionStatus wl) = ClassCreating \<longleftrightarrow> wl = None)"
proof (cases wl)
  case (Some w)
  with assms have "fst (scan_conditions (wl_conditions w) False []) = first_status ''Admitted'' (wl_conditions w)"
    by (simp add: scan_admitted)
  then show ?thesis
    by (auto simp: Some admissionStatus_def IsAdmitted_def split: prod.splits)
qed (simp add: admissionStatus_def IsAdmitted_def)

definition example_workload :: workload where
  "example_workload = \<lparr>wl_name = ''wl-42'', wl_owners = [(''JobSet'', ''slurm-job-42'')],
     wl_conditions = [UCond (Some ''QuotaReserved'') (Some ''True'') (Some ''ok''),
                      UCond (Some ''Admitted'') (Some ''True'') None],
     wl_priority = Some 5\<rparr>"

text \<open>The throttle compares on the stable part of a message: replacing one number by another
  anywhere in a status does not change its normal form, the normal form has no digits, and
  normalizing twice is normalizing once.\<close>

lemma normal_form_ignores_numbers:
  "normalizeStatusForComparison (xs @ dec m @ ys) = normalizeStatusForComparison (xs @ dec n @ ys)
   \<and> list_all (\<lambda>c. \<not> is_digit c) (normalizeStatusForComparison s)
   \<and> normalizeStatusForComparison (normalizeStatusForComparison s) = normalizeStatusForComparison s"
proof (intro conjI)
  show "normalizeStatusForComparison (xs @ dec m @ ys) = normalizeStatusForComparison (xs @ dec n @ ys)"
    unfolding normalizeStatusForComparison_def by (rule strip_digits_number)
  show "list_all (\<lambda>c. \<not> is_digit c) (normalizeStatusForComparison s)"
    unfolding normalizeStatusForComparison_def by (rule strip_digits_result)
  then show "normalizeStatusForComparison (normalizeStatusForComparison s) = normalizeStatusForComparison s"
    by (simp add: normalizeStatusForComparison_def strip_digits_no_digit)
qed

text \<open>A status never splits a character: truncation keeps at most the given number of runes,
  keeps whole runes only (the result is valid UTF-8 whenever anything is cut off), and returns a
  short enough message unchanged.\<close>

lemma truncateRunes_whole_runes:
  "length (runes (truncateRunes s n)) \<le> n
   \<and> (if length (runes s) \<le> n then truncateRunes s n = s
      else valid_utf8 (truncateRunes s n) \<and> length (runes (truncateRunes s n)) = n)"
proof -
  define ws where "ws = map (\<lambda>r. Rune (encode_rune r)) (runes s)"
  have "wf_rune (Rune (encode_rune r))" if "r \<in> set (runes s)" for r
    using that wf_runes [of r s] by - (cases r, auto simp: wf_rune_replacement)
  then have wf: "list_all wf_rune ws" by (simp add: ws_def list_all_iff)
  have enc: "encode (take n (runes s)) = encode (take n ws)"
    by (simp add: encode_def ws_def take_map comp_def)
  have "runes (encode (take n (runes s))) = take n ws"
    unfolding enc by (rule runes_take_encode [OF wf])
  moreover have "length ws = length (runes s)" by (simp add: ws_def)
  moreover have "list_all (\<lambda>r. case r of Rune _ \<Rightarrow> True | BadByte _ \<Rightarrow> False) (take n ws)"
    by (auto simp: ws_def list_all_iff dest!: in_set_takeD)
  ultimately show ?thesis by (auto simp: truncateRunes_def Let_def valid_utf8_def)
qed

end
