(* ===== verification/Go_Time.thy ===== *)
theory Go_Time imports
  Go_Strings
begin

text \<open>
  The part of Go's \<open>time\<close> package the bridge's retention stamp uses: RFC 3339 in UTC. An instant is
  nanoseconds since the epoch. \<open>format_rfc3339\<close> is \<open>t.UTC().Format(time.RFC3339)\<close> for an instant
  not before the epoch; \<open>parse_rfc3339\<close> is the fast path \<open>parseRFC3339\<close> of \<open>time.Parse\<close>.
\<close>

section \<open>The calendar\<close>

definition is_leap :: "nat \<Rightarrow> bool" where
  "is_leap y \<longleftrightarrow> y mod 4 = 0 \<and> (y mod 100 \<noteq> 0 \<or> y mod 400 = 0)"

definition year_len :: "nat \<Rightarrow> nat" where
  "year_len y = (if is_leap y then 366 else 365)"

definition month_lens :: "nat \<Rightarrow> nat list" where
  "month_lens y = [31, if is_leap y then 29 else 28, 31, 30, 31, 30, 31, 31, 30, 31, 30, 31]"

text \<open>Days since the start of year \<open>y\<close> to year and day of the year; day of the year to month and day.\<close>

lemma year_len_pos [simp]: "0 < year_len y"
  by (simp add: year_len_def)

function split_year :: "nat \<Rightarrow> nat \<Rightarrow> nat \<times> nat" where
  "split_year y d = (if d < year_len y then (y, d) else split_year (Suc y) (d - year_len y))"
  by pat_completeness auto
termination
proof (relation "measure snd")
  fix y d assume "\<not> d < year_len y"
  moreover have "0 < year_len y" by simp
  ultimately have "d - year_len y < d" by arith
  then show "((Suc y, d - year_len y), y, d) \<in> measure snd" by simp
qed simp

declare split_year.simps [simp del]

fun split_month :: "nat list \<Rightarrow> nat \<Rightarrow> nat \<Rightarrow> nat \<times> nat" where
  "split_month [] m d = (m, d)"
| "split_month (l # ls) m d = (if d < l then (m, d) else split_month ls (Suc m) (d - l))"

text \<open>The days between the start of 1970 and the start of a year (negative before).\<close>

definition days_to_year :: "nat \<Rightarrow> int" where
  "days_to_year y =
     (if 1970 \<le> y then int (\<Sum>k\<leftarrow>[1970..<y]. year_len k) else - int (\<Sum>k\<leftarrow>[y..<1970]. year_len k))"

definition days_of_date :: "nat \<Rightarrow> nat \<Rightarrow> nat \<Rightarrow> int" where
  "days_of_date y m d = days_to_year y + int (sum_list (take (m - 1) (month_lens y))) + int d - 1"

lemma split_year_sum:
  "split_year y d = (y', d') \<Longrightarrow>
     y \<le> y' \<and> d = (\<Sum>k\<leftarrow>[y..<y']. year_len k) + d' \<and> d' < year_len y'"
proof (induction y d rule: split_year.induct)
  case (1 y d)
  show ?case
  proof (cases "d < year_len y")
    case True
    then show ?thesis using 1(2) by (simp add: split_year.simps [of y d])
  next
    case False
    then have eq: "split_year (Suc y) (d - year_len y) = (y', d')"
      using 1(2) by (simp add: split_year.simps [of y d])
    have IH: "Suc y \<le> y' \<and> d - year_len y = (\<Sum>k\<leftarrow>[Suc y..<y']. year_len k) + d' \<and> d' < year_len y'"
      by (rule 1(1) [OF False eq])
    then have "[y..<y'] = y # [Suc y..<y']" by (simp add: upt_conv_Cons)
    moreover have "d = year_len y + (d - year_len y)" using False by simp
    ultimately show ?thesis using IH by simp
  qed
qed

lemma split_month_sum:
  "split_month ls m d = (m', d') \<Longrightarrow> d < sum_list ls \<Longrightarrow>
     m \<le> m' \<and> m' - m < length ls \<and> d = sum_list (take (m' - m) ls) + d' \<and> d' < ls ! (m' - m)"
proof (induction ls arbitrary: m d)
  case (Cons l ls)
  show ?case
  proof (cases "d < l")
    case False
    then have "split_month ls (Suc m) (d - l) = (m', d')" "d - l < sum_list ls"
      using Cons.prems by auto
    from Cons.IH [OF this]
    have IH: "Suc m \<le> m'" "m' - Suc m < length ls" "d - l = sum_list (take (m' - Suc m) ls) + d'"
      "d' < ls ! (m' - Suc m)" by auto
    have "m' - m = Suc (m' - Suc m)" using IH(1) by simp
    moreover have "d = l + (d - l)" using False by simp
    ultimately show ?thesis using IH by simp
  qed (use Cons.prems in auto)
qed simp

lemma sum_month_lens: "sum_list (month_lens y) = year_len y"
  by (simp add: month_lens_def year_len_def)

section \<open>Formatting\<close>

text \<open>A number of fixed width, as \<open>appendInt(b, x, width)\<close> writes it when it fits.\<close>

fun pad :: "nat \<Rightarrow> nat \<Rightarrow> string" where
  "pad 0 n = []"
| "pad (Suc k) n = pad k (n div 10) @ [digit (n mod 10)]"

definition format_rfc3339 :: "int \<Rightarrow> string" where
  "format_rfc3339 t =
     (let secs = nat (t div second);
          (y, yd) = split_year 1970 (secs div 86400);
          (m, d) = split_month (month_lens y) 1 yd;
          s = secs mod 86400
      in pad 4 y @ ''-'' @ pad 2 m @ ''-'' @ pad 2 (Suc d) @ ''T'' @ pad 2 (s div 3600) @ '':''
         @ pad 2 (s div 60 mod 60) @ '':'' @ pad 2 (s mod 60) @ ''Z'')"

section \<open>Parsing\<close>

text \<open>\<open>parseUint\<close> of the fast path: digits only, within the bounds.\<close>

definition parse_num :: "string \<Rightarrow> nat \<Rightarrow> nat \<Rightarrow> nat option" where
  "parse_num s lo hi =
     (if list_all is_digit s \<and> lo \<le> digits_val 0 s \<and> digits_val 0 s \<le> hi
      then Some (digits_val 0 s) else None)"

text \<open>An optional fraction: at least one digit behind the dot, nine of them count.\<close>

definition parse_fraction :: "string \<Rightarrow> nat \<times> string" where
  "parse_fraction s =
     (if 2 \<le> length s \<and> s ! 0 = CHR ''.'' \<and> is_digit (s ! 1)
      then (let ds = takeWhile is_digit (tl s); k = take 9 ds
            in (digits_val 0 k * 10 ^ (9 - length k), drop (length ds) (tl s)))
      else (0, s))"

definition parse_zone :: "string \<Rightarrow> int option" where
  "parse_zone s =
     (if s = ''Z'' then Some 0
      else if length s \<noteq> 6 \<or> \<not> (s ! 0 = CHR ''-'' \<or> s ! 0 = CHR ''+'') \<or> s ! 3 \<noteq> CHR '':'' then None
      else (case (parse_num (take 2 (drop 1 s)) 0 23, parse_num (take 2 (drop 4 s)) 0 59) of
              (Some h, Some mi) \<Rightarrow>
                Some ((if s ! 0 = CHR ''-'' then - 1 else 1) * int ((h * 60 + mi) * 60))
            | _ \<Rightarrow> None))"

definition parse_rfc3339 :: "string \<Rightarrow> int option" where
  "parse_rfc3339 s =
     (if length s < 19 \<or> s ! 4 \<noteq> CHR ''-'' \<or> s ! 7 \<noteq> CHR ''-'' \<or> s ! 10 \<noteq> CHR ''T''
         \<or> s ! 13 \<noteq> CHR '':'' \<or> s ! 16 \<noteq> CHR '':''
      then None
      else
        case parse_num (take 4 s) 0 9999 of None \<Rightarrow> None | Some y \<Rightarrow>
        case parse_num (take 2 (drop 5 s)) 1 12 of None \<Rightarrow> None | Some m \<Rightarrow>
        case parse_num (take 2 (drop 8 s)) 1 (month_lens y ! (m - 1)) of None \<Rightarrow> None | Some d \<Rightarrow>
        case parse_num (take 2 (drop 11 s)) 0 23 of None \<Rightarrow> None | Some h \<Rightarrow>
        case parse_num (take 2 (drop 14 s)) 0 59 of None \<Rightarrow> None | Some mi \<Rightarrow>
        case parse_num (take 2 (drop 17 s)) 0 59 of None \<Rightarrow> None | Some se \<Rightarrow>
        (case parse_fraction (drop 19 s) of (nanos, rest) \<Rightarrow>
        (case parse_zone rest of None \<Rightarrow> None | Some off \<Rightarrow>
           Some ((days_of_date y m d * 86400 + int (h * 3600 + mi * 60 + se) - off) * second + int nanos))))"

section \<open>Round trip\<close>

lemma length_pad [simp]: "length (pad k n) = k"
  by (induction k arbitrary: n) auto

lemma pad_digits [simp]: "list_all is_digit (pad k n)"
  by (induction k arbitrary: n) auto

lemma digits_val_pad: "digits_val 0 (pad k n) = n mod 10 ^ k"
proof (induction k arbitrary: n)
  case (Suc k)
  have "n mod 10 ^ Suc k = 10 * (n div 10 mod 10 ^ k) + n mod 10"
    by (simp add: mod_mult2_eq)
  then show ?case by (simp add: digits_val_append Suc)
qed simp

lemma parse_num_pad: "n < 10 ^ k \<Longrightarrow> parse_num (pad k n) lo hi = (if lo \<le> n \<and> n \<le> hi then Some n else None)"
  by (simp add: parse_num_def digits_val_pad)

lemma month_lens_le: "i < 12 \<Longrightarrow> month_lens y ! i \<le> 31"
  by (simp add: month_lens_def nth_Cons' numeral_eq_Suc)

text \<open>The last instant whose year has four digits.\<close>

definition four_digit_year :: "int \<Rightarrow> bool" where
  "four_digit_year t \<longleftrightarrow> fst (split_year 1970 (nat (t div second) div 86400)) \<le> 9999"

lemma parse_format_rfc3339:
  assumes "0 \<le> t" "four_digit_year t"
  shows "parse_rfc3339 (format_rfc3339 t) = Some (t div second * second)"
proof -
  define secs where "secs = nat (t div second)"
  obtain y yd where yd: "split_year 1970 (secs div 86400) = (y, yd)" by (rule prod.exhaust)
  obtain m d where md: "split_month (month_lens y) 1 yd = (m, d)" by (rule prod.exhaust)
  define s where "s = secs mod 86400"
  have y: "1970 \<le> y" "secs div 86400 = (\<Sum>k\<leftarrow>[1970..<y]. year_len k) + yd" "yd < year_len y"
    using split_year_sum [OF yd] by auto
  have y9: "y \<le> 9999" using assms(2) by (simp add: four_digit_year_def yd flip: secs_def)
  have len: "length (month_lens y) = 12" by (simp add: month_lens_def)
  have m: "1 \<le> m" "m - 1 < 12" "yd = sum_list (take (m - 1) (month_lens y)) + d" "d < month_lens y ! (m - 1)"
    using split_month_sum [OF md] y(3) unfolding sum_month_lens len by auto
  have d: "Suc d \<le> 31" using m month_lens_le [of "m - 1" y] by simp
  let ?f = "pad 4 y @ ''-'' @ pad 2 m @ ''-'' @ pad 2 (Suc d) @ ''T'' @ pad 2 (s div 3600) @ '':''
         @ pad 2 (s div 60 mod 60) @ '':'' @ pad 2 (s mod 60) @ ''Z''"
  have f: "format_rfc3339 t = ?f"
    using md by (simp add: format_rfc3339_def Let_def yd flip: secs_def s_def)
  have "s < 86400" by (simp add: s_def)
  then have s: "s div 3600 \<le> 23" "s div 60 mod 60 \<le> 59" "s mod 60 \<le> 59" "m \<le> 12"
    using m(2) pos_mod_bound [of 60] by (simp_all add: less_Suc_eq_le [symmetric] div_less_iff_less_mult)
  have parse: "parse_rfc3339 ?f =
      Some ((days_of_date y m (Suc d) * 86400 + int (s div 3600 * 3600 + s div 60 mod 60 * 60 + s mod 60)) * second)"
    using y9 m d s
    by (simp add: parse_rfc3339_def nth_append parse_num_pad parse_fraction_def parse_zone_def)
  have horner: "a * 3600 + b * 60 + c = (a * 60 + b) * 60 + (c :: nat)" for a b c by simp
  have "s div 3600 * 60 + s div 60 mod 60 = s div 60"
    using div_mult_mod_eq [of "s div 60" 60] by (simp add: div_mult2_eq [symmetric])
  then have "s div 3600 * 3600 + s div 60 mod 60 * 60 + s mod 60 = s"
    unfolding horner by simp
  moreover have "days_of_date y m (Suc d) = int (secs div 86400)"
    using y m by (simp add: days_of_date_def days_to_year_def)
  moreover have "int (secs div 86400) * 86400 + int s = int secs"
  proof -
    have "int (secs div 86400 * 86400 + s) = int secs" by (simp only: s_def div_mult_mod_eq)
    then show ?thesis by (simp only: of_nat_add of_nat_mult of_nat_numeral)
  qed
  moreover have "int secs = t div second"
    using assms(1) by (simp add: secs_def second_def pos_imp_zdiv_nonneg_iff)
  ultimately show ?thesis using parse by (simp add: f)
qed

end
