(* ===== verification/Bridge_State.thy ===== *)
theory Bridge_State imports
  Translate
  Kueue_Workload
  Go_Time
begin

text \<open>
  The state of a bridge (\<open>Bridge\<close> of \<open>internal/bridge/reconciler.go\<close>) and the world it acts on.
  Every call to the API server or to slurmrestd goes through \<open>perform\<close> (or one of the typed reads)
  and is recorded, newest first, with its outcome. The world is an arbitrary record of answer
  functions over that history, so a theorem about an operation holds for every behaviour of
  Kubernetes, Kueue and Slurm, failures and changes between two calls included.
\<close>

section \<open>Calls and the log\<close>

datatype call =
    ListJobs | ListJobSets | ListWorkloads
  | CreateJobSet jobset | GetJobSet string | UpdateJobSet jobset | PatchJobSet jobset | DeleteJobSet string
  | PatchPriority string i64
  | GetSlurmJob u64 | SetFeatures u64 string | Release u64 | CancelSlurm u64 | DeleteSlurmNode string
  | SetComment u64 string | SetAdminComment u64 string | SetPriority u64 "32 word"
  | Emit string string string

text \<open>\<open>None\<close> is success. \<open>Emit\<close> is an event on the named JobSet: type and reason.\<close>

type_synonym entry = "call \<times> error option"

type_synonym history = "entry list"

record env =
  ask :: "history \<Rightarrow> call \<Rightarrow> error option"
  ask_job :: "history \<Rightarrow> u64 \<Rightarrow> error + job option"
  ask_jobset :: "history \<Rightarrow> string \<Rightarrow> error + jobset"
  ask_jobsets :: "history \<Rightarrow> error + jobset list"
  ask_workloads :: "history \<Rightarrow> error + workload list"
  ask_jobs :: "history \<Rightarrow> job list \<times> error option"
  clock :: "history \<Rightarrow> int"
  live_cfg :: "history \<Rightarrow> config"
  recorder :: bool

section \<open>The bridge\<close>

record bridge =
  commentState :: "u64 \<rightharpoonup> statusClass \<times> int"
  seenAt :: "u64 \<rightharpoonup> int"
  orphanSeen :: "u64 \<rightharpoonup> int"
  counters :: "string \<Rightarrow> nat"
  trace :: history

definition New :: bridge where
  "New = \<lparr>commentState = Map.empty, seenAt = Map.empty, orphanSeen = Map.empty,
     counters = (\<lambda>_. 0), trace = []\<rparr>"

definition record_call :: "call \<Rightarrow> error option \<Rightarrow> bridge \<Rightarrow> bridge" where
  "record_call c r st = st\<lparr>trace := (c, r) # trace st\<rparr>"

definition perform :: "env \<Rightarrow> call \<Rightarrow> bridge \<Rightarrow> bridge \<times> error option" where
  "perform e c st = (let r = ask e (trace st) c in (record_call c r st, r))"

text \<open>Prometheus counters, by the Go name of the metric.\<close>

definition inc :: "string \<Rightarrow> bridge \<Rightarrow> bridge" where
  "inc m st = st\<lparr>counters := (counters st)(m := counters st m + 1)\<rparr>"

definition eventf :: "env \<Rightarrow> string \<Rightarrow> string \<Rightarrow> string \<Rightarrow> bridge \<Rightarrow> bridge" where
  "eventf e obj eventType reason st =
     (if recorder e then record_call (Emit obj eventType reason) None st else st)"

definition get_jobset :: "env \<Rightarrow> string \<Rightarrow> bridge \<Rightarrow> bridge \<times> (error + jobset)" where
  "get_jobset e n st =
     (let r = ask_jobset e (trace st) n
      in (record_call (GetJobSet n) (case r of Inl err \<Rightarrow> Some err | Inr _ \<Rightarrow> None) st, r))"

definition get_job :: "env \<Rightarrow> u64 \<Rightarrow> bridge \<Rightarrow> bridge \<times> (error + job option)" where
  "get_job e i st =
     (let r = ask_job e (trace st) i
      in (record_call (GetSlurmJob i) (case r of Inl err \<Rightarrow> Some err | Inr _ \<Rightarrow> None) st, r))"

section \<open>What an operation adds to the log\<close>

text \<open>
  \<open>adds P st st'\<close>: the log of \<open>st'\<close> extends that of \<open>st\<close>, and every new entry satisfies \<open>P\<close>. It is
  reflexive and transitive, so a sequence of operations is checked one at a time.
\<close>

definition adds :: "(entry \<Rightarrow> bool) \<Rightarrow> bridge \<Rightarrow> bridge \<Rightarrow> bool" where
  "adds P st st' \<longleftrightarrow> (\<exists>new. trace st' = new @ trace st \<and> list_all P new)"

lemma adds_refl [simp, intro]: "trace st' = trace st \<Longrightarrow> adds P st st'"
  by (simp add: adds_def)

lemma adds_trans [trans]: "adds P st st' \<Longrightarrow> adds P st' st'' \<Longrightarrow> adds P st st''"
  by (auto simp: adds_def)

lemma adds_mono: "adds P st st' \<Longrightarrow> (\<And>x. P x \<Longrightarrow> Q x) \<Longrightarrow> adds Q st st'"
  by (auto simp: adds_def list_all_iff)

lemma adds_step: "P x \<Longrightarrow> trace st' = x # trace st \<Longrightarrow> adds P st st'"
  by (auto simp: adds_def intro: exI [of _ "[x]"])

lemma adds_in:
  "adds P st st' \<Longrightarrow> x \<in> set (trace st') \<Longrightarrow> x \<in> set (trace st) \<or> P x"
  by (auto simp: adds_def list_all_iff)

lemma record_call_simps [simp, trace_simps]:
  "trace (record_call c r st) = (c, r) # trace st"
  "commentState (record_call c r st) = commentState st"
  "seenAt (record_call c r st) = seenAt st"
  "orphanSeen (record_call c r st) = orphanSeen st"
  "counters (record_call c r st) = counters st"
  by (simp_all add: record_call_def)

lemma inc_simps [simp, trace_simps]:
  "trace (inc m st) = trace st" "commentState (inc m st) = commentState st"
  "seenAt (inc m st) = seenAt st" "orphanSeen (inc m st) = orphanSeen st"
  "counters (inc m st) = (counters st)(m := counters st m + 1)"
  by (simp_all add: inc_def)

lemma eventf_simps [simp, trace_simps]:
  "commentState (eventf e obj ty rs st) = commentState st"
  "seenAt (eventf e obj ty rs st) = seenAt st"
  "orphanSeen (eventf e obj ty rs st) = orphanSeen st"
  "counters (eventf e obj ty rs st) = counters st"
  by (simp_all add: eventf_def)

lemma performE:
  assumes "perform e c st = (st', r)"
  obtains "r = ask e (trace st) c" "st' = record_call c r st"
  using assms by (auto simp: perform_def Let_def)

lemma get_jobsetE:
  assumes "get_jobset e n st = (st', r)"
  obtains "r = ask_jobset e (trace st) n"
    "st' = record_call (GetJobSet n) (case r of Inl err \<Rightarrow> Some err | Inr _ \<Rightarrow> None) st"
  using assms by (auto simp: get_jobset_def Let_def)

lemma get_jobE:
  assumes "get_job e i st = (st', r)"
  obtains "r = ask_job e (trace st) i"
    "st' = record_call (GetSlurmJob i) (case r of Inl err \<Rightarrow> Some err | Inr _ \<Rightarrow> None) st"
  using assms by (auto simp: get_job_def Let_def)

lemma adds_record: "P (c, r) \<Longrightarrow> adds P st (record_call c r st)"
  by (rule adds_step) simp_all

lemma adds_eventf: "P (Emit obj ty rs, None) \<Longrightarrow> adds P st (eventf e obj ty rs st)"
  by (auto simp: eventf_def intro: adds_record)

lemma adds_inc [simp]: "adds P st (inc m st)"
  by (rule adds_refl) simp

text \<open>
  The same facts as rules that follow the code from the last call back to the first; a proof that
  a step adds only certain entries unfolds the step and applies them.
\<close>

lemma adds_then:
  "adds P s0 s0"
  "adds P s0 st \<Longrightarrow> P (c, r) \<Longrightarrow> adds P s0 (record_call c r st)"
  "adds P s0 st \<Longrightarrow> adds P s0 (inc m st)"
  "adds P s0 st \<Longrightarrow> P (Emit obj ty rs, None) \<Longrightarrow> adds P s0 (eventf e obj ty rs st)"
  "adds P s0 st \<Longrightarrow> adds P s0 (st\<lparr>commentState := cm\<rparr>)"
  "adds P s0 st \<Longrightarrow> adds P s0 (st\<lparr>seenAt := sm\<rparr>)"
  "adds P s0 st \<Longrightarrow> adds P s0 (st\<lparr>orphanSeen := om\<rparr>)"
  by (auto intro: adds_trans adds_record adds_eventf adds_refl)

lemma adds_call: "adds P s0 st \<Longrightarrow> adds Q st st' \<Longrightarrow> (\<And>en. Q en \<Longrightarrow> P en) \<Longrightarrow> adds P s0 st'"
  by (blast intro: adds_trans adds_mono)

text \<open>\<open>logs en st st'\<close>: the log of \<open>st'\<close> extends that of \<open>st\<close> by entries of which \<open>en\<close> is one.\<close>

definition logs :: "entry \<Rightarrow> bridge \<Rightarrow> bridge \<Rightarrow> bool" where
  "logs en st st' \<longleftrightarrow> (\<exists>new. trace st' = new @ trace st \<and> List.member new en)"

lemma logs_after: "adds P st st1 \<Longrightarrow> logs en st1 st2 \<Longrightarrow> logs en st st2"
  by (auto simp: logs_def adds_def)

lemma logs_before: "logs en st st1 \<Longrightarrow> adds P st1 st2 \<Longrightarrow> logs en st st2"
  by (fastforce simp: logs_def adds_def)

lemma logs_record: "logs (c, r) st (record_call c r st)"
  by (auto simp: logs_def intro: exI [of _ "[(c, r)]"])

text \<open>An operation that adds only entries of a kind keeps a predicate such entries cannot break.\<close>

lemma adds_preserves:
  assumes "adds P st st'" "I (trace st)" "\<And>x h. P x \<Longrightarrow> I h \<Longrightarrow> I (x # h)"
  shows "I (trace st')"
proof -
  obtain new where new: "trace st' = new @ trace st" "list_all P new"
    using assms(1) by (auto simp: adds_def)
  from new(2) have "I (new @ trace st)"
    by (induction new) (auto intro: assms(2,3))
  with new(1) show ?thesis by simp
qed

text \<open>
  The interface of the loops: an operation on one element that adds only entries allowed for that
  element. The loop then adds only entries allowed for one of its elements, whatever the order.
\<close>

locale traced_step =
  fixes step :: "'a \<Rightarrow> bridge \<Rightarrow> bridge"
    and allowed :: "'a \<Rightarrow> entry \<Rightarrow> bool"
  assumes step_adds: "adds (allowed x) st (step x st)"
begin

lemma fold_adds: "adds (\<lambda>en. \<exists>x \<in> set xs. allowed x en) st (fold step xs st)"
proof (induction xs arbitrary: st)
  case (Cons x xs)
  have "adds (\<lambda>en. \<exists>y \<in> set (x # xs). allowed y en) st (step x st)"
    by (rule adds_mono [OF step_adds]) simp
  also have "adds (\<lambda>en. \<exists>y \<in> set (x # xs). allowed y en) (step x st) (fold step xs (step x st))"
    by (rule adds_mono [OF Cons.IH]) auto
  finally show ?case by simp
qed simp

lemma fold_preserves:
  assumes "I (trace st)" "\<And>x en h. x \<in> set xs \<Longrightarrow> allowed x en \<Longrightarrow> I h \<Longrightarrow> I (en # h)"
  shows "I (trace (fold step xs st))"
  using fold_adds [of xs st] assms(1) by (rule adds_preserves) (use assms(2) in blast)

end

end
