(* ===== verification/Slurm_Client.thy ===== *)
theory Slurm_Client imports
  Slurm_Job
  K8s_Objects
begin

text \<open>
  The slurmrestd client of \<open>internal/slurm/client.go\<close>: request building, the envelope discipline
  of \<open>doHTTP\<close>, the streaming decode of \<open>GET /jobs\<close>, the operations, and the comment sanitizer.
  A response body is a JSON document (\<open>json\<close>, its strings decoded) or no JSON at all; what the
  transport does (rate limiter, token file, network) is a \<open>transport\<close> record.
\<close>

section \<open>Decoding\<close>

text \<open>
  \<open>encoding/json\<close> matches an object key to a struct field by simple case folding; of the code
  points outside ASCII two fold to ASCII letters (U+212A and U+017F).
\<close>

fun fold_rune :: "rune \<Rightarrow> string" where
  "fold_rune (Rune s) =
     (if map byte s = [226, 132, 170] then ''k''
      else if map byte s = [197, 191] then ''s''
      else map lower_byte s)"
| "fold_rune (BadByte c) = replacement"

definition fold_name :: "string \<Rightarrow> string" where
  "fold_name s = concat (map fold_rune (runes s))"

definition field_values :: "string \<Rightarrow> (string \<times> json) list \<Rightarrow> json list" where
  "field_values name kvs = map snd (filter (\<lambda>(k, _). fold_name k = name) kvs)"

text \<open>
  Decoding one field: the values of the key in order, each into what the previous one left;
  \<open>None\<close> is a type error. A JSON \<open>null\<close> leaves the field as it is.
\<close>

fun decode_values :: "('a \<Rightarrow> json \<Rightarrow> 'a option) \<Rightarrow> 'a \<Rightarrow> json list \<Rightarrow> 'a option" where
  "decode_values into old [] = Some old"
| "decode_values into old (v # vs) =
     (if v = JNull then decode_values into old vs
      else case into old v of None \<Rightarrow> None | Some new \<Rightarrow> decode_values into new vs)"

fun into_u64 :: "u64 \<Rightarrow> json \<Rightarrow> u64 option" where
  "into_u64 old (JNum s) = map_option of_nat (ParseUint s 64)"
| "into_u64 old _ = None"

fun into_string :: "string \<Rightarrow> json \<Rightarrow> string option" where
  "into_string old (JStr s) = Some s"
| "into_string old _ = None"

fun into_bool :: "bool \<Rightarrow> json \<Rightarrow> bool option" where
  "into_bool old (JBool b) = Some b"
| "into_bool old _ = None"

fun into_strings :: "string list \<Rightarrow> json \<Rightarrow> string list option" where
  "into_strings old (JArr vs) = string_array vs"
| "into_strings old _ = None"

fun into_noval :: "uint64_noval \<Rightarrow> json \<Rightarrow> uint64_noval option" where
  "into_noval old (JObj kvs) =
     (case decode_values into_bool (nv_set old) (field_values ''set'' kvs) of None \<Rightarrow> None | Some s \<Rightarrow>
      case decode_values into_bool (nv_infinite old) (field_values ''infinite'' kvs) of None \<Rightarrow> None | Some i \<Rightarrow>
      case decode_values into_u64 (nv_number old) (field_values ''number'' kvs) of None \<Rightarrow> None | Some n \<Rightarrow>
        Some \<lparr>nv_set = s, nv_infinite = i, nv_number = n\<rparr>)"
| "into_noval old _ = None"

definition into_exclusive :: "string list \<Rightarrow> json \<Rightarrow> string list option" where
  "into_exclusive old v = Some (exclusiveFlags_unmarshal old v)"

text \<open>One field after the other, with the JSON names of the source's struct tags.\<close>

definition decode_field :: "((string \<times> json) list) \<Rightarrow> string \<Rightarrow> ('a \<Rightarrow> json \<Rightarrow> 'a option) \<Rightarrow> (job \<Rightarrow> 'a) \<Rightarrow>
    (('a \<Rightarrow> 'a) \<Rightarrow> job \<Rightarrow> job) \<Rightarrow> job option \<Rightarrow> job option" where
  "decode_field kvs name into sel upd jo =
     (case jo of None \<Rightarrow> None
      | Some j \<Rightarrow> (case decode_values into (sel j) (field_values name kvs) of
           None \<Rightarrow> None | Some v \<Rightarrow> Some (upd (\<lambda>_. v) j)))"

definition decode_job_fields :: "(string \<times> json) list \<Rightarrow> job option" where
  "decode_job_fields kvs =
     (decode_field kvs ''exclusive'' into_exclusive Exclusive Exclusive_update
     (decode_field kvs ''hold'' into_bool Hold Hold_update
     (decode_field kvs ''submit_time'' into_noval SubmitTime SubmitTime_update
     (decode_field kvs ''admin_comment'' into_string AdminComment AdminComment_update
     (decode_field kvs ''comment'' into_string Comment Comment_update
     (decode_field kvs ''time_limit'' into_noval TimeLimit TimeLimit_update
     (decode_field kvs ''tasks_per_node'' into_noval TasksPerNode TasksPerNode_update
     (decode_field kvs ''node_count'' into_noval NodeCount NodeCount_update
     (decode_field kvs ''required_switches'' into_u64 RequiredSwitches RequiredSwitches_update
     (decode_field kvs ''tres_per_job'' into_string TresPerJob TresPerJob_update
     (decode_field kvs ''tres_per_node'' into_string TresPerNode TresPerNode_update
     (decode_field kvs ''memory_per_cpu'' into_noval MemoryPerCPU MemoryPerCPU_update
     (decode_field kvs ''cpus_per_task'' into_noval CPUsPerTask CPUsPerTask_update
     (decode_field kvs ''tasks'' into_noval Tasks Tasks_update
     (decode_field kvs ''priority'' into_noval Priority Priority_update
     (decode_field kvs ''state_reason'' into_string StateReason StateReason_update
     (decode_field kvs ''job_state'' into_strings JobState JobState_update
     (decode_field kvs ''partition'' into_string Partition Partition_update
     (decode_field kvs ''name'' into_string JobName JobName_update
     (decode_field kvs ''job_id'' into_u64 JobID JobID_update
     (Some job0)))))))))))))))))))))"

fun decode_job :: "json \<Rightarrow> job option" where
  "decode_job (JObj kvs) = decode_job_fields kvs"
| "decode_job JNull = Some job0"
| "decode_job _ = None"

fun decode_jobs :: "json list \<Rightarrow> job list option" where
  "decode_jobs [] = Some []"
| "decode_jobs (v # vs) =
     (case decode_job v of None \<Rightarrow> None
      | Some j \<Rightarrow> (case decode_jobs vs of None \<Rightarrow> None | Some js \<Rightarrow> Some (j # js)))"

text \<open>A slice of raw messages or of jobs: a \<open>null\<close> empties it, a later occurrence replaces it.\<close>

fun into_raw_array :: "json list \<Rightarrow> json \<Rightarrow> json list option" where
  "into_raw_array old (JArr vs) = Some vs"
| "into_raw_array old JNull = Some []"
| "into_raw_array old _ = None"

fun into_jobs :: "job list \<Rightarrow> json \<Rightarrow> job list option" where
  "into_jobs old (JArr vs) = decode_jobs vs"
| "into_jobs old JNull = Some []"
| "into_jobs old _ = None"

fun decode_slices :: "('a list \<Rightarrow> json \<Rightarrow> 'a list option) \<Rightarrow> 'a list \<Rightarrow> json list \<Rightarrow> 'a list option" where
  "decode_slices into old [] = Some old"
| "decode_slices into old (v # vs) =
     (case into old v of None \<Rightarrow> None | Some new \<Rightarrow> decode_slices into new vs)"

text \<open>\<open>json.Unmarshal\<close> into a struct with one slice field; \<open>null\<close> is accepted and changes nothing.\<close>

fun unmarshal_slice :: "string \<Rightarrow> ('a list \<Rightarrow> json \<Rightarrow> 'a list option) \<Rightarrow> json \<Rightarrow> 'a list option" where
  "unmarshal_slice name into (JObj kvs) = decode_slices into [] (field_values name kvs)"
| "unmarshal_slice name into JNull = Some []"
| "unmarshal_slice name into _ = None"

section \<open>Requests\<close>

text \<open>
  \<open>RootCAs\<close> is the text of the bundle that replaces the system's roots; \<open>limiter\<close> is the rate and the burst.
\<close>

record slurm_options =
  o_BaseURL :: string
  o_User :: string
  o_TokenFile :: string
  o_CACertFile :: string
  o_InsecureSkipVerify :: bool
  o_RequestTimeout :: int
  o_RequestsPerSecond :: rat

record client =
  baseURL :: string
  cl_user :: string
  tokenFile :: string
  limiter :: "(rat \<times> int) option"
  cl_timeout :: int
  RootCAs :: "string option"
  skipVerify :: bool

record request =
  rq_method :: string
  rq_url :: string
  rq_body :: "json option"
  rq_headers :: "(string \<times> string) list"

text \<open>A body is its bytes and, when they are JSON, the document; \<open>Unreadable\<close> is a failed read.\<close>

datatype body = Unreadable string | Body string "json option"

datatype http_result = TransportError string | HttpResponse int body

record transport =
  t_wait :: "string option"
  t_token :: "string option"
  t_url_ok :: bool
  t_send :: "request \<Rightarrow> http_result"

definition apiPrefix :: string where
  "apiPrefix = ''/slurm/v0.0.44''"

definition burstFor :: "rat \<Rightarrow> int" where
  "burstFor rps = (let b = \<lfloor>2 * rps\<rfloor> in if b < 1 then 1 else b)"

text \<open>\<open>read\<close> is \<open>os.ReadFile\<close>, \<open>has_certs\<close> the success of \<open>AppendCertsFromPEM\<close>.\<close>

definition NewClient :: "(string \<Rightarrow> error + string) \<Rightarrow> (string \<Rightarrow> bool) \<Rightarrow> slurm_options \<Rightarrow> error + client" where
  "NewClient read has_certs opts =
     (let client = (\<lambda>roots.
        \<lparr>baseURL = TrimRight_char CHR ''/'' (o_BaseURL opts), cl_user = o_User opts, tokenFile = o_TokenFile opts,
         limiter = (if o_RequestsPerSecond opts > 0 then Some (o_RequestsPerSecond opts, burstFor (o_RequestsPerSecond opts)) else None),
         cl_timeout = (if o_RequestTimeout opts = 0 then 30 * 1000000000 else o_RequestTimeout opts),
         RootCAs = roots, skipVerify = o_InsecureSkipVerify opts\<rparr>)
      in if o_CACertFile opts = [] then Inr (client None)
         else case read (o_CACertFile opts) of
             Inl err \<Rightarrow> Inl (Wrap (''reading slurm CA bundle '' @ o_CACertFile opts) err)
           | Inr pem \<Rightarrow>
               if \<not> has_certs pem then Inl (Msg (''slurm CA bundle '' @ o_CACertFile opts @ '' contains no valid certificates''))
               else Inr (client (Some pem)))"

lemma NewClient_error_iff:
  "(\<exists>err. NewClient read has_certs opts = Inl err) \<longleftrightarrow>
     o_CACertFile opts \<noteq> [] \<and> (\<forall>pem. read (o_CACertFile opts) = Inr pem \<longrightarrow> \<not> has_certs pem)"
  by (auto simp: NewClient_def Let_def split: sum.split)

lemma NewClient_verifies:
  "NewClient read has_certs opts = Inr c \<Longrightarrow> o_CACertFile opts \<noteq> [] \<Longrightarrow>
     \<exists>pem. read (o_CACertFile opts) = Inr pem \<and> has_certs pem \<and> RootCAs c = Some pem"
  by (auto simp: NewClient_def Let_def split: sum.splits if_splits)

definition newRequest :: "client \<Rightarrow> transport \<Rightarrow> string \<Rightarrow> string \<Rightarrow> json option \<Rightarrow> error + request" where
  "newRequest c t method path body =
     (case (if limiter c \<noteq> None then t_wait t else None) of
        Some e \<Rightarrow> Inl (Wrap ''waiting on slurmrestd rate limit'' (Msg e))
      | None \<Rightarrow>
      if \<not> t_url_ok t then Inl (Msg ''invalid URL'')
      else let h0 = (if body \<noteq> None then [(''Content-Type'', ''application/json'')] else []);
               user = (if cl_user c \<noteq> [] then [(''X-SLURM-USER-NAME'', cl_user c)] else [])
      in if tokenFile c \<noteq> []
         then (case t_token t of
             None \<Rightarrow> Inl (Wrap ''reading slurm token'' (Msg (tokenFile c)))
           | Some raw \<Rightarrow> Inr \<lparr>rq_method = method, rq_url = baseURL c @ path, rq_body = body,
               rq_headers = h0 @ [(''X-SLURM-USER-TOKEN'', TrimSpace raw)] @ user\<rparr>)
         else Inr \<lparr>rq_method = method, rq_url = baseURL c @ path, rq_body = body, rq_headers = h0 @ user\<rparr>)"

definition truncate_bytes :: "string \<Rightarrow> nat \<Rightarrow> string" where
  "truncate_bytes b n = (if length b \<le> n then b else take n b @ ''...'')"

text \<open>
  \<open>doHTTP\<close>: the status code for the metric (0 when no response came), and the error or the decoded
  document the caller's \<open>out\<close> is filled from. \<open>GET\<close> tolerates warnings. The envelope check and the
  reading of the response are steps of it.
\<close>

definition check_envelope :: "string \<Rightarrow> json \<Rightarrow> error + json" where
  "check_envelope method v =
     (case unmarshal_slice ''errors'' into_raw_array v of
        None \<Rightarrow> Inl (Msg ''returned non-JSON 200 body'')
      | Some errs \<Rightarrow>
     (case unmarshal_slice ''warnings'' into_raw_array v of
        None \<Rightarrow> Inl (Msg ''returned non-JSON 200 body'')
      | Some warns \<Rightarrow>
          if errs \<noteq> [] then Inl (Msg ''returned errors'')
          else if warns \<noteq> [] \<and> method \<noteq> ''GET''
          then Inl (Msg ''returned warnings (request likely ignored)'')
          else Inr v))"

fun read_response :: "string \<Rightarrow> string \<Rightarrow> int \<Rightarrow> body \<Rightarrow> error + json" where
  "read_response method path code (Unreadable e) = Inl (Wrap ''reading response body'' (Msg e))"
| "read_response method path code (Body bytes doc) =
     (if code < 200 \<or> 300 \<le> code
      then Inl (ApiError code method path (truncate_bytes bytes 8192))
      else (case doc of None \<Rightarrow> Inl (Msg ''returned non-JSON 200 body'') | Some v \<Rightarrow> check_envelope method v))"

definition doHTTP :: "client \<Rightarrow> transport \<Rightarrow> string \<Rightarrow> string \<Rightarrow> json option \<Rightarrow> int \<times> (error + json)" where
  "doHTTP c t method path body =
     (case newRequest c t method path body of
        Inl e \<Rightarrow> (0, Inl e)
      | Inr rq \<Rightarrow>
     (case t_send t rq of
        TransportError e \<Rightarrow> (0, Inl (Msg e))
      | HttpResponse code b \<Rightarrow> (code, read_response method path code b)))"

text \<open>A mutation has no \<open>out\<close>: what is left is the error, \<open>None\<close> for nil.\<close>

definition do_unit :: "client \<Rightarrow> transport \<Rightarrow> string \<Rightarrow> string \<Rightarrow> json option \<Rightarrow> error option" where
  "do_unit c t method path body =
     (case snd (doHTTP c t method path body) of Inl e \<Rightarrow> Some e | Inr _ \<Rightarrow> None)"

section \<open>Operations\<close>

definition job_path :: "u64 \<Rightarrow> string" where
  "job_path i = apiPrefix @ ''/job/'' @ dec (unat i)"

text \<open>\<open>Inr (Some j)\<close> is a job, \<open>Inr None\<close> is the source's \<open>found = false\<close>.\<close>

definition GetJob :: "client \<Rightarrow> transport \<Rightarrow> u64 \<Rightarrow> error + job option" where
  "GetJob c t i =
     (case snd (doHTTP c t ''GET'' (job_path i) None) of
        Inl e \<Rightarrow> (if api_status e = Some 404 then Inr None else Inl e)
      | Inr v \<Rightarrow>
          (case unmarshal_slice ''jobs'' into_jobs v of
             None \<Rightarrow> Inl (Msg ''decoding response'')
           | Some [] \<Rightarrow> Inr None
           | Some (j # _) \<Rightarrow> Inr (Some j)))"

definition clean_rune :: "rune \<Rightarrow> rune" where
  "clean_rune r =
     (case r of
        Rune s \<Rightarrow> (if length s = 1 \<and> (byte (hd s) < 32 \<or> byte (hd s) = 127) then Rune '' '' else r)
      | BadByte c \<Rightarrow> Rune replacement)"

definition sanitizeComment :: "string \<Rightarrow> string" where
  "sanitizeComment s = Join '' '' (Fields (encode (map clean_rune (runes s))))"

definition features_body :: "string \<Rightarrow> json" where
  "features_body f = JObj [(''constraints'', JStr f)]"

definition release_body :: json where
  "release_body = JObj [(''hold'', JBool False)]"

definition comment_body :: "string \<Rightarrow> json" where
  "comment_body s = JObj [(''comment'', JStr (sanitizeComment s))]"

definition priority_body :: "32 word \<Rightarrow> json" where
  "priority_body p = JObj [(''priority'', JObj [(''set'', JBool True), (''number'', JNum (dec (unat p)))])]"

definition SetJobFeatures :: "client \<Rightarrow> transport \<Rightarrow> u64 \<Rightarrow> string \<Rightarrow> error option" where
  "SetJobFeatures c t i f = do_unit c t ''POST'' (job_path i) (Some (features_body f))"

definition ReleaseJob :: "client \<Rightarrow> transport \<Rightarrow> u64 \<Rightarrow> error option" where
  "ReleaseJob c t i = do_unit c t ''POST'' (job_path i) (Some release_body)"

definition DeleteNode :: "client \<Rightarrow> transport \<Rightarrow> string \<Rightarrow> error option" where
  "DeleteNode c t n = do_unit c t ''DELETE'' (apiPrefix @ ''/node/'' @ n) None"

definition CancelJob :: "client \<Rightarrow> transport \<Rightarrow> u64 \<Rightarrow> error option" where
  "CancelJob c t i = do_unit c t ''DELETE'' (job_path i) None"

definition SetJobComment :: "client \<Rightarrow> transport \<Rightarrow> u64 \<Rightarrow> string \<Rightarrow> error option" where
  "SetJobComment c t i s = do_unit c t ''POST'' (job_path i) (Some (comment_body s))"

definition SetJobAdminComment :: "client \<Rightarrow> transport \<Rightarrow> u64 \<Rightarrow> string \<Rightarrow> error option" where
  "SetJobAdminComment c t i s =
     do_unit c t ''POST'' (job_path i) (Some (JObj [(''admin_comment'', JStr s)]))"

definition SetJobPriority :: "client \<Rightarrow> transport \<Rightarrow> u64 \<Rightarrow> 32 word \<Rightarrow> error option" where
  "SetJobPriority c t i p = do_unit c t ''POST'' (job_path i) (Some (priority_body p))"

section \<open>The job stream\<close>

text \<open>
  \<open>GET /jobs\<close> is decoded while it arrives: a value of the top-level object is there as a whole, or
  the stream breaks inside it; \<open>CutArray\<close> is an array of which these elements arrived. \<open>ended\<close>
  says whether the closing brace of the object arrived.
\<close>

datatype stream_value = Whole json | CutArray "json list" | Cut

datatype job_stream = NotAnObject | Fields_of "(string \<times> stream_value) list" bool

text \<open>\<open>decodeJobsArray\<close>: the callback is a state transformer that may fail; its state survives.\<close>

fun deliver :: "(job \<Rightarrow> 's \<Rightarrow> 's \<times> error option) \<Rightarrow> json list \<Rightarrow> 's \<Rightarrow> 's \<times> error option" where
  "deliver fn [] s = (s, None)"
| "deliver fn (v # vs) s =
     (case decode_job v of
        None \<Rightarrow> (s, Some (Msg ''decoding job''))
      | Some j \<Rightarrow> (case fn j s of (s', Some e) \<Rightarrow> (s', Some e) | (s', None) \<Rightarrow> deliver fn vs s'))"

definition decodeJobsArray ::
    "(job \<Rightarrow> 's \<Rightarrow> 's \<times> error option) \<Rightarrow> stream_value \<Rightarrow> 's \<Rightarrow> 's \<times> error option" where
  "decodeJobsArray fn v s =
     (case v of
        Whole (JArr vs) \<Rightarrow> deliver fn vs s
      | CutArray vs \<Rightarrow>
          (case deliver fn vs s of (s', Some e) \<Rightarrow> (s', Some e) | (s', None) \<Rightarrow> (s', Some (Msg ''unexpected EOF'')))
      | _ \<Rightarrow> (s, Some (Msg ''expected delimiter'')))"

text \<open>The walk over the top-level object: \<open>errs\<close> and \<open>saw\<close> are the loop's variables.\<close>

fun walk_fields :: "(job \<Rightarrow> 's \<Rightarrow> 's \<times> error option) \<Rightarrow> (string \<times> stream_value) list \<Rightarrow> json list \<Rightarrow> bool \<Rightarrow> 's \<Rightarrow>
    's \<times> (error + json list \<times> bool)" where
  "walk_fields fn [] errs saw s = (s, Inr (errs, saw))"
| "walk_fields fn ((k, v) # kvs) errs saw s =
     (if k = ''jobs'' then
        (case decodeJobsArray fn v s of
           (s', Some e) \<Rightarrow> (s', Inl (Wrap ''decoding response'' e))
         | (s', None) \<Rightarrow> walk_fields fn kvs errs True s')
      else case v of
        Whole doc \<Rightarrow>
          if k = ''errors'' then
            (case into_raw_array errs doc of
               None \<Rightarrow> (s, Inl (Msg ''returned non-JSON 200 body''))
             | Some es \<Rightarrow> walk_fields fn kvs es True s)
          else if k = ''warnings'' then
            (case into_raw_array [] doc of
               None \<Rightarrow> (s, Inl (Msg ''returned non-JSON 200 body''))
             | Some _ \<Rightarrow> walk_fields fn kvs errs True s)
          else walk_fields fn kvs errs saw s
      | _ \<Rightarrow> (s, Inl (Msg ''returned non-JSON 200 body'')))"

datatype list_result = ListTransportError string | ListResponse int "string option" job_stream

definition listJobsStreaming :: "client \<Rightarrow> transport \<Rightarrow> (request \<Rightarrow> list_result) \<Rightarrow>
    (job \<Rightarrow> 's \<Rightarrow> 's \<times> error option) \<Rightarrow> 's \<Rightarrow> 's \<times> error option" where
  "listJobsStreaming c t send fn s =
     (case newRequest c t ''GET'' (apiPrefix @ ''/jobs'') None of
        Inl e \<Rightarrow> (s, Some e)
      | Inr rq \<Rightarrow>
     (case send rq of
        ListTransportError e \<Rightarrow> (s, Some (Msg e))
      | ListResponse code bytes stream \<Rightarrow>
          if code < 200 \<or> 300 \<le> code
          then (s, Some (case bytes of
              None \<Rightarrow> Wrap ''reading response body'' (Msg [])
            | Some b \<Rightarrow> ApiError code ''GET'' (apiPrefix @ ''/jobs'') (truncate_bytes b 512)))
          else (case stream of
              NotAnObject \<Rightarrow> (s, Some (Msg ''returned non-JSON 200 body''))
            | Fields_of kvs ended \<Rightarrow>
               (case walk_fields fn kvs [] False s of
                  (s', Inl e) \<Rightarrow> (s', Some e)
                | (s', Inr (errs, saw)) \<Rightarrow>
                    if \<not> ended then (s', Some (Msg ''returned non-JSON 200 body''))
                    else if \<not> saw then (s', Some (Msg ''missing jobs/errors/warnings envelope''))
                    else if errs \<noteq> [] then (s', Some (Msg ''returned errors''))
                    else (s', None)))))"

section \<open>The sanitizer\<close>

definition clean_ok :: "rune \<Rightarrow> bool" where
  "clean_ok r \<longleftrightarrow> wf_rune r \<and> clean_rune r = r"

lemma length_replacement: "length replacement = 3"
  by (simp add: replacement_def)

lemma clean_ok_clean_rune: "r \<in> set (runes s) \<Longrightarrow> clean_ok (clean_rune r)"
  using wf_runes [of r s]
  by (cases r) (auto simp: clean_ok_def clean_rune_def wf_rune_ascii wf_rune_replacement byte_def
      length_replacement)

lemma clean_ok_space: "clean_ok (Rune '' '')"
  by (simp add: clean_ok_def clean_rune_def wf_rune_ascii byte_def)

lemma clean_ok_byte: "clean_ok (Rune u) \<Longrightarrow> c \<in> set u \<Longrightarrow> 32 \<le> byte c \<and> byte c \<noteq> 127"
proof (cases "length u = 1")
  case True
  assume "clean_ok (Rune u)" "c \<in> set u"
  with True show ?thesis
    by (cases u) (auto simp: clean_ok_def clean_rune_def byte_def split: if_splits)
next
  case False
  assume "clean_ok (Rune u)" "c \<in> set u"
  with False have "128 \<le> byte c" by (auto simp: clean_ok_def intro: wf_rune_bytes)
  then show ?thesis by simp
qed

definition comment_fields :: "string \<Rightarrow> rune list list" where
  "comment_fields s = fields_go [] (map clean_rune (runes s))"

lemma comment_fields_ok: "list_all (list_all clean_ok) (comment_fields s)"
  unfolding comment_fields_def
  by (rule fields_go_runes) (auto simp: list_all_iff intro: clean_ok_clean_rune)

lemma comment_fields_no_space:
  "list_all (list_all (\<lambda>r. \<not> is_space_rune r)) (comment_fields s)" "[] \<notin> set (comment_fields s)"
  unfolding comment_fields_def by (rule fields_go_no_space, simp) (auto dest: fields_go_nonempty)

lemma clean_ok_Join: "list_all (list_all clean_ok) fs \<Longrightarrow> list_all clean_ok (Join [Rune '' ''] fs)"
  using set_Join [of "[Rune '' '']" fs] clean_ok_space by (auto simp: list_all_iff)

lemma bytes_comment_fields:
  "map (\<lambda>f. concat (map rune_bytes f)) (comment_fields s) = map encode (comment_fields s)"
  using comment_fields_ok [of s] by (auto simp: list_all_iff clean_ok_def intro!: encode_wf)

lemma sanitizeComment_eq: "sanitizeComment s = encode (Join [Rune '' ''] (comment_fields s))"
proof -
  have "runes (encode (map clean_rune (runes s))) = map clean_rune (runes s)"
    by (rule runes_encode) (auto simp: list_all_iff clean_ok_def dest: clean_ok_clean_rune)
  then have "Fields (encode (map clean_rune (runes s))) = map encode (comment_fields s)"
    by (simp add: Fields_def bytes_comment_fields flip: comment_fields_def)
  then show ?thesis by (simp add: sanitizeComment_def encode_Join) (simp add: encode_def)
qed

lemma runes_sanitizeComment: "runes (sanitizeComment s) = Join [Rune '' ''] (comment_fields s)"
  unfolding sanitizeComment_eq
  using clean_ok_Join [OF comment_fields_ok [of s]]
  by (intro runes_encode) (auto simp: list_all_iff clean_ok_def)

lemma comment_fields_sanitize: "comment_fields (sanitizeComment s) = comment_fields s"
proof -
  have "map clean_rune (Join [Rune '' ''] (comment_fields s)) = Join [Rune '' ''] (comment_fields s)"
    using clean_ok_Join [OF comment_fields_ok [of s]] by (auto simp: list_all_iff clean_ok_def intro: map_idI)
  then show ?thesis
    unfolding comment_fields_def [of "sanitizeComment s"] runes_sanitizeComment
    by (simp add: fields_go_Join comment_fields_no_space is_space_space del: is_space_rune.simps)
qed

text \<open>The comment the bridge writes is safe and stable: no byte of it is a control character,
  it is valid UTF-8 whatever the input was, it is the single-space join of its own fields, and
  sanitizing it again changes nothing.\<close>

lemma sanitizeComment_safe:
  "list_all (\<lambda>c. 32 \<le> byte c \<and> byte c \<noteq> 127) (sanitizeComment s)
   \<and> valid_utf8 (sanitizeComment s)
   \<and> sanitizeComment s = Join '' '' (Fields (sanitizeComment s))
   \<and> sanitizeComment (sanitizeComment s) = sanitizeComment s"
proof -
  let ?out = "Join [Rune '' ''] (comment_fields s)"
  have ok: "list_all clean_ok ?out" by (rule clean_ok_Join [OF comment_fields_ok])
  have "32 \<le> byte c \<and> byte c \<noteq> 127" if "c \<in> set (sanitizeComment s)" for c
  proof -
    from that obtain r where r: "r \<in> set ?out" "c \<in> set (encode_rune r)"
      by (auto simp: sanitizeComment_eq encode_def)
    then have "clean_ok r" using ok by (simp add: list_all_iff)
    with r(2) show ?thesis using clean_ok_byte by (cases r) (auto simp: clean_ok_def wf_rune_def)
  qed
  moreover have "valid_utf8 (sanitizeComment s)"
    using ok by (auto simp: valid_utf8_def runes_sanitizeComment list_all_iff clean_ok_def wf_rune_def split: rune.splits)
  moreover have "sanitizeComment (sanitizeComment s) = sanitizeComment s"
    by (simp add: sanitizeComment_eq [of "sanitizeComment s"] comment_fields_sanitize) (simp add: sanitizeComment_eq)
  moreover have "Join '' '' (Fields (sanitizeComment s)) = sanitizeComment s"
  proof -
    have "fields_go [] ?out = comment_fields s"
      by (rule fields_go_Join) (simp_all only: comment_fields_no_space is_space_space not_False_eq_True)
    then have "Fields (sanitizeComment s) = map encode (comment_fields s)"
      by (simp only: Fields_def runes_sanitizeComment bytes_comment_fields)
    then show ?thesis by (simp add: sanitizeComment_eq encode_Join) (simp add: encode_def)
  qed
  ultimately show ?thesis by (simp add: list_all_iff)
qed

section \<open>The envelope\<close>

text \<open>A response that counts as an answer: a 2xx status, a JSON envelope, and no errors.\<close>

fun clean_answer :: "http_result \<Rightarrow> json \<Rightarrow> bool" where
  "clean_answer (HttpResponse code (Body bytes (Some doc))) v =
     (200 \<le> code \<and> code < 300 \<and> doc = v \<and> unmarshal_slice ''errors'' into_raw_array v = Some [])"
| "clean_answer _ v = False"

lemma clean_answer_unique: "clean_answer r v \<Longrightarrow> clean_answer r w \<Longrightarrow> w = v"
  by (induction r v rule: clean_answer.induct) auto

definition warnings_ok :: "string \<Rightarrow> json \<Rightarrow> bool" where
  "warnings_ok m v =
     (case unmarshal_slice ''warnings'' into_raw_array v of None \<Rightarrow> False | Some ws \<Rightarrow> ws = [] \<or> m = ''GET'')"

lemma warnings_ok_GET: "warnings_ok ''GET'' v \<longleftrightarrow> unmarshal_slice ''warnings'' into_raw_array v \<noteq> None"
  by (simp add: warnings_ok_def split: option.split)

lemma check_envelope_Inr:
  "check_envelope m d = Inr v \<longleftrightarrow>
     d = v \<and> unmarshal_slice ''errors'' into_raw_array v = Some [] \<and> warnings_ok m v"
  by (auto simp: check_envelope_def warnings_ok_def split: option.splits if_splits)

lemma read_response_Inr:
  "read_response m p code b = Inr v \<longleftrightarrow> clean_answer (HttpResponse code b) v \<and> warnings_ok m v"
  by (cases b; cases "code < 200 \<or> 300 \<le> code"; cases "case b of Body bytes doc \<Rightarrow> doc | _ \<Rightarrow> None")
    (auto simp: check_envelope_Inr)

lemma doHTTP_Inr:
  "snd (doHTTP c t m p b) = Inr v \<longleftrightarrow>
     (\<exists>rq. newRequest c t m p b = Inr rq \<and> clean_answer (t_send t rq) v \<and> warnings_ok m v)"
proof (cases "newRequest c t m p b")
  case (Inr rq)
  then show ?thesis
    by (cases "t_send t rq") (simp_all add: doHTTP_def read_response_Inr del: clean_answer.simps(1))
qed (simp add: doHTTP_def)

lemma check_envelope_status: "check_envelope m d = Inl e \<Longrightarrow> api_status e = None"
  by (auto simp: check_envelope_def split: option.splits if_splits)

lemma read_response_status:
  "read_response m p code b = Inl e \<Longrightarrow>
     api_status e = Some k \<longleftrightarrow> k = code \<and> (code < 200 \<or> 300 \<le> code) \<and> (\<exists>bytes doc. b = Body bytes doc)"
  by (cases b) (auto split: option.splits if_splits dest: check_envelope_status)

lemma newRequest_status: "newRequest c t m p b = Inl e \<Longrightarrow> api_status e = None"
  by (auto simp: newRequest_def Let_def split: option.splits if_splits)

lemma doHTTP_status:
  assumes "snd (doHTTP c t m p b) = Inl e"
  shows "api_status e = Some k \<longleftrightarrow>
     (\<exists>rq bytes doc. newRequest c t m p b = Inr rq \<and> t_send t rq = HttpResponse k (Body bytes doc)
        \<and> (k < 200 \<or> 300 \<le> k))"
proof (cases "newRequest c t m p b")
  case (Inl e')
  then show ?thesis using assms by (auto simp: doHTTP_def dest: newRequest_status)
next
  case (Inr rq)
  then show ?thesis using assms
    by (cases "t_send t rq") (auto simp: doHTTP_def read_response_status)
qed

text \<open>Envelope discipline of every mutation. A mutating request succeeds exactly when it was
  sent, the answer is a 2xx JSON envelope, and the envelope carries neither errors nor warnings:
  the 200 answer to an ignored request is an error.\<close>

lemma mutation_succeeds_iff:
  assumes "m \<noteq> ''GET''"
  shows "do_unit c t m p b = None \<longleftrightarrow>
    (\<exists>rq v. newRequest c t m p b = Inr rq \<and> clean_answer (t_send t rq) v
       \<and> unmarshal_slice ''warnings'' into_raw_array v = Some [])"
proof -
  have "do_unit c t m p b = None \<longleftrightarrow> (\<exists>v. snd (doHTTP c t m p b) = Inr v)"
    by (auto simp: do_unit_def split: sum.splits)
  moreover have "warnings_ok m v \<longleftrightarrow> unmarshal_slice ''warnings'' into_raw_array v = Some []" for v
    using assms by (simp add: warnings_ok_def split: option.splits)
  ultimately show ?thesis by (auto simp: doHTTP_Inr)
qed

definition echo_transport :: "http_result \<Rightarrow> transport" where
  "echo_transport r = \<lparr>t_wait = None, t_token = Some ''secret'', t_url_ok = True, t_send = \<lambda>_. r\<rparr>"

definition example_client :: client where
  "example_client = projr (NewClient (\<lambda>_. Inl NotFound) (\<lambda>_. False)
     \<lparr>o_BaseURL = ''https://slurm:6820/'', o_User = [], o_TokenFile = [], o_CACertFile = [], o_InsecureSkipVerify = False,
      o_RequestTimeout = 0, o_RequestsPerSecond = 0\<rparr>)"

lemma newRequest_example:
  "newRequest example_client (echo_transport r) m p b =
     Inr \<lparr>rq_method = m, rq_url = ''https://slurm:6820'' @ p, rq_body = b,
       rq_headers = (if b \<noteq> None then [(''Content-Type'', ''application/json'')] else [])\<rparr>"
  by (simp add: newRequest_def echo_transport_def example_client_def NewClient_def)

lemma fold_name_graphic: "graphic s \<Longrightarrow> fold_name s = map lower_byte s"
  by (simp add: fold_name_def runes_graphic comp_def)

lemma GetJob_None_iff:
  "GetJob c t i = Inr None \<longleftrightarrow>
    (\<exists>rq. newRequest c t ''GET'' (job_path i) None = Inr rq
      \<and> ((\<exists>bytes doc. t_send t rq = HttpResponse 404 (Body bytes doc))
        \<or> (\<exists>v. clean_answer (t_send t rq) v \<and> unmarshal_slice ''warnings'' into_raw_array v \<noteq> None
              \<and> unmarshal_slice ''jobs'' into_jobs v = Some [])))"
proof (cases "snd (doHTTP c t ''GET'' (job_path i) None)")
  case (Inl e)
  then have bad: "newRequest c t ''GET'' (job_path i) None = Inr rq \<Longrightarrow> clean_answer (t_send t rq) v
      \<Longrightarrow> \<not> warnings_ok ''GET'' v" for rq v
    using doHTTP_Inr [of c t "''GET''" "job_path i" None v] by auto
  have "GetJob c t i = Inr None \<longleftrightarrow> api_status e = Some 404" using Inl by (simp add: GetJob_def)
  then show ?thesis
    using doHTTP_status [OF Inl, of 404] bad unfolding warnings_ok_GET by auto
next
  case (Inr v)
  then obtain rq where rq: "newRequest c t ''GET'' (job_path i) None = Inr rq"
    and v: "clean_answer (t_send t rq) v" "warnings_ok ''GET'' v"
    by (auto simp: doHTTP_Inr)
  have "GetJob c t i = Inr None \<longleftrightarrow> unmarshal_slice ''jobs'' into_jobs v = Some []"
    using Inr by (simp add: GetJob_def split: option.splits list.splits)
  moreover have "clean_answer (t_send t rq) w \<longleftrightarrow> w = v" for w
    using v(1) by (auto dest: clean_answer_unique)
  moreover have "t_send t rq \<noteq> HttpResponse 404 (Body bytes doc)" for bytes doc
    using v(1) by (cases doc) auto
  ultimately show ?thesis using rq v(2) unfolding warnings_ok_GET by simp
qed

text \<open>A job counts as gone only on real evidence: \<open>GetJob\<close> answers not-found exactly when
  slurmrestd answered 404, or a clean envelope whose \<open>jobs\<close> decode to the empty list. A failed
  send, an unreadable or non-JSON body, another status, an error text that merely mentions
  404, all are errors.\<close>

lemma getJob_not_found_iff:
  "GetJob c t i = Inr None \<longleftrightarrow>
    (\<exists>rq. newRequest c t ''GET'' (job_path i) None = Inr rq
      \<and> ((\<exists>bytes doc. t_send t rq = HttpResponse 404 (Body bytes doc))
        \<or> (\<exists>v. clean_answer (t_send t rq) v \<and> unmarshal_slice ''warnings'' into_raw_array v \<noteq> None
              \<and> unmarshal_slice ''jobs'' into_jobs v = Some [])))"
  by (rule GetJob_None_iff)

text \<open>The two read paths disagree on a 2xx answer that is an empty object (a proxy in front of
  slurmrestd): the queue listing refuses it as no envelope at all, while \<open>GetJob\<close> takes it for
  evidence that the job is gone.\<close>

lemma empty_object_reads_as_job_gone:
  assumes "newRequest c t ''GET'' (job_path i) None = Inr rq"
    and "t_send t rq = HttpResponse 200 (Body ''{}'' (Some (JObj [])))"
  shows "GetJob c t i = Inr None
    \<and> snd (listJobsStreaming c t (\<lambda>_. ListResponse 200 None (Fields_of [] True)) fn s) \<noteq> None"
  using assms
  by (auto simp: GetJob_None_iff field_values_def listJobsStreaming_def split: sum.split)

section \<open>The stream\<close>

definition jobs_arrays :: "(string \<times> stream_value) list \<Rightarrow> json list" where
  "jobs_arrays kvs = concat (map (\<lambda>(k, v). if k = ''jobs''
     then (case v of Whole (JArr vs) \<Rightarrow> vs | _ \<Rightarrow> []) else []) kvs)"

lemma deliver_append:
  "deliver fn (xs @ ys) s = (case deliver fn xs s of (s', Some e) \<Rightarrow> (s', Some e) | (s', None) \<Rightarrow> deliver fn ys s')"
  by (induction xs arbitrary: s) (auto split: option.splits prod.splits)

lemma decodeJobsArray_None:
  "decodeJobsArray fn v s = (s', None) \<Longrightarrow> \<exists>vs. v = Whole (JArr vs) \<and> deliver fn vs s = (s', None)"
  by (auto simp: decodeJobsArray_def split: stream_value.splits json.splits prod.splits option.splits)

text \<open>What else a clean answer is made of: whole values, a field of the envelope, and no errors in it.\<close>

definition arrived :: "stream_value \<Rightarrow> bool" where
  "arrived v \<longleftrightarrow> (case v of Whole d \<Rightarrow> True | _ \<Rightarrow> False)"

definition has_envelope :: "(string \<times> stream_value) list \<Rightarrow> bool" where
  "has_envelope kvs \<longleftrightarrow> list_ex (\<lambda>kv. List.member [''jobs'', ''errors'', ''warnings''] (fst kv)) kvs"

definition errors_arrays :: "(string \<times> stream_value) list \<Rightarrow> json list" where
  "errors_arrays kvs = concat (map (\<lambda>(k, v). if k = ''errors'' then (case v of Whole d \<Rightarrow> [d] | _ \<Rightarrow> []) else []) kvs)"

definition reported_errors :: "(string \<times> stream_value) list \<Rightarrow> json list option" where
  "reported_errors kvs = decode_slices into_raw_array [] (errors_arrays kvs)"

lemma walk_fields_Inr:
  "walk_fields fn kvs errs saw s = (s', Inr (errs', saw')) \<Longrightarrow>
     deliver fn (jobs_arrays kvs) s = (s', None) \<and> list_all (arrived \<circ> snd) kvs
     \<and> (saw' \<longleftrightarrow> saw \<or> has_envelope kvs) \<and> decode_slices into_raw_array errs (errors_arrays kvs) = Some errs'"
proof (induction kvs arbitrary: errs saw s)
  case (Cons kv kvs)
  obtain k v where kv: "kv = (k, v)" by (cases kv)
  show ?case
  proof (cases "k = ''jobs''")
    case True
    from Cons.prems obtain s1 where d: "decodeJobsArray fn v s = (s1, None)"
      and w: "walk_fields fn kvs errs True s1 = (s', Inr (errs', saw'))"
      by (auto simp: kv True split: prod.splits option.splits)
    from d obtain vs where "v = Whole (JArr vs)" "deliver fn vs s = (s1, None)"
      by (blast dest: decodeJobsArray_None)
    with Cons.IH [OF w] show ?thesis
      by (simp add: jobs_arrays_def errors_arrays_def has_envelope_def arrived_def kv True deliver_append)
  next
    case False
    with Cons.prems obtain doc where doc: "v = Whole doc" by (cases v) (auto simp: kv)
    show ?thesis
    proof (cases "k = ''errors''")
      case True
      with Cons.prems obtain es where es: "into_raw_array errs doc = Some es"
        and w: "walk_fields fn kvs es True s = (s', Inr (errs', saw'))"
        by (auto simp: kv doc split: option.splits)
      from Cons.IH [OF w] es show ?thesis
        by (simp add: jobs_arrays_def errors_arrays_def has_envelope_def arrived_def kv doc True)
    next
      case other: False
      with Cons.prems False obtain saw1 where w: "walk_fields fn kvs errs saw1 s = (s', Inr (errs', saw'))"
        and saw1: "saw1 \<longleftrightarrow> saw \<or> k = ''warnings''"
        by (auto simp: kv doc split: option.splits if_splits)
      from Cons.IH [OF w] False other saw1 show ?thesis
        by (auto simp: jobs_arrays_def errors_arrays_def has_envelope_def arrived_def kv doc)
    qed
  qed
qed (simp add: jobs_arrays_def errors_arrays_def has_envelope_def)

lemma deliver_collect:
  "deliver (\<lambda>j acc. (acc @ [j], None)) vs acc = (out, None) \<longleftrightarrow>
     (\<exists>js. decode_jobs vs = Some js \<and> out = acc @ js)"
  by (induction vs arbitrary: acc) (auto split: option.splits)

text \<open>
  An answer with the whole queue: a 2xx whose object arrived to its closing brace, each value whole, with
  at least one field of the envelope, an \<open>errors\<close> array that is absent or empty, and jobs that all decode.
\<close>

definition whole_queue :: "list_result \<Rightarrow> job list \<Rightarrow> bool" where
  "whole_queue answer jobs \<longleftrightarrow>
     (\<exists>code bytes kvs. answer = ListResponse code bytes (Fields_of kvs True) \<and> 200 \<le> code \<and> code < 300
        \<and> list_all (arrived \<circ> snd) kvs \<and> has_envelope kvs \<and> reported_errors kvs = Some []
        \<and> decode_jobs (jobs_arrays kvs) = Some jobs)"

lemma listing_complete:
  assumes "listJobsStreaming c t send (\<lambda>j acc. (acc @ [j], None)) [] = (js, None)"
  shows "\<exists>rq. newRequest c t ''GET'' (apiPrefix @ ''/jobs'') None = Inr rq \<and> whole_queue (send rq) js"
proof -
  let ?fn = "\<lambda>j acc. (acc @ [j], None)"
  obtain rq where rq: "newRequest c t ''GET'' (apiPrefix @ ''/jobs'') None = Inr rq"
    using assms by (cases "newRequest c t ''GET'' (apiPrefix @ ''/jobs'') None") (simp_all add: listJobsStreaming_def)
  then obtain code bytes stream where resp: "send rq = ListResponse code bytes stream"
    using assms by (cases "send rq") (simp_all add: listJobsStreaming_def)
  have code: "200 \<le> code \<and> code < 300"
    using assms by (auto simp: listJobsStreaming_def rq resp split: if_splits)
  obtain kvs ended where kvs: "stream = Fields_of kvs ended"
    using assms code by (cases stream) (simp_all add: listJobsStreaming_def rq resp)
  obtain out r where w: "walk_fields ?fn kvs [] False [] = (out, r)" by (rule prod.exhaust)
  have "ended \<and> out = js \<and> r = Inr ([], True)"
    using assms code by (cases r) (auto simp: listJobsStreaming_def rq resp kvs w split: if_splits)
  then have walk: "walk_fields ?fn kvs [] False [] = (js, Inr ([], True))"
    and send: "send rq = ListResponse code bytes (Fields_of kvs True)"
    using w resp kvs by auto
  have "whole_queue (send rq) js"
    using send code walk_fields_Inr [OF walk] deliver_collect [of "jobs_arrays kvs" "[]" js]
    unfolding whole_queue_def reported_errors_def by auto
  with rq show ?thesis by blast
qed

text \<open>A listing that succeeds is complete. When the streamed read of the queue returns no error,
  the stream was closed, it reported no errors, and the jobs the callback saw are exactly the decoded
  elements of the response, in order: a truncated or malformed stream, or a failing slurmrestd, never
  passes for a shorter queue.\<close>

lemma listing_success_is_complete:
  assumes "listJobsStreaming c t send (\<lambda>j acc. (acc @ [j], None)) [] = (js, None)"
  shows "\<exists>rq. newRequest c t ''GET'' (apiPrefix @ ''/jobs'') None = Inr rq \<and> whole_queue (send rq) js"
  using assms by (rule listing_complete)

end
