(* ===== verification/Bridge_Status.thy ===== *)
theory Bridge_Status imports
  Bridge_State
  Slurm_Client
begin

text \<open>
  The Kueue-facing steps of \<open>internal/bridge/kueue.go\<close>: the snapshot, the status comment with its
  rewrite throttle, and the two priority channels (the directive and the three-way sync).
\<close>

section \<open>The snapshot\<close>

text \<open>
  \<open>ownedJobSets\<close> is ranged over, hence an association list (its order carries no meaning);
  \<open>workloadsByJobSet\<close> is only looked up.
\<close>

record snapshot =
  ownedJobSets :: "(string \<times> jobset) list"
  workloadsByJobSet :: "string \<rightharpoonup> workload"

text \<open>The label selector: managed by the bridge and, for a supervised bridge, created for its CR.\<close>

definition selected :: "config \<Rightarrow> jobset \<Rightarrow> bool" where
  "selected c js \<longleftrightarrow>
     map_of (js_labels js) ManagedByLabel = Some ManagedByValue
     \<and> (WorkloadMixingName c \<noteq> [] \<longrightarrow> map_of (js_labels js) WorkloadMixingLabel = Some (WorkloadMixingName c))"

definition index_jobsets :: "jobset list \<Rightarrow> (string \<times> jobset) list" where
  "index_jobsets jss = fold (\<lambda>js m. AList.update (js_name js) js m) jss []"

definition jobset_owners :: "workload \<Rightarrow> string list" where
  "jobset_owners w = map snd (filter (\<lambda>(k, n). k = ''JobSet'') (wl_owners w))"

definition index_workloads :: "workload list \<Rightarrow> string \<rightharpoonup> workload" where
  "index_workloads ws = fold (\<lambda>w m. fold (\<lambda>n m. m(n \<mapsto> w)) (jobset_owners w) m) ws Map.empty"

text \<open>The answers of the two listings are all objects the cache shows in the namespace.\<close>

definition take_snapshot :: "env \<Rightarrow> config \<Rightarrow> bridge \<Rightarrow> bridge \<times> (error + snapshot)" where
  "take_snapshot e c st =
     (case ask_jobsets e (trace st) of
        Inl err \<Rightarrow> (record_call ListJobSets (Some err) st, Inl (Wrap ''listing owned JobSets'' err))
      | Inr jss \<Rightarrow>
          let st1 = record_call ListJobSets None st in
          (case ask_workloads e (trace st1) of
             Inl err \<Rightarrow> (record_call ListWorkloads (Some err) st1, Inl (Wrap ''listing workloads'' err))
           | Inr ws \<Rightarrow>
               (record_call ListWorkloads None st1,
                Inr \<lparr>ownedJobSets = index_jobsets (filter (selected c) jss),
                     workloadsByJobSet = index_workloads ws\<rparr>)))"

section \<open>Status comments\<close>

definition commentRewriteMinInterval :: int where
  "commentRewriteMinInterval = 60 * second"

text \<open>The throttle: tracked, same class, within the interval, and only numbers moved.\<close>

definition throttled :: "bridge \<Rightarrow> job \<Rightarrow> string \<Rightarrow> statusClass \<Rightarrow> int \<Rightarrow> bool" where
  "throttled st j status cls t =
     (case commentState st (JobID j) of
        None \<Rightarrow> False
      | Some (prev, lastWrite) \<Rightarrow>
          \<not> prev \<noteq> cls \<and> t - lastWrite < commentRewriteMinInterval
          \<and> normalizeStatusForComparison (Comment j) = normalizeStatusForComparison status)"

definition propagateStatus :: "env \<Rightarrow> job \<Rightarrow> workload option \<Rightarrow> bridge \<Rightarrow> bridge" where
  "propagateStatus e j wl st =
     (case admissionStatus wl of (status, cls) \<Rightarrow>
        if Comment j = status then st
        else let t = clock e (trace st) in
          if throttled st j status cls t then st
          else (case perform e (SetComment (JobID j) status) st of
                  (st1, Some err) \<Rightarrow> st1
                | (st1, None) \<Rightarrow> st1\<lparr>commentState := (commentState st1)(JobID j \<mapsto> (cls, t))\<rparr>))"

section \<open>Priorities\<close>

definition syncedPriorityAnnotation :: string where
  "syncedPriorityAnnotation = ''k8s-bridge.x-k8s.io/synced-priority''"

text \<open>The bound reads the live configuration again, not the tick's snapshot of it.\<close>

definition capUserPriority :: "config \<Rightarrow> i64 \<Rightarrow> i64 \<times> bool" where
  "capUserPriority c v =
     (let v1 = (if v <s 0 then 0 else v);
          m = MaxUserPriority c;
          v2 = (if 0 <s m \<and> (scast m :: i64) <s v1 then scast m else v1)
      in (v2, v2 \<noteq> v))"

definition directivePrefix :: string where
  "directivePrefix = ''wm:prio=''"

definition applyPriorityDirective :: "env \<Rightarrow> job \<Rightarrow> workload option \<Rightarrow> bridge \<Rightarrow> bridge" where
  "applyPriorityDirective e j wl st =
     (case wl of
        None \<Rightarrow> st
      | Some w \<Rightarrow>
          if \<not> HasPrefix (AdminComment j) directivePrefix then st
          else (case ParseInt (TrimPrefix (AdminComment j) directivePrefix) 32 of
              None \<Rightarrow> st
            | Some n \<Rightarrow>
                let prio = fst (capUserPriority (live_cfg e (trace st)) (word_of_int n)) in
                (case perform e (PatchPriority (wl_name w) prio) st of
                   (st1, Some err) \<Rightarrow> st1
                 | (st1, None) \<Rightarrow>
                     fst (perform e (SetAdminComment (JobID j) (''wm:prio-applied='' @ dec_i64 prio)) st1))))"

definition safeUint32 :: "i64 \<Rightarrow> 32 word" where
  "safeUint32 v = (if v <s 0 then 0 else if 4294967295 <s v then 4294967295 else ucast v)"

text \<open>The annotation is set in memory whether or not the update succeeds; the JobSet is returned.\<close>

definition rememberSyncedPriority :: "env \<Rightarrow> jobset \<Rightarrow> i64 \<Rightarrow> bridge \<Rightarrow> bridge \<times> jobset" where
  "rememberSyncedPriority e js v st =
     (let js' = set_annotation syncedPriorityAnnotation (dec_i64 v) js
      in (fst (perform e (UpdateJobSet js') st), js'))"

definition mirrorToSlurm :: "env \<Rightarrow> jobset \<Rightarrow> job \<Rightarrow> i64 \<Rightarrow> bridge \<Rightarrow> bridge \<times> jobset" where
  "mirrorToSlurm e js j wlPrio st =
     (case perform e (SetPriority (JobID j) (safeUint32 wlPrio)) st of
        (st1, Some err) \<Rightarrow> (st1, js)
      | (st1, None) \<Rightarrow> rememberSyncedPriority e js wlPrio st1)"

definition slurmPriority :: "job \<Rightarrow> i64" where
  "slurmPriority j = (if nv_set (Priority j) then nv_number (Priority j) else 0)"

definition syncPriority :: "env \<Rightarrow> jobset \<Rightarrow> job \<Rightarrow> workload option \<Rightarrow> bridge \<Rightarrow> bridge \<times> jobset" where
  "syncPriority e js j wl st =
     (case wl of
        None \<Rightarrow> (st, js)
      | Some w \<Rightarrow>
     (case wl_priority w of
        None \<Rightarrow> (st, js)
      | Some wlPrio \<Rightarrow>
     (case map_of (js_annotations js) syncedPriorityAnnotation of
        None \<Rightarrow> mirrorToSlurm e js j wlPrio st
      | Some synced \<Rightarrow>
          if dec_i64 (slurmPriority j) \<noteq> synced \<and> \<not> IsHeld j then
            let effective = fst (capUserPriority (live_cfg e (trace st)) (slurmPriority j)) in
            (case perform e (PatchPriority (wl_name w) effective) st of
               (st1, Some err) \<Rightarrow> (st1, js)
             | (st1, None) \<Rightarrow> rememberSyncedPriority e js effective st1)
          else if dec_i64 wlPrio \<noteq> synced then mirrorToSlurm e js j wlPrio st
          else (st, js))))"

section \<open>What the steps add to the log\<close>

definition only_comment :: "u64 \<Rightarrow> entry \<Rightarrow> bool" where
  "only_comment i en \<longleftrightarrow> (case fst en of SetComment k s \<Rightarrow> k = i | _ \<Rightarrow> False)"

text \<open>
  The two priority channels, call by call. The directive of the admin comment changes the priority of the
  JobSet's own Workload and answers in the job's admin comment; the sync changes the priority of that
  Workload (never of a held job's), gives Slurm the Workload's value, and writes the JobSet back as it is but
  for the annotation of the value last synchronised.
\<close>

definition directive_entry :: "job \<Rightarrow> workload option \<Rightarrow> entry \<Rightarrow> bool" where
  "directive_entry j wl en \<longleftrightarrow> HasPrefix (AdminComment j) directivePrefix \<and>
     (case wl of None \<Rightarrow> False
      | Some w \<Rightarrow> (case fst en of PatchPriority n v \<Rightarrow> n = wl_name w | SetAdminComment k s \<Rightarrow> k = JobID j | _ \<Rightarrow> False))"

definition synced_priority :: "jobset \<Rightarrow> jobset \<Rightarrow> bool" where
  "synced_priority js js' \<longleftrightarrow> (\<exists>v. js' = set_annotation syncedPriorityAnnotation (dec_i64 v) js)"

definition sync_entry :: "jobset \<Rightarrow> job \<Rightarrow> workload option \<Rightarrow> entry \<Rightarrow> bool" where
  "sync_entry js j wl en \<longleftrightarrow>
     (case wl of None \<Rightarrow> False
      | Some w \<Rightarrow> (case fst en of
            PatchPriority n v \<Rightarrow> n = wl_name w \<and> \<not> IsHeld j
          | SetPriority k v \<Rightarrow> k = JobID j \<and> map_option safeUint32 (wl_priority w) = Some v
          | UpdateJobSet js' \<Rightarrow> synced_priority js js'
          | _ \<Rightarrow> False))"

lemma perform_adds: "P (c, ask e (trace st) c) \<Longrightarrow> adds P st (fst (perform e c st))"
  by (simp add: perform_def Let_def adds_record)

lemma propagateStatus_adds: "adds (only_comment (JobID j)) st (propagateStatus e j wl st)"
  by (auto simp: propagateStatus_def perform_def Let_def only_comment_def
      intro!: adds_step split: prod.splits option.splits)

lemma applyPriorityDirective_adds: "adds (directive_entry j wl) st (applyPriorityDirective e j wl st)"
proof (cases "wl = None \<or> \<not> HasPrefix (AdminComment j) directivePrefix")
  case False
  then obtain w where w: "wl = Some w" "HasPrefix (AdminComment j) directivePrefix" by auto
  have step: "adds (directive_entry j wl) st1 (fst (perform e (SetAdminComment (JobID j) s) st1))" for s st1
    by (rule perform_adds) (simp add: directive_entry_def w)
  have patch: "adds (directive_entry j wl) st1 (record_call (PatchPriority (wl_name w) v) r st1)" for v r st1
    by (rule adds_record) (simp add: directive_entry_def w)
  show ?thesis
    by (auto simp: applyPriorityDirective_def Let_def w(1) elim!: performE
        intro!: patch [unfolded w(1)] adds_trans [OF patch step, unfolded w(1)] split: option.split prod.split)
qed (auto simp: applyPriorityDirective_def split: option.split)

lemma rememberSyncedPriority_adds:
  "adds (sync_entry js j (Some w)) st (fst (rememberSyncedPriority e js v st))"
  unfolding rememberSyncedPriority_def Let_def fst_conv
  by (rule perform_adds) (auto simp: sync_entry_def synced_priority_def)

lemma mirrorToSlurm_adds:
  assumes "wl_priority w = Some v"
  shows "adds (sync_entry js j (Some w)) st (fst (mirrorToSlurm e js j v st))"
proof -
  have mid: "adds (sync_entry js j (Some w)) st (record_call (SetPriority (JobID j) (safeUint32 v)) r st)" for r
    by (rule adds_record) (simp add: sync_entry_def assms)
  show ?thesis
    by (auto simp: mirrorToSlurm_def elim!: performE
        intro!: mid adds_trans [OF mid rememberSyncedPriority_adds] split: option.split prod.split)
qed

lemma syncPriority_adds: "adds (sync_entry js j wl) st (fst (syncPriority e js j wl st))"
proof (cases "\<exists>w p. wl = Some w \<and> wl_priority w = Some p")
  case True
  then obtain w p where w: "wl = Some w" "wl_priority w = Some p" by blast
  have mid: "adds (sync_entry js j (Some w)) st (record_call (PatchPriority (wl_name w) q) r st)" if "\<not> IsHeld j" for q r
    by (rule adds_record) (simp add: sync_entry_def that)
  show ?thesis
    by (auto simp: syncPriority_def Let_def w elim!: performE
        intro!: mid mirrorToSlurm_adds [OF w(2)] adds_trans [OF mid rememberSyncedPriority_adds]
        split: option.split prod.split)
qed (auto simp: syncPriority_def split: option.split)

lemma syncPriority_jobset:
  "\<exists>v. snd (syncPriority e js j wl st) = js \<or> snd (syncPriority e js j wl st) = set_annotation syncedPriorityAnnotation v js"
  by (auto simp: syncPriority_def mirrorToSlurm_def rememberSyncedPriority_def Let_def
      split: option.splits prod.splits if_splits)

lemma propagateStatus_simps [simp]:
  "seenAt (propagateStatus e j wl st) = seenAt st"
  "orphanSeen (propagateStatus e j wl st) = orphanSeen st"
  by (auto simp: propagateStatus_def perform_def Let_def split: prod.splits option.splits)

lemma applyPriorityDirective_simps [simp]:
  "seenAt (applyPriorityDirective e j wl st) = seenAt st"
  "orphanSeen (applyPriorityDirective e j wl st) = orphanSeen st"
  "commentState (applyPriorityDirective e j wl st) = commentState st"
  by (auto simp: applyPriorityDirective_def perform_def Let_def split: prod.splits option.splits)

lemma syncPriority_simps [simp]:
  "seenAt (fst (syncPriority e js j wl st)) = seenAt st"
  "orphanSeen (fst (syncPriority e js j wl st)) = orphanSeen st"
  "commentState (fst (syncPriority e js j wl st)) = commentState st"
  by (auto simp: syncPriority_def mirrorToSlurm_def rememberSyncedPriority_def perform_def Let_def
      split: prod.splits option.splits)

section \<open>A concrete world\<close>

text \<open>Every call succeeds; there are no jobs, JobSets or Workloads, and time stands still.\<close>

definition calm_env :: env where
  "calm_env = \<lparr>ask = (\<lambda>_ _. None), ask_job = (\<lambda>_ _. Inr None), ask_jobset = (\<lambda>_ _. Inl NotFound),
     ask_jobsets = (\<lambda>_. Inr []), ask_workloads = (\<lambda>_. Inr []), ask_jobs = (\<lambda>_. ([], None)),
     clock = (\<lambda>_. 1000 * second), live_cfg = (\<lambda>_. example_config), recorder = True\<rparr>"

section \<open>Properties\<close>

text \<open>Ownership. A JobSet the bridge creates is selected by that bridge's own snapshot, and by no
  bridge supervised for another resource, so one bridge's cleanup never reaches another's JobSets.\<close>

lemma created_jobset_is_owned_exclusively:
  assumes "ToJobSet j c = Inr js"
  shows "selected c js
    \<and> (if WorkloadMixingName c' = [] \<or> WorkloadMixingName c' = WorkloadMixingName c then True
       else \<not> selected c' js)"
proof -
  obtain pc where "js_labels js = jobSetLabels j c pc"
    by (rule ToJobSet_InrE [OF assms])
  then show ?thesis
    by (auto simp: selected_def map_of_jobSetLabels label_names)
qed

text \<open>User priorities are bounded. The value applied for a user's request is the request cut off
  at zero from below and, when a maximum is configured, at the maximum from above; it is flagged
  exactly when it was changed; and what reaches Slurm's unsigned field is the same value cut to
  32 bits, never a wrapped one.\<close>

lemma user_priority_is_clamped:
  "sint (fst (capUserPriority c v)) =
     (if 0 < sint (MaxUserPriority c) then min (max 0 (sint v)) (sint (MaxUserPriority c)) else max 0 (sint v))
   \<and> (snd (capUserPriority c v) \<longleftrightarrow> fst (capUserPriority c v) \<noteq> v)
   \<and> uint (safeUint32 v) = max 0 (min (2 ^ 32 - 1) (sint v))"
proof -
  have m: "sint (scast (MaxUserPriority c) :: i64) = sint (MaxUserPriority c)"
    by (rule sint_up_scast) (simp add: is_up)
  have "uint (ucast v :: 32 word) = sint v" if "0 \<le> sint v" "sint v \<le> 4294967295"
    using that uint_sint_nonneg [OF that(1)] by (simp add: unsigned_ucast_eq take_bit_int_eq_self)
  then show ?thesis
    by (auto simp: capUserPriority_def safeUint32_def Let_def sless_sint m)
qed

text \<open>The status comment. A status equal to the comment Slurm shows writes nothing. Otherwise the
  bridge writes at most one comment, the status itself, for this job; it writes exactly unless the
  class is the one last written, the last write is less than the interval old, and the two texts
  differ in numbers only. A change of class is therefore always written. The memory changes only
  when the write succeeded.\<close>

lemma status_comment_throttle:
  "let (status, cls) = admissionStatus wl; t = clock e (trace st);
       r = ask e (trace st) (SetComment (JobID j) status); st' = propagateStatus e j wl st in
   if Comment j = status \<or> throttled st j status cls t then st' = st
   else trace st' = (SetComment (JobID j) status, r) # trace st
     \<and> commentState st' = (if r = None then (commentState st)(JobID j \<mapsto> (cls, t)) else commentState st)"
proof -
  obtain status cls where s: "admissionStatus wl = (status, cls)" by (rule prod.exhaust)
  show ?thesis
    by (cases "ask e (trace st) (SetComment (JobID j) status)")
      (simp_all add: s propagateStatus_def perform_def Let_def)
qed

text \<open>A moving quota message is not rewritten within the interval. With the last write of the same
  class less than a minute old, a comment and a status that differ in one number cause no call.\<close>

lemma numbers_only_churn_is_silent:
  assumes "admissionStatus wl = (xs @ dec n @ ys, cls)" "Comment j = xs @ dec m @ ys"
    and "commentState st (JobID j) = Some (cls, t0)" "clock e (trace st) - t0 < commentRewriteMinInterval"
  shows "propagateStatus e j wl st = st"
  using assms strip_digits_number [of False xs m ys n]
  by (simp add: propagateStatus_def throttled_def normalizeStatusForComparison_def Let_def)

definition waiting_workload :: "string \<Rightarrow> workload" where
  "waiting_workload msg = \<lparr>wl_name = ''wl'', wl_owners = [(''JobSet'', ''slurm-job-42'')],
     wl_conditions = [UCond (Some ''QuotaReserved'') (Some ''False'') (Some msg)], wl_priority = Some 5\<rparr>"

lemma admissionStatus_waiting:
  "list_all (\<lambda>c. byte c < 128) msg \<Longrightarrow> msg \<noteq> [] \<Longrightarrow> length msg \<le> 96 \<Longrightarrow>
   admissionStatus (Some (waiting_workload msg)) = (''wm: waiting for quota: '' @ msg, ClassWaitingQuota)"
  by (simp add: admissionStatus_def waiting_workload_def truncateRunes_def runes_ascii quotaReasonMaxLen_def)

text \<open>The throttle compares with the wrong text. What Slurm shows after a write is the sanitized
  status; when sanitizing changed more than numbers, the comparison fails and the comment is
  written again, within the interval and with nothing changed.\<close>

lemma unsanitary_status_is_rewritten:
  assumes "admissionStatus wl = (status, cls)" "Comment j = sanitizeComment status"
    and "normalizeStatusForComparison (sanitizeComment status) \<noteq> normalizeStatusForComparison status"
  shows "trace (propagateStatus e j wl st) =
    (SetComment (JobID j) status, ask e (trace st) (SetComment (JobID j) status)) # trace st"
proof -
  have "Comment j \<noteq> status" using assms(2,3) by auto
  moreover have "\<not> throttled st j status cls t" for t
    using assms(2,3) by (simp add: throttled_def split: option.split prod.split)
  ultimately show ?thesis
    using assms(1) by (cases "ask e (trace st) (SetComment (JobID j) status)")
      (simp_all add: propagateStatus_def perform_def Let_def)
qed

text \<open>The priority sync reaches a fixed point. Once both sides show the value the annotation
  remembers, a further pass makes no call and changes nothing.\<close>

lemma priority_sync_fixed_point:
  assumes "map_of (js_annotations js) syncedPriorityAnnotation = Some (dec_i64 p)"
    and "wl_priority w = Some p" "slurmPriority j = p"
  shows "syncPriority e js j (Some w) st = (st, js)"
  using assms by (simp add: syncPriority_def)

text \<open>A negative Workload priority is lost. The mirror writes 0 to Slurm but remembers the negative
  value, so on a job that is running the next pass takes Slurm's 0 for a change made by the user
  and overwrites the Workload's priority with it.\<close>

lemma negative_priority_is_overwritten:
  assumes "wl_priority w = Some p" "sint p < 0"
    and "map_of (js_annotations js) syncedPriorityAnnotation = Some (dec_i64 p)"
    and "slurmPriority j = ucast (safeUint32 p)" "\<not> IsHeld j"
  shows "(PatchPriority (wl_name w) 0, ask e (trace st) (PatchPriority (wl_name w) 0))
    \<in> set (trace (fst (syncPriority e js j (Some w) st)))"
proof -
  have zero: "slurmPriority j = 0" using assms(2,4) by (simp add: safeUint32_def sless_sint)
  then have "dec_i64 (slurmPriority j) \<noteq> dec_i64 p" using assms(2) by (auto simp: dec_i64_def)
  moreover have "fst (capUserPriority c 0) = 0" for c
    by (auto simp: capUserPriority_def Let_def sless_sint sint_up_scast is_up)
  ultimately show ?thesis
    using assms(1,3,5) zero
    by (cases "ask e (trace st) (PatchPriority (wl_name w) 0)")
      (auto simp: syncPriority_def perform_def rememberSyncedPriority_def Let_def)
qed

end
