(* ===== verification/Bridge_Admit.thy ===== *)
theory Bridge_Admit imports
  Bridge_Status
begin

text \<open>
  Admission (\<open>admitHeldJobs\<close> and its helpers in \<open>internal/bridge/reconciler.go\<close>): creating the
  JobSets of the held jobs, the identity check on a reused job id, and the release of admitted
  jobs. The worker pool handles the jobs of one phase in an order nobody controls: phase 1 takes
  the list of indices in the order the workers take them. A cancelled context may leave indices
  out, so the list need not hold all of them. One worker's calls for one job (create, then read)
  are taken as one step.
\<close>

section \<open>Identity\<close>

definition jobSetIdentityMatches :: "jobset \<Rightarrow> jobset \<Rightarrow> bool" where
  "jobSetIdentityMatches existing desired \<longleftrightarrow>
     (let want = annotation_of desired SlurmSubmitTimeAnnotation in
      case map_of (js_annotations existing) SlurmSubmitTimeAnnotation of
        None \<Rightarrow> True
      | Some got \<Rightarrow> want = [] \<or> got = want)"

definition jobSetIdentityConflict :: "env \<Rightarrow> jobset \<Rightarrow> jobset \<Rightarrow> bridge \<Rightarrow> bridge \<times> error" where
  "jobSetIdentityConflict e existing desired st =
     (eventf e (js_name existing) ''Warning'' ''JobSetIdentityConflict''
        (inc ''JobSetIdentityConflictsTotal'' st),
      Msg (''JobSet '' @ js_name desired @ '' exists for a different incarnation''))"

text \<open>\<open>Inr True\<close>: created now.\<close>

definition ensureJobSet :: "env \<Rightarrow> jobset \<Rightarrow> bridge \<Rightarrow> bridge \<times> (error + bool)" where
  "ensureJobSet e desired st =
     (case perform e (CreateJobSet desired) st of
        (st1, None) \<Rightarrow> (st1, Inr True)
      | (st1, Some err) \<Rightarrow>
          if is_already_exists err then
            (case get_jobset e (js_name desired) st1 of
               (st2, Inl getErr) \<Rightarrow>
                 if is_kube_not_found getErr then (st2, Inr False)
                 else (st2, Inl (Wrap ''checking existing JobSet'' getErr))
             | (st2, Inr existing) \<Rightarrow>
                 if jobSetIdentityMatches existing desired then (st2, Inr False)
                 else (case jobSetIdentityConflict e existing desired st2 of (st3, err3) \<Rightarrow> (st3, Inl err3)))
          else (st1, Inl err))"

section \<open>Phase 1\<close>

text \<open>A slot of \<open>results\<close>: \<open>Skipped\<close> is the zero value (\<open>translateOK\<close> false).\<close>

datatype prepared = Skipped | Prepared (pr_job: job) (pr_desired: jobset) (pr_error: "error option")

definition recreation_refused :: "job \<Rightarrow> bool" where
  "recreation_refused j \<longleftrightarrow> Comment j \<noteq> [] \<and> \<not> HasPrefix (Comment j) ''wm: held''"

definition prepareJob :: "env \<Rightarrow> config \<Rightarrow> snapshot \<Rightarrow> job \<Rightarrow> bridge \<Rightarrow> bridge \<times> prepared" where
  "prepareJob e c snap j st =
     (case ToJobSet j c of
        Inl err \<Rightarrow> (eventf e (JobSetName (JobID j)) ''Warning'' ''TranslationFailed'' st, Skipped)
      | Inr desired \<Rightarrow>
     (case map_of (ownedJobSets snap) (js_name desired) of
        None \<Rightarrow>
          if recreation_refused j then (st, Skipped)
          else (case ensureJobSet e desired st of
              (st1, Inl err) \<Rightarrow> (st1, Prepared j desired (Some err))
            | (st1, Inr created) \<Rightarrow>
                (if created
                 then eventf e (js_name desired) ''Normal'' ''Created'' (inc ''JobSetsCreatedTotal'' st1)
                 else st1, Prepared j desired None))
      | Some existing \<Rightarrow>
          if \<not> jobSetIdentityMatches existing desired then
            (case jobSetIdentityConflict e existing desired st of
               (st1, err) \<Rightarrow> (st1, Prepared j desired (Some err)))
          else (st, Prepared j desired None)))"

fun phase1 :: "env \<Rightarrow> config \<Rightarrow> snapshot \<Rightarrow> job list \<Rightarrow> nat list \<Rightarrow> bridge \<Rightarrow> prepared list \<Rightarrow> bridge \<times> prepared list" where
  "phase1 e c snap held [] st res = (st, res)"
| "phase1 e c snap held (i # is) st res =
     (case prepareJob e c snap (held ! i) st of
        (st1, p) \<Rightarrow> phase1 e c snap held is st1 (res[i := p]))"

section \<open>Phase 2\<close>

text \<open>Release after pinning, and the release-latency memory.\<close>

definition releaseAdmitted :: "env \<Rightarrow> job \<Rightarrow> jobset \<Rightarrow> bridge \<Rightarrow> bridge" where
  "releaseAdmitted e j desired st =
     (case perform e (SetFeatures (JobID j) (NodeFeature (JobID j))) st of
        (st1, Some err) \<Rightarrow> st1
      | (st1, None) \<Rightarrow>
     (case perform e (Release (JobID j)) st1 of
        (st2, Some err) \<Rightarrow> st2
      | (st2, None) \<Rightarrow>
          let st3 = eventf e (js_name desired) ''Normal'' ''Released'' st2 in
          st3\<lparr>seenAt := (seenAt st3)(JobID j := None)\<rparr>))"

definition admitOne :: "env \<Rightarrow> snapshot \<Rightarrow> job \<Rightarrow> jobset \<Rightarrow> bridge \<Rightarrow> bridge" where
  "admitOne e snap j desired st =
     (let wl = workloadsByJobSet snap (js_name desired);
          st1 = propagateStatus e j wl st
      in if \<not> IsAdmitted wl then st1 else releaseAdmitted e j desired st1)"

fun phase2 :: "env \<Rightarrow> snapshot \<Rightarrow> prepared list \<Rightarrow> bridge \<Rightarrow> error list \<Rightarrow> bridge \<times> error list" where
  "phase2 e snap [] st errs = (st, errs)"
| "phase2 e snap (Skipped # ps) st errs = phase2 e snap ps st errs"
| "phase2 e snap (Prepared j d (Some err) # ps) st errs =
     phase2 e snap ps (inc ''JobSetCreateErrorsTotal'' st) (errs @ [Wrap ''ensuring JobSet for job'' err])"
| "phase2 e snap (Prepared j d None # ps) st errs = phase2 e snap ps (admitOne e snap j d st) errs"

definition admitHeldJobs :: "env \<Rightarrow> config \<Rightarrow> nat list \<Rightarrow> job list \<Rightarrow> snapshot \<Rightarrow> bridge \<Rightarrow> bridge \<times> error option" where
  "admitHeldJobs e c order held0 snap st =
     (let held = sort_key JobID held0 in
      case phase1 e c snap held order st (replicate (length held) Skipped) of
        (st1, results) \<Rightarrow>
      case phase2 e snap results st1 [] of
        (st2, errs) \<Rightarrow>
          (st2, if errs \<noteq> [] then Some (Wrap ''JobSet(s) failed to create'' (Joined errs)) else None))"

section \<open>What the steps add to the log\<close>

text \<open>Preparing a job only creates or reads its own JobSet, and emits events.\<close>

definition prepare_entry :: "config \<Rightarrow> job \<Rightarrow> entry \<Rightarrow> bool" where
  "prepare_entry c j en \<longleftrightarrow>
     (case fst en of
        CreateJobSet d \<Rightarrow> ToJobSet j c = Inr d \<and> \<not> recreation_refused j
      | GetJobSet n \<Rightarrow> n = JobSetName (JobID j)
      | Emit n ty rs \<Rightarrow> True
      | _ \<Rightarrow> False)"

text \<open>Admitting one adds its comment, its pin, its release and events.\<close>

definition admit_entry :: "job \<Rightarrow> entry \<Rightarrow> bool" where
  "admit_entry j en \<longleftrightarrow>
     (case fst en of
        SetComment i s \<Rightarrow> i = JobID j
      | SetFeatures i f \<Rightarrow> i = JobID j \<and> f = NodeFeature i
      | Release i \<Rightarrow> i = JobID j
      | Emit n ty rs \<Rightarrow> True
      | _ \<Rightarrow> False)"

lemma jobSetIdentityConflict_adds:
  "adds P s0 st \<Longrightarrow> (\<And>n ty rs. P (Emit n ty rs, None)) \<Longrightarrow> adds P s0 (fst (jobSetIdentityConflict e ex d st))"
  by (simp add: jobSetIdentityConflict_def adds_then)

lemma ensureJobSet_adds:
  assumes "adds P s0 st" "\<And>r. P (CreateJobSet d, r)" "\<And>r. P (GetJobSet (js_name d), r)"
    "\<And>n ty rs. P (Emit n ty rs, None)"
  shows "adds P s0 (fst (ensureJobSet e d st))"
  using assms
  by (simp add: ensureJobSet_def perform_def get_jobset_def Let_def adds_then jobSetIdentityConflict_def
      split: option.split sum.split)

lemma prepareJob_adds: "adds (prepare_entry c j) st (fst (prepareJob e c snap j st))"
proof (cases "ToJobSet j c")
  case (Inl err)
  then show ?thesis by (simp add: prepareJob_def adds_then prepare_entry_def)
next
  case (Inr d)
  have name: "js_name d = JobSetName (JobID j)" by (rule ToJobSet_InrE [OF Inr])
  show ?thesis
  proof (cases "map_of (ownedJobSets snap) (js_name d)")
    case None
    show ?thesis
    proof (cases "recreation_refused j")
      case False
      obtain st1 r where r: "ensureJobSet e d st = (st1, r)" by (rule prod.exhaust)
      have "adds (prepare_entry c j) st (fst (ensureJobSet e d st))"
        using Inr False name by (intro ensureJobSet_adds) (simp_all add: adds_then prepare_entry_def)
      then have "adds (prepare_entry c j) st st1" by (simp add: r)
      then show ?thesis
        using Inr None False r by (cases r) (simp_all add: prepareJob_def adds_then prepare_entry_def)
    qed (simp add: prepareJob_def Inr None adds_then)
  next
    case (Some ex)
    obtain st1 err where r: "jobSetIdentityConflict e ex d st = (st1, err)" by (rule prod.exhaust)
    have "adds (prepare_entry c j) st (fst (jobSetIdentityConflict e ex d st))"
      by (intro jobSetIdentityConflict_adds) (simp_all add: adds_then prepare_entry_def)
    with r Some show ?thesis by (simp add: prepareJob_def Inr adds_then)
  qed
qed

lemma releaseAdmitted_adds: "adds P s0 st \<Longrightarrow> (\<And>r. P (SetFeatures (JobID j) (NodeFeature (JobID j)), r)) \<Longrightarrow>
    (\<And>r. P (Release (JobID j), r)) \<Longrightarrow> (\<And>n ty rs. P (Emit n ty rs, None)) \<Longrightarrow>
    adds P s0 (releaseAdmitted e j d st)"
  by (simp add: releaseAdmitted_def perform_def Let_def adds_then split: option.split)

lemma admitOne_adds: "adds (admit_entry j) st (admitOne e snap j d st)"
proof -
  have "adds (admit_entry j) st (propagateStatus e j wl st)" for wl
    by (rule adds_mono [OF propagateStatus_adds]) (auto simp: only_comment_def admit_entry_def split: call.splits)
  then show ?thesis
    by (simp add: admitOne_def Let_def releaseAdmitted_adds admit_entry_def)
qed

text \<open>Phase 1 fills each slot with the outcome of that slot's job; the rest stay \<open>Skipped\<close>.\<close>

definition slot_ok :: "config \<Rightarrow> job \<Rightarrow> prepared \<Rightarrow> bool" where
  "slot_ok c j p \<longleftrightarrow> (case p of Skipped \<Rightarrow> True | Prepared j' d err \<Rightarrow> j' = j \<and> ToJobSet j c = Inr d)"

lemma prepareJob_slot: "slot_ok c j (snd (prepareJob e c snap j st))"
  by (auto simp: prepareJob_def slot_ok_def split: sum.split option.split prod.split)

lemma phase1_slots:
  assumes "phase1 e c snap held is st res = (st', res')" "list_all2 (slot_ok c) held res"
    "list_all (\<lambda>i. i < length held) is"
  shows "list_all2 (slot_ok c) held res'"
  using assms
proof (induction "is" arbitrary: st res)
  case (Cons i "is")
  obtain st1 p where p: "prepareJob e c snap (held ! i) st = (st1, p)" by (rule prod.exhaust)
  have "slot_ok c (held ! i) p"
    using prepareJob_slot [of c "held ! i" e snap st] p by simp
  then have "list_all2 (slot_ok c) held (res[i := p])"
    using Cons.prems by (auto simp: list_all2_conv_all_nth nth_list_update)
  with Cons p show ?case by auto
qed simp

lemma phase1_adds:
  assumes "list_all (\<lambda>i. i < length held) is"
  shows "adds (\<lambda>en. list_ex (\<lambda>j. prepare_entry c j en) held) st (fst (phase1 e c snap held is st res))"
  using assms
proof (induction "is" arbitrary: st res)
  case (Cons i "is")
  obtain st1 p where p: "prepareJob e c snap (held ! i) st = (st1, p)" by (rule prod.exhaust)
  have "adds (prepare_entry c (held ! i)) st st1"
    using prepareJob_adds [of c "held ! i" st e snap] p by simp
  then have "adds (\<lambda>en. list_ex (\<lambda>j. prepare_entry c j en) held) st st1"
    by (rule adds_mono) (use Cons.prems in \<open>auto simp: list_ex_iff\<close>)
  also have "adds (\<lambda>en. list_ex (\<lambda>j. prepare_entry c j en) held) st1
      (fst (phase1 e c snap held is st1 (res[i := p])))"
    using Cons by simp
  finally show ?case by (simp add: p)
qed (simp add: adds_then)

section \<open>Phase 2 as a sequence of admissions\<close>

fun to_admit :: "prepared list \<Rightarrow> (job \<times> jobset) list" where
  "to_admit [] = []"
| "to_admit (Prepared j d None # ps) = (j, d) # to_admit ps"
| "to_admit (_ # ps) = to_admit ps"

fun failed :: "prepared list \<Rightarrow> error list" where
  "failed [] = []"
| "failed (Prepared j d (Some err) # ps) = Wrap ''ensuring JobSet for job'' err # failed ps"
| "failed (_ # ps) = failed ps"

lemma phase2_errs: "snd (phase2 e snap ps st errs) = errs @ failed ps"
  by (induction e snap ps st errs rule: phase2.induct) auto

text \<open>Counters apart, phase 2 admits the prepared jobs one after the other.\<close>

lemma phase2_induct_step [consumes 1, case_names inc admit]:
  assumes "P st"
    and "\<And>m s. P s \<Longrightarrow> P (inc m s)"
    and "\<And>j d s. (j, d) \<in> set (to_admit ps) \<Longrightarrow> P s \<Longrightarrow> P (admitOne e snap j d s)"
  shows "P (fst (phase2 e snap ps st errs))"
  using assms by (induction e snap ps st errs rule: phase2.induct) auto

lemma to_admit_slot:
  "list_all2 (slot_ok c) held res \<Longrightarrow> (j, d) \<in> set (to_admit res) \<Longrightarrow> j \<in> set held \<and> ToJobSet j c = Inr d"
proof (induction held res rule: list_all2_induct)
  case (Cons h hs r rs)
  then show ?case by (cases r; cases "pr_error r") (auto simp: slot_ok_def)
qed simp

section \<open>Release safety\<close>

text \<open>Every release in the log comes right behind a successful pin of the same job to its own nodes.\<close>

fun pinned_releases :: "history \<Rightarrow> bool" where
  "pinned_releases [] = True"
| "pinned_releases ((c, r) # h) =
     ((case c of Release i \<Rightarrow> (case h of (SetFeatures k f, None) # _ \<Rightarrow> k = i \<and> f = NodeFeature i | _ \<Rightarrow> False)
       | _ \<Rightarrow> True) \<and> pinned_releases h)"

definition not_release :: "entry \<Rightarrow> bool" where
  "not_release en \<longleftrightarrow> (case fst en of Release i \<Rightarrow> False | _ \<Rightarrow> True)"

lemma pinned_not_release: "not_release en \<Longrightarrow> pinned_releases h \<Longrightarrow> pinned_releases (en # h)"
  by (cases en) (auto simp: not_release_def split: call.splits)

lemma pinned_adds: "adds not_release st st' \<Longrightarrow> pinned_releases (trace st) \<Longrightarrow> pinned_releases (trace st')"
  by (rule adds_preserves [of not_release]) (auto intro: pinned_not_release)

lemma propagateStatus_pinned:
  "pinned_releases (trace st) \<Longrightarrow> pinned_releases (trace (propagateStatus e j wl st))"
  by (rule pinned_adds [OF adds_mono [OF propagateStatus_adds]])
    (auto simp: only_comment_def not_release_def split: call.splits)

lemma releaseAdmitted_pinned:
  "pinned_releases (trace st) \<Longrightarrow> pinned_releases (trace (releaseAdmitted e j d st))"
  by (simp add: releaseAdmitted_def perform_def eventf_def Let_def split: option.split)

lemma admitOne_pinned:
  "pinned_releases (trace st) \<Longrightarrow> pinned_releases (trace (admitOne e snap j d st))"
  by (simp add: admitOne_def Let_def propagateStatus_pinned releaseAdmitted_pinned)

lemma phase1_not_release:
  assumes "list_all (\<lambda>i. i < length held) is"
  shows "adds not_release st (fst (phase1 e c snap held is st res))"
  by (rule adds_mono [OF phase1_adds [OF assms]])
    (auto simp: list_ex_iff prepare_entry_def not_release_def split: call.splits)

lemma phase1_pinned:
  "list_all (\<lambda>i. i < length held) is \<Longrightarrow> pinned_releases (trace st) \<Longrightarrow>
   pinned_releases (trace (fst (phase1 e c snap held is st res)))"
  by (rule pinned_adds [OF phase1_not_release])

lemma admitHeldJobs_pinned:
  assumes "admitHeldJobs e c order held snap st = (st', r)" "list_all (\<lambda>i. i < length held) order"
    "pinned_releases (trace st)"
  shows "pinned_releases (trace st')"
proof -
  obtain st1 res where p1: "phase1 e c snap (sort_key JobID held) order st (replicate (length held) Skipped) = (st1, res)"
    by (rule prod.exhaust)
  then have "pinned_releases (trace st1)"
    using phase1_pinned [of "sort_key JobID held" order st e c snap] assms(2,3) by (metis fst_conv length_sort)
  then have "pinned_releases (trace (fst (phase2 e snap res st1 [])))"
    by (induction rule: phase2_induct_step) (simp_all add: admitOne_pinned)
  moreover have "st' = fst (phase2 e snap res st1 [])"
    using assms(1) by (cases "phase2 e snap res st1 []") (simp add: admitHeldJobs_def Let_def p1)
  ultimately show ?thesis by simp
qed

section \<open>Who is admitted\<close>

definition admitted_in :: "snapshot \<Rightarrow> job \<Rightarrow> bool" where
  "admitted_in snap j \<longleftrightarrow> IsAdmitted (workloadsByJobSet snap (JobSetName (JobID j)))"

text \<open>What the pass may add: pins and releases for held, admitted, mapped jobs only.\<close>

definition admission_entry :: "config \<Rightarrow> snapshot \<Rightarrow> job list \<Rightarrow> entry \<Rightarrow> bool" where
  "admission_entry c snap held en \<longleftrightarrow>
     (case fst en of
        Release i \<Rightarrow> list_ex (\<lambda>j. JobID j = i \<and> admitted_in snap j \<and> PriorityClassFor c (Partition j) \<noteq> None) held
      | SetFeatures i f \<Rightarrow> f = NodeFeature i
          \<and> list_ex (\<lambda>j. JobID j = i \<and> admitted_in snap j \<and> PriorityClassFor c (Partition j) \<noteq> None) held
      | SetComment i s \<Rightarrow> list_ex (\<lambda>j. JobID j = i) held
      | CreateJobSet d \<Rightarrow> list_ex (\<lambda>j. ToJobSet j c = Inr d \<and> \<not> recreation_refused j) held
      | GetJobSet n \<Rightarrow> list_ex (\<lambda>j. n = JobSetName (JobID j)) held
      | Emit n ty rs \<Rightarrow> True
      | _ \<Rightarrow> False)"

lemma prepare_admission:
  "list_ex (\<lambda>j. prepare_entry c j en) held \<Longrightarrow> admission_entry c snap held en"
  by (auto simp: list_ex_iff prepare_entry_def admission_entry_def split: call.splits)

lemma admitOne_adds_admitted:
  assumes "j \<in> set held" "ToJobSet j c = Inr d"
  shows "adds (admission_entry c snap held) st (admitOne e snap j d st)"
proof -
  have name: "js_name d = JobSetName (JobID j)" and mapped: "PriorityClassFor c (Partition j) \<noteq> None"
    using assms(2) by (auto elim: ToJobSet_InrE)
  have "adds (admission_entry c snap held) st (propagateStatus e j wl st)" for wl
    by (rule adds_mono [OF propagateStatus_adds])
      (use assms(1) in \<open>auto simp: only_comment_def admission_entry_def list_ex_iff split: call.splits\<close>)
  moreover have "list_ex (\<lambda>k. JobID k = JobID j \<and> admitted_in snap k \<and> PriorityClassFor c (Partition k) \<noteq> None) held"
    if "IsAdmitted (workloadsByJobSet snap (js_name d))"
    using that assms(1) mapped name by (auto simp: list_ex_iff admitted_in_def)
  ultimately show ?thesis
    by (auto simp: admitOne_def Let_def admission_entry_def intro!: releaseAdmitted_adds)
qed

lemma admitHeldJobs_adds:
  assumes "list_all (\<lambda>i. i < length held) order"
  shows "adds (admission_entry c snap held) st (fst (admitHeldJobs e c order held snap st))"
proof -
  let ?h = "sort_key JobID held"
  obtain st1 res where p1: "phase1 e c snap ?h order st (replicate (length held) Skipped) = (st1, res)"
    by (rule prod.exhaust)
  have ord: "list_all (\<lambda>i. i < length ?h) order" using assms by simp
  have "adds (admission_entry c snap held) st st1"
    using adds_mono [OF phase1_adds [OF ord, of c st e snap "replicate (length held) Skipped"], of "admission_entry c snap held"]
      prepare_admission [of c _ held snap] by (simp add: p1 list_ex_iff)
  moreover have slots: "list_all2 (slot_ok c) ?h res"
    by (rule phase1_slots [OF p1 _ ord]) (simp add: list_all2_conv_all_nth slot_ok_def)
  moreover have "adds (admission_entry c snap held) st (fst (phase2 e snap res st1 errs))"
    if "adds (admission_entry c snap held) st st1" for errs
    using that
  proof (induction rule: phase2_induct_step)
    case (admit j d s)
    then have "j \<in> set held" "ToJobSet j c = Inr d" using to_admit_slot [OF slots] by auto
    from admit(2) admitOne_adds_admitted [OF this] show ?case by (rule adds_trans)
  qed (simp_all add: adds_then)
  ultimately have "adds (admission_entry c snap held) st (fst (phase2 e snap res st1 []))" by simp
  then show ?thesis
    by (cases "phase2 e snap res st1 []") (simp add: admitHeldJobs_def Let_def p1)
qed

text \<open>C14: the admission gate. Whatever the pass does, a job it pins or releases is one of the held jobs,
  on a managed partition, whose Workload the snapshot shows as admitted; it pins to the job's own
  feature; it creates a JobSet only for a held job whose comment shows it has none yet; and it
  deletes, cancels, patches nothing.\<close>

theorem admission_gate:
  assumes "list_all (\<lambda>i. i < length held) order"
  shows "\<exists>new. trace (fst (admitHeldJobs e c order held snap st)) = new @ trace st
    \<and> list_all (admission_entry c snap held) new"
  using admitHeldJobs_adds [OF assms] by (simp add: adds_def)

theorem admission_gate_witness:
  "\<exists>new. trace (fst (admitHeldJobs calm_env example_config [0] [example_job]
      \<lparr>ownedJobSets = [], workloadsByJobSet = Map.empty\<rparr> New)) = new
    \<and> list_all (admission_entry example_config \<lparr>ownedJobSets = [], workloadsByJobSet = Map.empty\<rparr> [example_job]) new"
  using admission_gate [of "[example_job]" "[0]" calm_env example_config
      "\<lparr>ownedJobSets = [], workloadsByJobSet = Map.empty\<rparr>" New]
  by (simp add: New_def)

section \<open>Order\<close>

text \<open>The jobs released in a stretch of the log, oldest first.\<close>

definition released :: "history \<Rightarrow> u64 list" where
  "released h = rev (List.map_filter (\<lambda>en. case fst en of Release i \<Rightarrow> Some i | _ \<Rightarrow> None) h)"

lemma released_simps [simp]:
  "released [] = []"
  "released ((Release i, r) # h) = released h @ [i]"
  "not_release en \<Longrightarrow> released (en # h) = released h"
  "released (h @ h') = released h' @ released h"
  by (auto simp: released_def List.map_filter_simps List.map_filter_def not_release_def split: call.splits)

lemma released_adds: "adds not_release st st' \<Longrightarrow> released (trace st') = released (trace st)"
proof -
  assume "adds not_release st st'"
  then obtain new where new: "trace st' = new @ trace st" "list_all not_release new"
    by (auto simp: adds_def)
  from new(2) have "released new = []" by (induction new) auto
  with new(1) show ?thesis by simp
qed

lemma propagateStatus_released:
  "released (trace (propagateStatus e j wl st)) = released (trace st)"
  by (rule released_adds [OF adds_mono [OF propagateStatus_adds]])
    (auto simp: only_comment_def not_release_def split: call.splits)

lemma admitOne_released:
  "released (trace (admitOne e snap j d st)) = released (trace st)
   \<or> released (trace (admitOne e snap j d st)) = released (trace st) @ [JobID j]"
proof -
  have "released (trace (releaseAdmitted e j d s)) = released (trace s)
      \<or> released (trace (releaseAdmitted e j d s)) = released (trace s) @ [JobID j]" for s
    by (auto simp: releaseAdmitted_def perform_def eventf_def Let_def not_release_def split: option.split)
  then show ?thesis
    by (simp add: admitOne_def Let_def propagateStatus_released) (metis propagateStatus_released)
qed

lemma phase2_released:
  "\<exists>js. subseq js (map (JobID \<circ> fst) (to_admit ps)) \<and>
     released (trace (fst (phase2 e snap ps st errs))) = released (trace st) @ js"
proof (induction e snap ps st errs rule: phase2.induct)
  case (4 e snap j d ps st errs)
  then obtain js where js: "subseq js (map (JobID \<circ> fst) (to_admit ps))"
    "released (trace (fst (phase2 e snap ps (admitOne e snap j d st) errs)))
       = released (trace (admitOne e snap j d st)) @ js" by blast
  from admitOne_released [of e snap j d st] show ?case
  proof
    assume "released (trace (admitOne e snap j d st)) = released (trace st)"
    moreover have "subseq js (JobID j # map (JobID \<circ> fst) (to_admit ps))"
      using js(1) by (rule list_emb_Cons)
    ultimately show ?thesis using js(2) by (intro exI [of _ js]) (simp add: comp_def)
  next
    assume "released (trace (admitOne e snap j d st)) = released (trace st) @ [JobID j]"
    with js show ?thesis by (intro exI [of _ "JobID j # js"]) (auto simp: comp_def)
  qed
qed auto

lemma sorted_subseq: "subseq xs ys \<Longrightarrow> sorted ys \<Longrightarrow> sorted xs"
proof (induction xs ys rule: list_emb.induct)
  case (list_emb_Cons2 x y xs ys)
  then have "set xs \<subseteq> set ys" by (blast elim: list_emb_set)
  with list_emb_Cons2 show ?case by auto
qed simp_all

lemma to_admit_subseq:
  "list_all2 (slot_ok c) held res \<Longrightarrow> subseq (map fst (to_admit res)) held"
proof (induction held res rule: list_all2_induct)
  case (Cons h hs r rs)
  then show ?case by (cases r; cases "pr_error r") (auto simp: slot_ok_def)
qed simp

text \<open>Oldest first. Within a pass the jobs are released in ascending job-id order, in whatever
  order the listing and the workers delivered them, so no job is overtaken by a newer one that
  is released in the same pass.\<close>

lemma releases_oldest_first:
  assumes "list_all (\<lambda>i. i < length held) order" "released (trace st) = []"
  shows "sorted (released (trace (fst (admitHeldJobs e c order held snap st))))"
proof -
  let ?h = "sort_key JobID held"
  obtain st1 res where p1: "phase1 e c snap ?h order st (replicate (length held) Skipped) = (st1, res)"
    by (rule prod.exhaust)
  have ord: "list_all (\<lambda>i. i < length ?h) order" using assms(1) by simp
  have "adds not_release st st1"
    using phase1_not_release [OF ord, of st e c snap "replicate (length held) Skipped"] by (simp add: p1)
  then have "released (trace st1) = []" using assms(2) by (simp add: released_adds)
  then obtain js where js: "subseq js (map (JobID \<circ> fst) (to_admit res))"
    "released (trace (fst (phase2 e snap res st1 []))) = js"
    using phase2_released [of res e snap st1 "[]"] by auto
  have "list_all2 (slot_ok c) ?h res"
    by (rule phase1_slots [OF p1 _ ord]) (simp add: list_all2_conv_all_nth slot_ok_def)
  then have "subseq (map JobID (map fst (to_admit res))) (map JobID ?h)"
    by (intro subseq_map to_admit_subseq)
  with js(1) have "subseq js (map JobID ?h)" by (metis map_map subseq_order.order_trans)
  moreover have "sorted (map JobID ?h)" by simp
  ultimately have "sorted js" by (rule sorted_subseq)
  with js(2) show ?thesis
    by (cases "phase2 e snap res st1 []") (simp add: admitHeldJobs_def Let_def p1)
qed

section \<open>Isolation\<close>

lemma prepareJob_result:
  "snd (prepareJob e c snap j st) =
     (case ToJobSet j c of Inl err \<Rightarrow> Skipped
      | Inr d \<Rightarrow> (case map_of (ownedJobSets snap) (js_name d) of
            None \<Rightarrow> if recreation_refused j then Skipped
              else Prepared j d (case snd (ensureJobSet e d st) of Inl err \<Rightarrow> Some err | Inr b \<Rightarrow> None)
          | Some ex \<Rightarrow> Prepared j d (if jobSetIdentityMatches ex d then None
              else Some (snd (jobSetIdentityConflict e ex d st)))))"
  by (simp add: prepareJob_def split: sum.split option.split prod.split)

lemma phase1_slot:
  assumes "\<And>s. P (snd (prepareJob e c snap (held ! i) s))" "i < length res" "i \<in> set is \<or> P (res ! i)"
  shows "P (snd (phase1 e c snap held is st res) ! i)"
  using assms(2,3)
proof (induction "is" arbitrary: st res)
  case (Cons k ks)
  obtain st1 q where q: "prepareJob e c snap (held ! k) st = (st1, q)" by (rule prod.exhaust)
  have "i \<in> set ks \<or> P (res[k := q] ! i)"
    using Cons.prems assms(1) [of st] q by (cases "i = k") auto
  then show ?case using Cons.IH [of "res[k := q]" st1] Cons.prems(1) by (simp add: q)
qed simp

lemma phase1_nth:
  assumes "\<And>s. snd (prepareJob e c snap (held ! i) s) = p" "i < length res" "i \<in> set is \<or> res ! i = p"
  shows "snd (phase1 e c snap held is st res) ! i = p"
  by (rule phase1_slot [where P = "\<lambda>q. q = p", OF assms])

lemma phase1_length: "length (snd (phase1 e c snap held is st res)) = length res"
  by (induction "is" arbitrary: st res) (auto split: prod.split)

lemma to_admit_nth:
  "i < length ps \<Longrightarrow> ps ! i = Prepared j d None \<Longrightarrow> (j, d) \<in> set (to_admit ps)"
proof (induction ps arbitrary: i)
  case (Cons p ps)
  then show ?case by (cases i; cases p; cases "pr_error p") auto
qed simp

lemma phase2_extends: "adds (\<lambda>_. True) st (fst (phase2 e snap ps st errs))"
  using adds_refl [OF refl, of "\<lambda>_. True" st]
  by (induction rule: phase2_induct_step) (auto simp: adds_then intro: adds_call [OF _ admitOne_adds])

lemma admitOne_releases:
  assumes "IsAdmitted (workloadsByJobSet snap (js_name d))" "k \<le> length (trace st)"
    and "\<And>h. k \<le> length h \<Longrightarrow> ask e h (SetFeatures (JobID j) (NodeFeature (JobID j))) = None"
    and "\<And>h. k \<le> length h \<Longrightarrow> ask e h (Release (JobID j)) = None"
  shows "logs (Release (JobID j), None) st (admitOne e snap j d st)"
proof -
  define st1 where "st1 = propagateStatus e j (workloadsByJobSet snap (js_name d)) st"
  have a: "adds (only_comment (JobID j)) st st1" unfolding st1_def by (rule propagateStatus_adds)
  then have "k \<le> length (trace st1)" using assms(2) by (auto simp: adds_def)
  then have "logs (Release (JobID j), None) st1 (releaseAdmitted e j d st1)"
    by (simp add: releaseAdmitted_def perform_def eventf_def Let_def assms(3,4) logs_def)
  with a show ?thesis
    using assms(1) by (simp add: admitOne_def Let_def st1_def logs_after)
qed

lemma phase2_releases:
  assumes "(j, d) \<in> set (to_admit ps)" "k \<le> length (trace st)"
    and "\<And>s. k \<le> length (trace s) \<Longrightarrow> logs (Release (JobID j), None) s (admitOne e snap j d s)"
  shows "logs (Release (JobID j), None) st (fst (phase2 e snap ps st errs))"
  using assms
proof (induction e snap ps st errs rule: phase2.induct)
  case (3 e snap j' d' err ps st errs)
  then show ?case by (auto intro: logs_after [OF adds_inc])
next
  case (4 e snap j' d' ps st errs)
  show ?case
  proof (cases "(j', d') = (j, d)")
    case True
    then show ?thesis using 4(3,4) by (auto intro: logs_before phase2_extends)
  next
    case False
    have "adds (admit_entry j') st (admitOne e snap j' d' st)" by (rule admitOne_adds)
    then have "k \<le> length (trace (admitOne e snap j' d' st))" using 4(3) by (auto simp: adds_def)
    then show ?thesis using 4 False by (auto intro: logs_after admitOne_adds)
  qed
qed auto

text \<open>
  When every held job has been taken up by a worker, a job whose JobSet is there with a matching
  identity and whose Workload is admitted is released, whatever happens to the other jobs. Slurm may
  refuse the calls while the log is shorter than \<open>k\<close>.
\<close>

lemma admitHeldJobs_releases:
  assumes "j \<in> set held" "ToJobSet j c = Inr d"
    and "set order = {..<length held}"
    and "map_of (ownedJobSets snap) (js_name d) = Some ex" "jobSetIdentityMatches ex d"
    and "IsAdmitted (workloadsByJobSet snap (js_name d))" "k \<le> length (trace st)"
    and "\<And>h. k \<le> length h \<Longrightarrow> ask e h (SetFeatures (JobID j) (NodeFeature (JobID j))) = None"
    and "\<And>h. k \<le> length h \<Longrightarrow> ask e h (Release (JobID j)) = None"
  shows "logs (Release (JobID j), None) st (fst (admitHeldJobs e c order held snap st))"
proof -
  let ?h = "sort_key JobID held"
  obtain i where i: "i < length ?h" "?h ! i = j" using assms(1) by (metis in_set_conv_nth set_sort)
  have prep: "snd (prepareJob e c snap (?h ! i) s) = Prepared j d None" for s
    using assms(2,4,5) by (simp add: i(2) prepareJob_def)
  obtain st1 res where p1: "phase1 e c snap ?h order st (replicate (length held) Skipped) = (st1, res)"
    by (rule prod.exhaust)
  have "i \<in> set order" using assms(3) i(1) by simp
  then have "res ! i = Prepared j d None"
    using phase1_nth [OF prep, of "replicate (length held) Skipped" order st] i(1) by (simp add: p1)
  moreover have "length res = length held"
    using phase1_length [of e c snap ?h order st "replicate (length held) Skipped"] by (simp add: p1)
  ultimately have "(j, d) \<in> set (to_admit res)" using i(1) by (intro to_admit_nth [of i]) simp_all
  moreover have looked: "adds (\<lambda>en. list_ex (\<lambda>j. prepare_entry c j en) ?h) st (fst (st1, res))"
    unfolding p1 [symmetric] by (rule phase1_adds) (use assms(3) in \<open>auto simp: list_all_iff\<close>)
  then have "k \<le> length (trace st1)" using assms(7) by (auto simp: adds_def)
  ultimately have "logs (Release (JobID j), None) st1 (fst (phase2 e snap res st1 []))"
    using admitOne_releases [OF assms(6) _ assms(8,9)] by (rule phase2_releases)
  with looked show ?thesis
    by (cases "phase2 e snap res st1 []") (auto simp: admitHeldJobs_def Let_def p1 intro: logs_after)
qed

text \<open>C33: the order of the workers does not matter, in a world whose answers do not depend on the calls made
  before (no quota, rate limit or conflict among the creations). There any two complete orders prepare the
  same result for every job and end in the same error.\<close>

theorem worker_order_irrelevant:
  assumes "\<And>h call. ask e h call = ask e [] call" "\<And>h n. ask_jobset e h n = ask_jobset e [] n"
    and "set order = {..<length held}" "set order' = {..<length held}"
  shows "snd (phase1 e c snap held order st (replicate (length held) Skipped))
      = snd (phase1 e c snap held order' st' (replicate (length held) Skipped))
    \<and> snd (admitHeldJobs e c order held snap st) = snd (admitHeldJobs e c order' held snap st')"
proof -
  define f g where "f = ask e []" and "g = ask_jobset e []"
  have ask: "ask e h call = f call" for h call unfolding f_def by (rule assms(1))
  have get: "ask_jobset e h n = g n" for h n unfolding g_def by (rule assms(2))
  have const: "snd (prepareJob e c snap j s) = snd (prepareJob e c snap j New)" for j s
  proof -
    have "snd (ensureJobSet e d s) = snd (ensureJobSet e d New)" for d
      by (simp add: ensureJobSet_def perform_def get_jobset_def jobSetIdentityConflict_def Let_def ask get
          split: option.split sum.split)
    then show ?thesis
      by (simp add: prepareJob_result jobSetIdentityConflict_def split: sum.split option.split)
  qed
  have all: "snd (phase1 e c snap hs os s (replicate (length hs) Skipped)) = map (\<lambda>j. snd (prepareJob e c snap j New)) hs"
    if "set os = {..<length hs}" for hs os s
  proof (rule nth_equalityI)
    fix i assume "i < length (snd (phase1 e c snap hs os s (replicate (length hs) Skipped)))"
    then have i: "i < length hs" by (simp add: phase1_length)
    then show "snd (phase1 e c snap hs os s (replicate (length hs) Skipped)) ! i
        = map (\<lambda>j. snd (prepareJob e c snap j New)) hs ! i"
      using phase1_nth [OF const, of i "replicate (length hs) Skipped" os hs s] that by simp
  qed (simp add: phase1_length)
  have "snd (admitHeldJobs e c os held snap s) =
      (let errs = failed (map (\<lambda>j. snd (prepareJob e c snap j New)) (sort_key JobID held))
       in if errs \<noteq> [] then Some (Wrap ''JobSet(s) failed to create'' (Joined errs)) else None)"
    if "set os = {..<length held}" for os s
  proof -
    obtain st1 res where p1: "phase1 e c snap (sort_key JobID held) os s (replicate (length held) Skipped) = (st1, res)"
      by (rule prod.exhaust)
    have "res = map (\<lambda>j. snd (prepareJob e c snap j New)) (sort_key JobID held)"
      using all [of os "sort_key JobID held" s] that by (simp add: p1)
    moreover have "snd (phase2 e snap res st1 []) = failed res" by (simp add: phase2_errs)
    ultimately show ?thesis
      by (cases "phase2 e snap res st1 []") (simp add: admitHeldJobs_def Let_def p1)
  qed
  with all assms(3,4) show ?thesis by simp
qed

theorem worker_order_irrelevant_witness:
  "snd (admitHeldJobs calm_env example_config [0, 1] [example_job, example_job\<lparr>JobID := 7\<rparr>]
      \<lparr>ownedJobSets = [], workloadsByJobSet = Map.empty\<rparr> New)
   = snd (admitHeldJobs calm_env example_config [1, 0] [example_job, example_job\<lparr>JobID := 7\<rparr>]
      \<lparr>ownedJobSets = [], workloadsByJobSet = Map.empty\<rparr> New)"
proof -
  let ?held = "[example_job, example_job\<lparr>JobID := 7\<rparr>]"
  have "{..<length ?held} = {0, 1}" by auto
  then show ?thesis
    using worker_order_irrelevant [of calm_env "[0, 1]" ?held "[1, 0]" example_config
        "\<lparr>ownedJobSets = [], workloadsByJobSet = Map.empty\<rparr>" New New]
    by (simp add: calm_env_def insert_commute)
qed

section \<open>Reused job ids\<close>

definition usable_submit_time :: "job \<Rightarrow> bool" where
  "usable_submit_time j \<longleftrightarrow>
     nv_set (SubmitTime j) \<and> \<not> nv_infinite (SubmitTime j) \<and> nv_number (SubmitTime j) \<noteq> 0"

definition touches :: "u64 \<Rightarrow> entry \<Rightarrow> bool" where
  "touches i en \<longleftrightarrow>
     (case fst en of Release k \<Rightarrow> k = i | SetFeatures k f \<Rightarrow> k = i | SetComment k s \<Rightarrow> k = i | _ \<Rightarrow> False)"

lemma prepare_no_touch: "list_ex (\<lambda>j. prepare_entry c j en) held \<Longrightarrow> \<not> touches i en"
  by (auto simp: list_ex_iff prepare_entry_def touches_def split: call.splits)

lemma submit_annotation:
  "ToJobSet j c = Inr d \<Longrightarrow> map_of (js_annotations d) SlurmSubmitTimeAnnotation =
     (if usable_submit_time j then Some (dec_u64 (nv_number (SubmitTime j))) else None)"
  by (auto elim!: ToJobSet_InrE simp: submitTimeAnnotation_def usable_submit_time_def)

lemma other_incarnation_mismatch:
  assumes "ToJobSet j0 c0 = Inr old" "ToJobSet j c = Inr d"
    and "usable_submit_time j0" "usable_submit_time j"
    and "nv_number (SubmitTime j0) \<noteq> nv_number (SubmitTime j)"
    and "map_of (js_annotations ex) SlurmSubmitTimeAnnotation = map_of (js_annotations old) SlurmSubmitTimeAnnotation"
  shows "\<not> jobSetIdentityMatches ex d"
  using assms
  by (simp add: jobSetIdentityMatches_def annotation_of_def submit_annotation dec_u64_def [of "nv_number (SubmitTime j)"]
      Let_def) (metis dec_u64_def dec_u64_inj)

lemma to_admit_in: "(j, d) \<in> set (to_admit ps) \<Longrightarrow> Prepared j d None \<in> set ps"
  by (induction ps rule: to_admit.induct) auto

lemma blocked_slot_excludes:
  assumes "list_all2 (slot_ok c) h res" "distinct (map JobID h)" "i < length h" "h ! i = j"
    and "\<And>j d. res ! i \<noteq> Prepared j d None" "(j', d') \<in> set (to_admit res)"
  shows "JobID j' \<noteq> JobID j"
proof
  assume eq: "JobID j' = JobID j"
  have len: "length res = length h" using assms(1) by (simp add: list_all2_lengthD)
  obtain k where k: "k < length res" "res ! k = Prepared j' d' None"
    using to_admit_in [OF assms(6)] by (auto simp: in_set_conv_nth)
  then have "slot_ok c (h ! k) (Prepared j' d' None)"
    using assms(1) len by (metis list_all2_nthD2)
  then have same: "map JobID h ! k = map JobID h ! i"
    using k(1) assms(3,4) len eq by (simp add: slot_ok_def)
  have "k = i"
    by (rule nth_eq_iff_index_eq [OF assms(2), THEN iffD1, OF _ _ same]) (use k(1) assms(3) len in simp_all)
  with k(2) assms(5) show False by simp
qed

text \<open>
  A JobSet that is not the job's stands in the way: the snapshot shows it, or the snapshot misses it, but
  it is there. Then every creation under its name fails, and a read returns it, or fails (not with not
  found: it is there).
\<close>

definition stands_in_the_way :: "(jobset \<Rightarrow> bool) \<Rightarrow> env \<Rightarrow> snapshot \<Rightarrow> jobset \<Rightarrow> bool" where
  "stands_in_the_way foreign e snap d \<longleftrightarrow>
     (case map_of (ownedJobSets snap) (js_name d) of
        Some ex \<Rightarrow> foreign ex
      | None \<Rightarrow> (\<forall>h. ask e h (CreateJobSet d) \<noteq> None)
          \<and> (\<forall>h. case ask_jobset e h (js_name d) of Inl err \<Rightarrow> \<not> is_kube_not_found err | Inr ex \<Rightarrow> foreign ex))"

text \<open>The slot of such a job carries an error, or is left empty because its recreation was refused before.\<close>

definition blocked_slot :: "job \<Rightarrow> jobset \<Rightarrow> prepared \<Rightarrow> bool" where
  "blocked_slot j d p \<longleftrightarrow> (p = Skipped \<and> recreation_refused j) \<or> (\<exists>err. p = Prepared j d (Some err))"

lemma blocked_slot:
  assumes "ToJobSet j c = Inr d" "stands_in_the_way (\<lambda>ex. \<not> jobSetIdentityMatches ex d) e snap d"
  shows "blocked_slot j d (snd (prepareJob e c snap j s))"
proof (cases "map_of (ownedJobSets snap) (js_name d)")
  case None
  then have create: "ask e h (CreateJobSet d) \<noteq> None"
    and read: "case ask_jobset e h (js_name d) of Inl err \<Rightarrow> \<not> is_kube_not_found err | Inr ex \<Rightarrow> \<not> jobSetIdentityMatches ex d" for h
    using assms(2) by (simp_all add: stands_in_the_way_def)
  obtain err where err: "ask e (trace s) (CreateJobSet d) = Some err" using create by blast
  have "\<exists>e'. snd (ensureJobSet e d s) = Inl e'"
    using read [of "(CreateJobSet d, Some err) # trace s"]
    by (auto simp: ensureJobSet_def perform_def get_jobset_def jobSetIdentityConflict_def Let_def err split: sum.splits)
  then show ?thesis by (auto simp: prepareJob_result assms(1) None blocked_slot_def)
next
  case (Some ex)
  then show ?thesis using assms by (simp add: prepareJob_result stands_in_the_way_def blocked_slot_def)
qed

text \<open>A job whose slot is blocked, whenever it is prepared: the pass does not touch it, and fails or skips it.\<close>

lemma blocked_job_untouched:
  assumes "\<And>s. blocked_slot j d (snd (prepareJob e c snap j s))"
    and "List.member held j" "distinct (map JobID held)" "set order = {..<length held}"
  shows "adds (\<lambda>en. \<not> touches (JobID j) en) st (fst (admitHeldJobs e c order held snap st))"
    and "snd (admitHeldJobs e c order held snap st) \<noteq> None \<or> (\<exists>s. snd (prepareJob e c snap j s) = Skipped)"
proof -
  let ?h = "sort_key JobID held" and ?Q = "\<lambda>en. \<not> touches (JobID j) en"
  obtain st1 res where p1: "phase1 e c snap ?h order st (replicate (length held) Skipped) = (st1, res)"
    by (rule prod.exhaust)
  obtain st2 errs where p2: "phase2 e snap res st1 [] = (st2, errs)" by (rule prod.exhaust)
  have ord: "list_all (\<lambda>i. i < length ?h) order" using assms(4) by (simp add: list_all_iff)
  have slots: "list_all2 (slot_ok c) ?h res"
    by (rule phase1_slots [OF p1 _ ord]) (simp add: slot_ok_def list_all2_conv_all_nth)
  obtain i where i: "i < length ?h" "?h ! i = j" using assms(2) by (metis List.member_iff in_set_conv_nth set_sort)
  have dist: "distinct (map JobID ?h)" using assms(3) by (simp add: distinct_map)
  have at: "P (res ! i)" if "\<And>s. P (snd (prepareJob e c snap j s))" for P
    using phase1_slot [of P e c snap ?h i "replicate (length held) Skipped" order st] that i assms(4) by (simp add: p1)
  have slot: "blocked_slot j d (res ! i)" by (rule at [of "blocked_slot j d", OF assms(1)])
  have "adds ?Q st st1"
    using adds_mono [OF phase1_adds [OF ord, of c st e snap "replicate (length held) Skipped"], of ?Q]
      prepare_no_touch [of c _ ?h "JobID j"] by (simp add: p1)
  then have "adds ?Q st (fst (phase2 e snap res st1 []))"
  proof (induction rule: phase2_induct_step)
    case (admit j' d' s)
    have "res ! i \<noteq> Prepared j'' d'' None" for j'' d'' using slot by (auto simp: blocked_slot_def)
    from blocked_slot_excludes [OF slots dist i this admit(1)] have "JobID j' \<noteq> JobID j" .
    then show ?case
      by (intro adds_call [OF admit(2) admitOne_adds]) (auto simp: admit_entry_def touches_def split: call.splits)
  qed (simp_all add: adds_then)
  then show "adds ?Q st (fst (admitHeldJobs e c order held snap st))"
    by (simp add: admitHeldJobs_def Let_def p1 p2)
  have "errs \<noteq> []" if failed: "res ! i = Prepared j d (Some err)" for err
  proof -
    have "Prepared j d (Some err) \<in> set res" unfolding failed [symmetric]
      by (rule nth_mem) (use i(1) list_all2_lengthD [OF slots] in simp)
    then have "failed res \<noteq> []" by (induction res rule: failed.induct) auto
    then show ?thesis using phase2_errs [of e snap res st1 "[]"] by (simp add: p2)
  qed
  moreover have "\<exists>s. snd (prepareJob e c snap j s) = Skipped" if "res ! i = Skipped"
    using at [of "\<lambda>p. p \<noteq> Skipped"] that by blast
  ultimately show "snd (admitHeldJobs e c order held snap st) \<noteq> None \<or> (\<exists>s. snd (prepareJob e c snap j s) = Skipped)"
    using slot by (auto simp: blocked_slot_def admitHeldJobs_def Let_def p1 p2)
qed

text \<open>C21: a reused job id does not inherit the previous job's JobSet. While the JobSet that was created for
  an earlier job of the same name, with another submit time (both times known), stands in the way of a held
  job, be it in the snapshot or only met when the creation fails, the pass neither pins nor releases nor
  comments the job, and it ends in an error, except that a job whose recreation was refused is passed over.\<close>

theorem reused_id_never_adopts:
  assumes "ToJobSet j0 c0 = Inr old" "ToJobSet j c = Inr d"
    and "usable_submit_time j0" "usable_submit_time j"
    and "nv_number (SubmitTime j0) \<noteq> nv_number (SubmitTime j)"
    and "stands_in_the_way (\<lambda>ex. map_of (js_annotations ex) SlurmSubmitTimeAnnotation
        = map_of (js_annotations old) SlurmSubmitTimeAnnotation) e snap d"
    and "List.member held j" "distinct (map JobID held)" "set order = {..<length held}"
  shows "\<exists>new. trace (fst (admitHeldJobs e c order held snap st)) = new @ trace st
    \<and> list_all (\<lambda>en. \<not> touches (JobID j) en) new
    \<and> (snd (admitHeldJobs e c order held snap st) \<noteq> None
       \<or> recreation_refused j \<and> map_of (ownedJobSets snap) (js_name d) = None)"
proof -
  have "stands_in_the_way (\<lambda>ex. \<not> jobSetIdentityMatches ex d) e snap d"
    using assms(6) other_incarnation_mismatch [OF assms(1-5)]
    unfolding stands_in_the_way_def by (auto split: option.splits sum.splits)
  note blocked = blocked_slot [OF assms(2) this]
  note pass = blocked_job_untouched [OF blocked assms(7-9)]
  have "recreation_refused j \<and> map_of (ownedJobSets snap) (js_name d) = None"
    if "snd (prepareJob e c snap j s) = Skipped" for s
    using that assms(2) blocked [of s] by (auto simp: blocked_slot_def prepareJob_result split: option.splits)
  then show ?thesis using pass [of st] unfolding adds_def by blast
qed

text \<open>Two clusters in which the JobSet of the earlier job 42 stands in the way: in the snapshot, and beside it.\<close>

definition stale_jobset :: jobset where
  "stale_jobset = projr (ToJobSet (example_job\<lparr>SubmitTime := some_val 1\<rparr>) example_config)"

definition stale_env :: env where
  "stale_env = calm_env\<lparr>ask := (\<lambda>_ c. case c of CreateJobSet d \<Rightarrow> Some AlreadyExists | _ \<Rightarrow> None),
     ask_jobset := (\<lambda>_ _. Inr stale_jobset)\<rparr>"

theorem reused_id_never_adopts_witness:
  "snd (admitHeldJobs calm_env example_config [0] [example_job]
     \<lparr>ownedJobSets = [(js_name example_jobset, stale_jobset)], workloadsByJobSet = (\<lambda>_. Some example_workload)\<rparr> New) \<noteq> None
   \<and> snd (admitHeldJobs stale_env example_config [0] [example_job]
     \<lparr>ownedJobSets = [], workloadsByJobSet = (\<lambda>_. Some example_workload)\<rparr> New) \<noteq> None"
proof -
  have old: "ToJobSet (example_job\<lparr>SubmitTime := some_val 1\<rparr>) example_config = Inr stale_jobset"
    by (simp add: stale_jobset_def ToJobSet_def PriorityClassFor_def example_config_def example_job_simps)
  have "\<not> recreation_refused example_job" by (simp add: recreation_refused_def example_job_simps)
  moreover have "stands_in_the_way (\<lambda>ex. map_of (js_annotations ex) SlurmSubmitTimeAnnotation
        = map_of (js_annotations stale_jobset) SlurmSubmitTimeAnnotation) e
      \<lparr>ownedJobSets = owned, workloadsByJobSet = ws\<rparr> example_jobset"
    if "e = calm_env \<and> owned = [(js_name example_jobset, stale_jobset)] \<or> e = stale_env \<and> owned = []" for e owned ws
    using that by (auto simp: stands_in_the_way_def stale_env_def)
  moreover have "usable_submit_time (example_job\<lparr>SubmitTime := some_val 1\<rparr>)" "usable_submit_time example_job"
    "nv_number (SubmitTime (example_job\<lparr>SubmitTime := some_val 1\<rparr>)) \<noteq> nv_number (SubmitTime example_job)"
    "List.member [example_job] example_job" "distinct (map JobID [example_job])" "set [0] = {..<length [example_job]}"
    by (auto simp: usable_submit_time_def example_job_simps List.member_iff)
  ultimately have "snd (admitHeldJobs e example_config [0] [example_job]
      \<lparr>ownedJobSets = owned, workloadsByJobSet = ws\<rparr> New) \<noteq> None"
    if "e = calm_env \<and> owned = [(js_name example_jobset, stale_jobset)] \<or> e = stale_env \<and> owned = []" for e owned ws
    using that reused_id_never_adopts [OF old example_jobset, where e = e and order = "[0]" and held = "[example_job]" and st = New
        and snap = "\<lparr>ownedJobSets = owned, workloadsByJobSet = ws\<rparr>"] by blast
  then show ?thesis by blast
qed

section \<open>Jobs on an unmanaged partition\<close>

definition unmanagedPartitionComment :: string where
  "unmanagedPartitionComment = ''wm: partition not managed by k8s-bridge''"

definition signalUnmanagedPartition :: "env \<Rightarrow> job \<Rightarrow> bridge \<Rightarrow> bridge" where
  "signalUnmanagedPartition e j st =
     (if Comment j = unmanagedPartitionComment then st
      else fst (perform e (SetComment (JobID j) unmanagedPartitionComment) st))"

lemma signalUnmanagedPartition_adds:
  "adds (only_comment (JobID j)) st (signalUnmanagedPartition e j st)"
  by (simp add: signalUnmanagedPartition_def only_comment_def perform_adds adds_then)

lemma signalUnmanagedPartition_simps [simp]:
  "seenAt (signalUnmanagedPartition e j st) = seenAt st"
  "orphanSeen (signalUnmanagedPartition e j st) = orphanSeen st"
  "commentState (signalUnmanagedPartition e j st) = commentState st"
  by (simp_all add: signalUnmanagedPartition_def perform_def Let_def)

text \<open>A signalled job is stranded. The comment that tells a user the partition is not managed also
  reads as the mark of a job whose JobSet was deleted: once the partition is mapped, the pass
  still creates no JobSet for the job, makes no call for it, and reports no error.\<close>

lemma signalled_job_is_never_created:
  assumes "Comment j = unmanagedPartitionComment" "ToJobSet j c = Inr d"
    and "map_of (ownedJobSets snap) (JobSetName (JobID j)) = None"
  shows "admitHeldJobs e c [0] [j] snap st = (st, None)"
proof -
  have "js_name d = JobSetName (JobID j)" by (rule ToJobSet_InrE [OF assms(2)])
  moreover have "recreation_refused j"
    by (simp add: recreation_refused_def assms(1) unmanagedPartitionComment_def HasPrefix_def)
  ultimately show ?thesis
    using assms(2,3) by (simp add: admitHeldJobs_def prepareJob_def)
qed

end
