(* ===== verification/Bridge_Cleanup.thy ===== *)
theory Bridge_Cleanup imports
  Bridge_Admit
begin

text \<open>
  Cleanup (\<open>cleanupFinishedJobs\<close> and its helpers in \<open>internal/bridge/reconciler.go\<close>): what happens
  to an owned JobSet, depending on its Slurm job. The pass ranges over a Go map, so it takes the
  JobSets in an arbitrary order, a list argument. A step works on its own copy of the JobSet,
  whose annotations it changes.
\<close>

section \<open>Dead JobSets\<close>

definition jobSetFailed :: "jobset \<Rightarrow> bool" where
  "jobSetFailed js = condition_true js ''Failed''"

definition jobSetCompleted :: "jobset \<Rightarrow> bool" where
  "jobSetCompleted js = condition_true js ''Completed''"

definition failureReason :: "jobset \<Rightarrow> string" where
  "failureReason js =
     (let completed = (if map_of (js_conditions js) ''Completed'' \<noteq> None
        then ''JobSet completed (slurmd pods exited) while the Slurm job was still non-terminal''
        else ''unknown'')
      in case map_of (js_conditions js) ''Failed'' of
           Some (status, msg) \<Rightarrow> if msg \<noteq> [] then msg else completed
         | None \<Rightarrow> completed)"

definition failJobForDeadJobSet :: "env \<Rightarrow> job \<Rightarrow> jobset \<Rightarrow> bridge \<Rightarrow> bridge \<times> bool" where
  "failJobForDeadJobSet e j js st =
     (let st1 = fst (perform e (SetComment (JobID j) (''wm: JobSet failed: '' @ failureReason js)) st) in
      case perform e (CancelSlurm (JobID j)) st1 of
        (st2, cancelErr) \<Rightarrow>
          (eventf e (js_name js) ''Warning'' ''JobSetFailed'' (inc ''JobsFailedTotal'' st2), cancelErr = None))"

section \<open>Retention\<close>

definition stampRetention :: "env \<Rightarrow> config \<Rightarrow> jobset \<Rightarrow> bridge \<Rightarrow> bridge \<times> jobset" where
  "stampRetention e c js st =
     (if FailedJobSetRetention c \<le> 0 then (st, js)
      else if map_of (js_annotations js) RetainUntilAnnotation \<noteq> None then (st, js)
      else let until = format_rfc3339 (clock e (trace st) + FailedJobSetRetention c);
               js1 = set_annotation RetainUntilAnnotation until js
        in (case perform e (PatchJobSet js1) st of
              (st1, Some err) \<Rightarrow> (st1, js)
            | (st1, None) \<Rightarrow> (eventf e (js_name js) ''Normal'' ''RetainedForInspection'' st1, js1)))"

definition markNodesReleased :: "env \<Rightarrow> jobset \<Rightarrow> bridge \<Rightarrow> bridge \<times> jobset" where
  "markNodesReleased e js st =
     (if annotation_of js NodesReleasedAnnotation = ''true'' then (st, js)
      else let js1 = set_annotation NodesReleasedAnnotation ''true'' js in
        (case perform e (PatchJobSet js1) st of
           (st1, Some err) \<Rightarrow> (st1, js\<lparr>js_annotations := AList.delete NodesReleasedAnnotation (js_annotations js)\<rparr>)
         | (st1, None) \<Rightarrow> (st1, js1)))"

definition retentionHolds :: "env \<Rightarrow> jobset \<Rightarrow> bridge \<Rightarrow> bool" where
  "retentionHolds e js st =
     (case map_of (js_annotations js) RetainUntilAnnotation of
        None \<Rightarrow> False
      | Some raw \<Rightarrow>
          (case parse_rfc3339 raw of None \<Rightarrow> False | Some until \<Rightarrow> clock e (trace st) < until))"

section \<open>Nodes\<close>

definition jobSetParallelism :: "jobset \<Rightarrow> i32" where
  "jobSetParallelism js =
     (case js_replicated js of
        [] \<Rightarrow> 1
      | rj # rjs \<Rightarrow> (case jt_parallelism (rj_template rj) of Some p \<Rightarrow> p | None \<Rightarrow> 1))"

definition isNotFound :: "error \<Rightarrow> bool" where
  "isNotFound err \<longleftrightarrow> api_status err = Some 404"

text \<open>The loops over the node names: how many were deleted; whether all deletes came back clean.\<close>

fun drain_nodes :: "env \<Rightarrow> string list \<Rightarrow> nat \<Rightarrow> bridge \<Rightarrow> bridge \<times> nat" where
  "drain_nodes e [] n st = (st, n)"
| "drain_nodes e (node # nodes) n st =
     (case perform e (DeleteSlurmNode node) st of
        (st1, None) \<Rightarrow> drain_nodes e nodes (Suc n) st1
      | (st1, Some err) \<Rightarrow> drain_nodes e nodes n st1)"

fun delete_nodes :: "env \<Rightarrow> string list \<Rightarrow> bool \<Rightarrow> bridge \<Rightarrow> bridge \<times> bool" where
  "delete_nodes e [] clean st = (st, clean)"
| "delete_nodes e (node # nodes) clean st =
     (case perform e (DeleteSlurmNode node) st of
        (st1, None) \<Rightarrow> delete_nodes e nodes clean st1
      | (st1, Some err) \<Rightarrow> delete_nodes e nodes False st1)"

definition drainPreemptedNodes :: "env \<Rightarrow> job \<Rightarrow> jobset \<Rightarrow> bridge \<Rightarrow> bridge" where
  "drainPreemptedNodes e j js st =
     (case drain_nodes e (NodeNames (JobID j) (jobSetParallelism js)) 0 st of
        (st1, drained) \<Rightarrow>
          if drained > 0
          then eventf e (js_name js) ''Normal'' ''PreemptionDrain'' (inc ''PreemptionDrainsTotal'' st1)
          else st1)"

section \<open>One JobSet\<close>

text \<open>A JobSet whose job is alive: drain on preemption, then the priority channels.\<close>

definition maintainLive :: "env \<Rightarrow> config \<Rightarrow> snapshot \<Rightarrow> job \<Rightarrow> jobset \<Rightarrow> bridge \<Rightarrow> bridge" where
  "maintainLive e c snap j js st =
     (let wl = workloadsByJobSet snap (js_name js);
          st1 = (if DrainOnPreemption c \<and> \<not> IsHeld j \<and> IsEvicted wl \<and> \<not> IsAdmitted wl
                 then drainPreemptedNodes e j js st else st);
          st2 = applyPriorityDirective e j wl st1
      in if EnablePrioritySync c then fst (syncPriority e js j wl st2) else st2)"

text \<open>Node records first, then the retention gate, then the JobSet.\<close>

definition releaseNodes :: "env \<Rightarrow> u64 \<Rightarrow> bool \<Rightarrow> jobset \<Rightarrow> bridge \<Rightarrow> bridge \<times> jobset" where
  "releaseNodes e i found js st =
     (if annotation_of js NodesReleasedAnnotation = ''true'' then (st, js)
      else (case delete_nodes e (NodeNames i (jobSetParallelism js)) True st of
         (st1, clean) \<Rightarrow>
           if (clean \<or> \<not> found) \<and> retentionHolds e js st1 then markNodesReleased e js st1 else (st1, js)))"

definition removeJobSet :: "env \<Rightarrow> u64 \<Rightarrow> bool \<Rightarrow> jobset \<Rightarrow> bridge \<Rightarrow> bridge" where
  "removeJobSet e i found js st =
     (case releaseNodes e i found js st of
        (st1, js1) \<Rightarrow>
          if retentionHolds e js1 st1 then st1
          else (case perform e (DeleteJobSet (js_name js1)) st1 of
              (st2, r) \<Rightarrow>
                if (case r of None \<Rightarrow> True | Some err \<Rightarrow> is_kube_not_found err)
                then inc ''JobSetsDeletedTotal'' st2 else st2))"

text \<open>A dead JobSet under a live job: the job is failed, and only a cancelled job's JobSet is removed.\<close>

definition failDead :: "env \<Rightarrow> config \<Rightarrow> u64 \<Rightarrow> job \<Rightarrow> jobset \<Rightarrow> bridge \<Rightarrow> bridge" where
  "failDead e c i j js st =
     (case stampRetention e c js st of (st1, js1) \<Rightarrow>
      case failJobForDeadJobSet e j js1 st1 of (st2, cancelled) \<Rightarrow>
        if \<not> cancelled then st2 else removeJobSet e i True js1 st2)"

definition cleanupKnown :: "env \<Rightarrow> config \<Rightarrow> snapshot \<Rightarrow> u64 \<Rightarrow> job option \<Rightarrow> jobset \<Rightarrow> bridge \<Rightarrow> bridge" where
  "cleanupKnown e c snap i jo js st =
     (case jo of
        None \<Rightarrow> removeJobSet e i False js st
      | Some j \<Rightarrow>
          if IsTerminal j then removeJobSet e i True js st
          else if jobSetFailed js \<or> jobSetCompleted js then failDead e c i j js st
          else maintainLive e c snap j js st)"

definition cleanupOne :: "env \<Rightarrow> config \<Rightarrow> snapshot \<Rightarrow> (u64 \<rightharpoonup> job) \<Rightarrow> jobset \<Rightarrow> bridge \<Rightarrow> bridge \<times> error option" where
  "cleanupOne e c snap byID js st =
     (case ParseUint (label_of js SlurmJobIDLabel) 64 of
        None \<Rightarrow> (st, None)
      | Some n \<Rightarrow>
     (case byID (of_nat n) of
        Some j \<Rightarrow> (cleanupKnown e c snap (of_nat n) (Some j) js st, None)
      | None \<Rightarrow>
          (case get_job e (of_nat n) st of
             (st1, Inl err) \<Rightarrow> (st1, Some (Wrap ''checking slurm job'' err))
           | (st1, Inr jo) \<Rightarrow> (cleanupKnown e c snap (of_nat n) jo js st1, None))))"

fun cleanup_loop :: "env \<Rightarrow> config \<Rightarrow> snapshot \<Rightarrow> (u64 \<rightharpoonup> job) \<Rightarrow> jobset list \<Rightarrow> bridge \<Rightarrow> error list \<Rightarrow> bridge \<times> error list" where
  "cleanup_loop e c snap byID [] st errs = (st, errs)"
| "cleanup_loop e c snap byID (js # jss) st errs =
     (case cleanupOne e c snap byID js st of
        (st1, None) \<Rightarrow> cleanup_loop e c snap byID jss st1 errs
      | (st1, Some err) \<Rightarrow> cleanup_loop e c snap byID jss st1 (errs @ [err]))"

section \<open>What the steps add to the log\<close>

definition remove_entry :: "u64 \<Rightarrow> jobset \<Rightarrow> entry \<Rightarrow> bool" where
  "remove_entry i js en \<longleftrightarrow>
     (case fst en of
        DeleteSlurmNode n \<Rightarrow> List.member (NodeNames i (jobSetParallelism js)) n
      | PatchJobSet js' \<Rightarrow> js_name js' = js_name js
      | DeleteJobSet n \<Rightarrow> n = js_name js
      | _ \<Rightarrow> False)"

lemma delete_nodes_adds:
  "adds P s0 st \<Longrightarrow> list_all (\<lambda>n. \<forall>r. P (DeleteSlurmNode n, r)) nodes \<Longrightarrow> adds P s0 (fst (delete_nodes e nodes clean st))"
  by (induction e nodes clean st rule: delete_nodes.induct)
    (auto simp: perform_def Let_def adds_then split: option.splits prod.splits)

lemma drain_nodes_adds:
  "adds P s0 st \<Longrightarrow> list_all (\<lambda>n. \<forall>r. P (DeleteSlurmNode n, r)) nodes \<Longrightarrow> adds P s0 (fst (drain_nodes e nodes n st))"
  by (induction e nodes n st rule: drain_nodes.induct)
    (auto simp: perform_def Let_def adds_then split: option.splits prod.splits)

lemma markNodesReleased_adds:
  "adds P s0 st \<Longrightarrow> (\<And>js' r. js_name js' = js_name js \<Longrightarrow> P (PatchJobSet js', r)) \<Longrightarrow>
   adds P s0 (fst (markNodesReleased e js st))"
  by (simp add: markNodesReleased_def perform_def Let_def adds_then split: option.split)

lemma markNodesReleased_jobset:
  "js_name (snd (markNodesReleased e js st)) = js_name js"
  "map_of (js_annotations (snd (markNodesReleased e js st))) RetainUntilAnnotation =
     map_of (js_annotations js) RetainUntilAnnotation"
  by (auto simp: markNodesReleased_def perform_def Let_def label_names delete_conv' split: option.split)

lemma releaseNodes_adds: "adds (remove_entry i js) st (fst (releaseNodes e i found js st))"
proof -
  obtain st1 clean where d: "delete_nodes e (NodeNames i (jobSetParallelism js)) True st = (st1, clean)"
    by (rule prod.exhaust)
  have "adds (remove_entry i js) st (fst (delete_nodes e (NodeNames i (jobSetParallelism js)) True st))"
    by (rule delete_nodes_adds) (auto simp: adds_then remove_entry_def list_all_iff)
  then have "adds (remove_entry i js) st st1" by (simp add: d)
  then show ?thesis
    by (auto simp: releaseNodes_def d adds_then remove_entry_def intro!: markNodesReleased_adds)
qed

lemma releaseNodes_jobset:
  "js_name (snd (releaseNodes e i found js st)) = js_name js"
  "map_of (js_annotations (snd (releaseNodes e i found js st))) RetainUntilAnnotation =
     map_of (js_annotations js) RetainUntilAnnotation"
  by (auto simp: releaseNodes_def markNodesReleased_jobset split: prod.split)

lemma removeJobSet_adds: "adds (remove_entry i js) st (removeJobSet e i found js st)"
proof -
  obtain st1 js1 where r: "releaseNodes e i found js st = (st1, js1)" by (rule prod.exhaust)
  have "adds (remove_entry i js) st st1" using releaseNodes_adds [of i js st e found] by (simp add: r)
  moreover have "js_name js1 = js_name js" using releaseNodes_jobset(1) [of e i found js st] by (simp add: r)
  ultimately show ?thesis
    by (simp add: removeJobSet_def r perform_def Let_def adds_then remove_entry_def)
qed

lemma failJob_trace:
  "\<exists>evs r r'. trace (fst (failJobForDeadJobSet e j js st)) = evs @ (CancelSlurm (JobID j), r) #
       (SetComment (JobID j) (''wm: JobSet failed: '' @ failureReason js), r') # trace st
     \<and> list_all (\<lambda>en. case fst en of Emit n ty rs \<Rightarrow> True | _ \<Rightarrow> False) evs
     \<and> (snd (failJobForDeadJobSet e j js st) \<longleftrightarrow> r = None)"
  by (auto simp: failJobForDeadJobSet_def perform_def eventf_def Let_def
      intro: exI [of _ "[]"] exI [of _ "[(Emit (js_name js) ''Warning'' ''JobSetFailed'', None)]"])

lemma stampRetention_adds:
  "adds P s0 st \<Longrightarrow> (\<And>js' r. js_name js' = js_name js \<Longrightarrow> P (PatchJobSet js', r)) \<Longrightarrow>
   (\<And>n ty rs. P (Emit n ty rs, None)) \<Longrightarrow> adds P s0 (fst (stampRetention e c js st))"
  by (simp add: stampRetention_def perform_def Let_def adds_then split: option.split)

lemma stampRetention_jobset:
  "js_name (snd (stampRetention e c js st)) = js_name js"
  "js_replicated (snd (stampRetention e c js st)) = js_replicated js"
  "jobSetFailed (snd (stampRetention e c js st)) = jobSetFailed js"
  by (auto simp: stampRetention_def perform_def Let_def jobSetFailed_def split: option.split)

text \<open>
  A live JobSet: the directive, the sync when it is enabled, and its node records on a preemption that
  the gate lets through.
\<close>

definition drain_allowed :: "config \<Rightarrow> snapshot \<Rightarrow> job \<Rightarrow> jobset \<Rightarrow> bool" where
  "drain_allowed c snap j js \<longleftrightarrow>
     DrainOnPreemption c \<and> \<not> IsHeld j \<and> IsEvicted (workloadsByJobSet snap (js_name js))
     \<and> \<not> IsAdmitted (workloadsByJobSet snap (js_name js))"

definition live_entry :: "config \<Rightarrow> snapshot \<Rightarrow> job \<Rightarrow> jobset \<Rightarrow> entry \<Rightarrow> bool" where
  "live_entry c snap j js en \<longleftrightarrow>
     directive_entry j (workloadsByJobSet snap (js_name js)) en
     \<or> EnablePrioritySync c \<and> sync_entry js j (workloadsByJobSet snap (js_name js)) en
     \<or> (case fst en of
          DeleteSlurmNode n \<Rightarrow> drain_allowed c snap j js \<and> List.member (NodeNames (JobID j) (jobSetParallelism js)) n
        | Emit n ty rs \<Rightarrow> drain_allowed c snap j js
        | _ \<Rightarrow> False)"

lemma drainPreemptedNodes_adds:
  assumes "drain_allowed c snap j js"
  shows "adds (live_entry c snap j js) st (drainPreemptedNodes e j js st)"
proof -
  obtain st1 n where d: "drain_nodes e (NodeNames (JobID j) (jobSetParallelism js)) 0 st = (st1, n)"
    by (rule prod.exhaust)
  have "adds (live_entry c snap j js) st (fst (drain_nodes e (NodeNames (JobID j) (jobSetParallelism js)) 0 st))"
    by (rule drain_nodes_adds) (auto simp: adds_then live_entry_def list_all_iff assms)
  then show ?thesis by (simp add: drainPreemptedNodes_def d adds_then live_entry_def assms)
qed

lemma maintainLive_adds: "adds (live_entry c snap j js) st (maintainLive e c snap j js st)"
proof -
  define st1 where "st1 = (if drain_allowed c snap j js then drainPreemptedNodes e j js st else st)"
  let ?wl = "workloadsByJobSet snap (js_name js)"
  have "adds (live_entry c snap j js) st st1"
    by (simp add: st1_def drainPreemptedNodes_adds adds_then)
  then have "adds (live_entry c snap j js) st (applyPriorityDirective e j ?wl st1)"
    by (rule adds_call [OF _ applyPriorityDirective_adds]) (simp add: live_entry_def)
  moreover from this have "adds (live_entry c snap j js) st (fst (syncPriority e js j ?wl (applyPriorityDirective e j ?wl st1)))"
    if "EnablePrioritySync c" by (rule adds_call [OF _ syncPriority_adds]) (simp add: live_entry_def that)
  ultimately show ?thesis
    by (simp add: maintainLive_def Let_def st1_def drain_allowed_def)
qed

section \<open>Deletion only with a reason\<close>

text \<open>What the pass knows of the job: the listing first, a direct read only when it is not listed.\<close>

definition job_knowledge :: "env \<Rightarrow> (u64 \<rightharpoonup> job) \<Rightarrow> u64 \<Rightarrow> bridge \<Rightarrow> error + job option" where
  "job_knowledge e byID i st = (case byID i of Some j \<Rightarrow> Inr (Some j) | None \<Rightarrow> ask_job e (trace st) i)"

definition known_state :: "(u64 \<rightharpoonup> job) \<Rightarrow> env \<Rightarrow> u64 \<Rightarrow> bridge \<Rightarrow> bridge" where
  "known_state byID e i st = (if byID i = None then fst (get_job e i st) else st)"

lemma cleanupOne_unfold:
  "ParseUint (label_of js SlurmJobIDLabel) 64 = Some n \<Longrightarrow>
   cleanupOne e c snap byID js st =
     (case job_knowledge e byID (of_nat n) st of
        Inl err \<Rightarrow> (known_state byID e (of_nat n) st, Some (Wrap ''checking slurm job'' err))
      | Inr jo \<Rightarrow> (cleanupKnown e c snap (of_nat n) jo js (known_state byID e (of_nat n) st), None))"
  by (auto simp: cleanupOne_def job_knowledge_def known_state_def get_job_def Let_def
      split: option.split sum.split)

lemma known_state_trace:
  "\<exists>pre. trace (known_state byID e i st) = pre @ trace st \<and> list_all (\<lambda>en. fst en = GetSlurmJob i) pre"
  by (auto simp: known_state_def get_job_def Let_def intro: exI [of _ "[]"])

definition deletes :: "string \<Rightarrow> entry \<Rightarrow> bool" where
  "deletes n en \<longleftrightarrow> fst en = DeleteJobSet n"

lemma live_entry_no_delete: "live_entry c snap j js en \<Longrightarrow> \<not> deletes n en"
  by (auto simp: live_entry_def directive_entry_def sync_entry_def deletes_def split: call.splits option.splits)

text \<open>The branches of \<open>cleanupKnown\<close>: remove, fail and maybe remove, maintain.\<close>

definition justified :: "jobset \<Rightarrow> job option \<Rightarrow> entry list \<Rightarrow> bool" where
  "justified js jo new \<longleftrightarrow>
     (case jo of None \<Rightarrow> True
      | Some j \<Rightarrow> IsTerminal j \<or> ((jobSetFailed js \<or> jobSetCompleted js) \<and> (CancelSlurm (JobID j), None) \<in> set new))"

lemma removeJobSet_new:
  "\<exists>new. trace (removeJobSet e i found js st) = new @ trace st
     \<and> (\<forall>n r. (DeleteJobSet n, r) \<in> set new \<longrightarrow> n = js_name js)"
proof -
  obtain new where "trace (removeJobSet e i found js st) = new @ trace st" "list_all (remove_entry i js) new"
    using removeJobSet_adds [of i js st e found] by (auto simp: adds_def)
  then show ?thesis by (force simp: list_all_iff remove_entry_def)
qed

lemma failDead_new:
  "\<exists>new. trace (failDead e c i j js st) = new @ trace st
     \<and> (\<forall>n r. (DeleteJobSet n, r) \<in> set new \<longrightarrow> n = js_name js \<and> (CancelSlurm (JobID j), None) \<in> set new)"
proof -
  obtain st1 js1 where s: "stampRetention e c js st = (st1, js1)" by (rule prod.exhaust)
  obtain st2 ok where f: "failJobForDeadJobSet e j js1 st1 = (st2, ok)" by (rule prod.exhaust)
  have name: "js_name js1 = js_name js" using stampRetention_jobset(1) [of e c js st] by (simp add: s)
  have "adds (\<lambda>en. \<forall>n. \<not> deletes n en) st (fst (stampRetention e c js st))"
    by (rule stampRetention_adds) (auto simp: adds_then deletes_def)
  then obtain n1 where n1: "trace st1 = n1 @ trace st" "list_all (\<lambda>en. \<forall>n. \<not> deletes n en) n1"
    by (auto simp: s adds_def)
  obtain evs r r' where n2: "trace st2 = evs @ (CancelSlurm (JobID j), r) #
      (SetComment (JobID j) (''wm: JobSet failed: '' @ failureReason js1), r') # trace st1"
    "list_all (\<lambda>en. case fst en of Emit n ty rs \<Rightarrow> True | _ \<Rightarrow> False) evs" "ok \<longleftrightarrow> r = None"
    using failJob_trace [of e j js1 st1] by (auto simp: f)
  obtain n3 where n3: "trace (removeJobSet e i True js1 st2) = n3 @ trace st2"
    "\<forall>n r. (DeleteJobSet n, r) \<in> set n3 \<longrightarrow> n = js_name js"
    using removeJobSet_new [of e i True js1 st2] by (auto simp: name)
  have kept: "(DeleteJobSet n, r'') \<notin> set evs" "(DeleteJobSet n, r'') \<notin> set n1" for n r''
    using n1(2) n2(2) by (auto simp: list_all_iff deletes_def)
  let ?mid = "evs @ (CancelSlurm (JobID j), r) #
      (SetComment (JobID j) (''wm: JobSet failed: '' @ failureReason js1), r') # n1"
  show ?thesis
  proof (cases ok)
    case True
    with n1(1) n2(1,3) n3 kept show ?thesis
      by (intro exI [of _ "n3 @ ?mid"]) (auto simp: failDead_def s f)
  next
    case False
    with n1(1) n2(1,3) kept show ?thesis
      by (intro exI [of _ ?mid]) (auto simp: failDead_def s f)
  qed
qed

lemma maintainLive_new:
  "\<exists>new. trace (maintainLive e c snap j js st) = new @ trace st \<and> (\<forall>n r. (DeleteJobSet n, r) \<notin> set new)"
proof -
  obtain new where "trace (maintainLive e c snap j js st) = new @ trace st" "list_all (live_entry c snap j js) new"
    using maintainLive_adds [of c snap j js st e] by (auto simp: adds_def)
  then show ?thesis using live_entry_no_delete by (force simp: list_all_iff deletes_def)
qed

lemma cleanupKnown_new:
  "\<exists>new. trace (cleanupKnown e c snap i jo js st) = new @ trace st
     \<and> (\<forall>n r. (DeleteJobSet n, r) \<in> set new \<longrightarrow> n = js_name js \<and> justified js jo new)"
proof (cases jo)
  case None
  then show ?thesis using removeJobSet_new [of e i False js st] by (auto simp: cleanupKnown_def justified_def)
next
  case (Some j)
  consider (terminal) "IsTerminal j" | (dead) "\<not> IsTerminal j" "jobSetFailed js \<or> jobSetCompleted js"
    | (live) "\<not> IsTerminal j" "\<not> (jobSetFailed js \<or> jobSetCompleted js)" by blast
  then show ?thesis
  proof cases
    case terminal
    then show ?thesis using removeJobSet_new [of e i True js st]
      by (auto simp: Some cleanupKnown_def justified_def)
  next
    case dead
    then show ?thesis using failDead_new [of e c i j js st]
      by (auto simp: Some cleanupKnown_def justified_def)
  next
    case live
    then show ?thesis using maintainLive_new [of e c snap j js st]
      by (auto simp: Some cleanupKnown_def)
  qed
qed

section \<open>Properties\<close>

text \<open>No JobSet is deleted without evidence. A step of the cleanup deletes nothing but its own
  JobSet, and only if the job is known to be terminal, or known to be gone, or the JobSet itself
  is dead and the cancel of its job has just succeeded. When the lookup of the job failed, or the
  cancel did, the JobSet stays, and with it the record of which job to retry.\<close>

lemma jobset_deleted_only_with_evidence:
  assumes "ParseUint (label_of js SlurmJobIDLabel) 64 = Some k"
    and "trace (fst (cleanupOne e c snap byID js st)) = new @ trace st" "(DeleteJobSet n, r) \<in> set new"
  shows "n = js_name js
    \<and> (case job_knowledge e byID (of_nat k) st of
         Inl err \<Rightarrow> False
       | Inr None \<Rightarrow> True
       | Inr (Some j) \<Rightarrow> IsTerminal j
           \<or> ((jobSetFailed js \<or> jobSetCompleted js) \<and> (CancelSlurm (JobID j), None) \<in> set new))"
proof -
  let ?st0 = "known_state byID e (of_nat k) st"
  obtain pre where pre: "trace ?st0 = pre @ trace st" "list_all (\<lambda>en. fst en = GetSlurmJob (of_nat k)) pre"
    using known_state_trace by blast
  then have not_pre: "(DeleteJobSet n, r) \<notin> set pre" by (auto simp: list_all_iff)
  show ?thesis
  proof (cases "job_knowledge e byID (of_nat k) st")
    case (Inl err)
    then have "new = pre" using assms(2) pre(1) by (simp add: cleanupOne_unfold [OF assms(1)])
    with not_pre assms(3) show ?thesis by simp
  next
    case (Inr jo)
    obtain nw where nw: "trace (cleanupKnown e c snap (of_nat k) jo js ?st0) = nw @ trace ?st0"
      "\<forall>n r. (DeleteJobSet n, r) \<in> set nw \<longrightarrow> n = js_name js \<and> justified js jo nw"
      using cleanupKnown_new by blast
    then have "new = nw @ pre" using assms(2) pre(1) Inr by (simp add: cleanupOne_unfold [OF assms(1)])
    with nw(2) not_pre assms(3) show ?thesis
      by (auto simp: Inr justified_def split: option.splits)
  qed
qed

lemma removeJobSet_deletes:
  assumes "map_of (js_annotations js) RetainUntilAnnotation = None"
  shows "\<exists>new r. trace (removeJobSet e i found js st) = (DeleteJobSet (js_name js), r) # new @ trace st"
proof -
  obtain st1 js1 where r: "releaseNodes e i found js st = (st1, js1)" by (rule prod.exhaust)
  have "js_name js1 = js_name js" "map_of (js_annotations js1) RetainUntilAnnotation = None"
    using releaseNodes_jobset [of e i found js st] assms by (simp_all add: r)
  moreover obtain n1 where "trace st1 = n1 @ trace st"
    using releaseNodes_adds [of i js st e found] by (auto simp: r adds_def)
  ultimately show ?thesis
    by (auto simp: removeJobSet_def r retentionHolds_def perform_def Let_def)
qed



text \<open>C40: the retention window. A stamped JobSet is held exactly until the configured window after the
  stamp is over, counted in whole seconds: never longer than configured, at most a second less.
  A stamp that does not parse holds nothing, and a second stamp does not move the first.\<close>

theorem retention_window_exact:
  assumes "stampRetention e c js st = (st1, js1)" "0 < FailedJobSetRetention c"
    and "map_of (js_annotations js) RetainUntilAnnotation = None"
    and "ask e (trace st) (PatchJobSet (set_annotation RetainUntilAnnotation
           (format_rfc3339 (clock e (trace st) + FailedJobSetRetention c)) js)) = None"
    and "0 \<le> clock e (trace st)" "four_digit_year (clock e (trace st) + FailedJobSetRetention c)"
  shows "(retentionHolds e js1 later \<longleftrightarrow>
      clock e (trace later) < (clock e (trace st) + FailedJobSetRetention c) div second * second)
    \<and> stampRetention e' c' js1 later = (later, js1)"
proof -
  let ?until = "clock e (trace st) + FailedJobSetRetention c"
  have "map_of (js_annotations js1) RetainUntilAnnotation = Some (format_rfc3339 ?until)"
    using assms(1-4) by (auto simp: stampRetention_def perform_def Let_def)
  moreover have "parse_rfc3339 (format_rfc3339 ?until) = Some (?until div second * second)"
    using assms(2,5,6) by (intro parse_format_rfc3339) simp_all
  ultimately show ?thesis by (simp add: retentionHolds_def stampRetention_def)
qed

theorem retention_window_exact_witness:
  "let js1 = snd (stampRetention calm_env (example_config\<lparr>FailedJobSetRetention := 3600 * second\<rparr>) example_jobset New)
   in retentionHolds calm_env js1 New
    \<and> \<not> retentionHolds (calm_env\<lparr>clock := \<lambda>h. if h = [] then 1000 * second else 5000 * second\<rparr>) js1
         (record_call ListJobs None New)"
proof -
  let ?c = "example_config\<lparr>FailedJobSetRetention := 3600 * second\<rparr>"
  let ?e = "calm_env\<lparr>clock := \<lambda>h. if h = [] then 1000 * second else 5000 * second\<rparr>"
  have none: "map_of (js_annotations example_jobset) RetainUntilAnnotation = None"
    by (rule ToJobSet_InrE [OF example_jobset]; simp add: example_job_simps submitTimeAnnotation_def;
        simp add: label_names)
  have year: "four_digit_year (4600 * second)"
    by (simp add: four_digit_year_def second_def split_year.simps year_len_def is_leap_def)
  have same: "stampRetention ?e ?c example_jobset New = stampRetention calm_env ?c example_jobset New"
    by (simp add: stampRetention_def perform_def eventf_def calm_env_def New_def)
  obtain st1 js1 where s: "stampRetention calm_env ?c example_jobset New = (st1, js1)" by (rule prod.exhaust)
  have "retentionHolds calm_env js1 New"
    using retention_window_exact [OF s, of New calm_env ?c] none year
    by (simp add: calm_env_def example_config_def second_def)
  moreover have "\<not> retentionHolds ?e js1 (record_call ListJobs None New)"
    using retention_window_exact [OF s [folded same], of "record_call ListJobs None New" calm_env ?c] none year
    by (simp add: calm_env_def example_config_def second_def New_def)
  ultimately show ?thesis by (simp add: s Let_def)
qed

end
