(* ===== verification/Bridge_Orphans.thy ===== *)
theory Bridge_Orphans imports
  Bridge_Cleanup
begin

text \<open>
  Orphan cancellation (\<open>cancelOrphanedJobs\<close> in \<open>internal/bridge/reconciler.go\<close>) and the whole cleanup
  pass. The scan ranges over the map of listed jobs, so it takes the jobs in an arbitrary order.
  The source compares the candidate fraction in floating point; both counts are far below \<open>2^53\<close>
  and the factor is a half, so the comparison is exact and is written on integers.
\<close>

section \<open>The scan\<close>

definition bridgeCommentPrefix :: string where
  "bridgeCommentPrefix = ''wm:''"

definition in_scope :: "config \<Rightarrow> job \<Rightarrow> bool" where
  "in_scope c j \<longleftrightarrow>
     \<not> (IsTerminal j \<or> (IsHeld j \<and> (Comment j = [] \<or> HasPrefix (Comment j) ''wm: held'')))
     \<and> PriorityClassFor c (Partition j) \<noteq> None
     \<and> HasPrefix (Comment j) bridgeCommentPrefix"

definition has_jobset :: "snapshot \<Rightarrow> job \<Rightarrow> bool" where
  "has_jobset snap j \<longleftrightarrow> map_of (ownedJobSets snap) (JobSetName (JobID j)) \<noteq> None"

text \<open>The loop's accumulators: the counters, the managed count, the candidates in order.\<close>

fun scanOrphans :: "config \<Rightarrow> snapshot \<Rightarrow> job list \<Rightarrow> (u64 \<rightharpoonup> int) \<Rightarrow> nat \<Rightarrow> job list \<Rightarrow>
    (u64 \<rightharpoonup> int) \<times> nat \<times> job list" where
  "scanOrphans c snap [] seen managed cands = (seen, managed, cands)"
| "scanOrphans c snap (j # js) seen managed cands =
     (if \<not> in_scope c j then scanOrphans c snap js seen managed cands
      else if has_jobset snap j then scanOrphans c snap js (seen(JobID j := None)) (Suc managed) cands
      else scanOrphans c snap js seen (Suc managed) (cands @ [j]))"

section \<open>Cancelling\<close>

text \<open>Go's \<open>m[k]++\<close> starts from the zero value.\<close>

definition bump :: "(u64 \<rightharpoonup> int) \<Rightarrow> u64 \<Rightarrow> int" where
  "bump seen i = (case seen i of None \<Rightarrow> 0 | Some n \<Rightarrow> n) + 1"

definition cancelOrphan :: "env \<Rightarrow> config \<Rightarrow> job \<Rightarrow> bridge \<Rightarrow> bridge" where
  "cancelOrphan e c j st =
     (let n = bump (orphanSeen st) (JobID j);
          st1 = st\<lparr>orphanSeen := (orphanSeen st)(JobID j \<mapsto> n)\<rparr>
      in if n < OrphanGraceTicks c then st1
         else (case perform e (CancelSlurm (JobID j)) st1 of
             (st2, Some err) \<Rightarrow> st2
           | (st2, None) \<Rightarrow>
               let st3 = fst (delete_nodes e (NodeNames (JobID j) (PodCount j)) True
                                (inc ''OrphanedJobsCancelledTotal'' st2))
               in st3\<lparr>orphanSeen := (orphanSeen st3)(JobID j := None)\<rparr>))"

definition pruneOrphans :: "(u64 \<rightharpoonup> job) \<Rightarrow> bridge \<Rightarrow> bridge" where
  "pruneOrphans byID st = st\<lparr>orphanSeen := (\<lambda>i. if byID i = None then None else orphanSeen st i)\<rparr>"

definition too_many :: "nat \<Rightarrow> nat \<Rightarrow> bool" where
  "too_many cands managed \<longleftrightarrow> managed \<le> 2 * cands"

definition cancelOrphanedJobs :: "env \<Rightarrow> config \<Rightarrow> snapshot \<Rightarrow> (u64 \<rightharpoonup> job) \<Rightarrow> job list \<Rightarrow> bridge \<Rightarrow> bridge" where
  "cancelOrphanedJobs e c snap byID jobs st =
     (let st1 = pruneOrphans byID st in
      if \<not> CancelOrphanedJobs c then st1
      else case scanOrphans c snap jobs (orphanSeen st1) 0 [] of
        (seen, managed, cands) \<Rightarrow>
          let st2 = st1\<lparr>orphanSeen := seen\<rparr> in
          if cands = [] then st2
          else if ownedJobSets snap = [] then st2
          else if too_many (length cands) managed then inc ''OrphanCancellationsRefusedTotal'' st2
          else fold (cancelOrphan e c) cands st2)"

section \<open>The whole cleanup pass\<close>

definition cleanupFinishedJobs :: "env \<Rightarrow> config \<Rightarrow> snapshot \<Rightarrow> (u64 \<rightharpoonup> job) \<Rightarrow> jobset list \<Rightarrow> job list \<Rightarrow> bridge \<Rightarrow>
    bridge \<times> error option" where
  "cleanupFinishedJobs e c snap byID jss jobs st =
     (case cleanup_loop e c snap byID jss st [] of
        (st1, errs) \<Rightarrow>
          (cancelOrphanedJobs e c snap byID jobs st1, if errs = [] then None else Some (Joined errs)))"

section \<open>The scan in closed form\<close>

definition candidates :: "config \<Rightarrow> snapshot \<Rightarrow> job list \<Rightarrow> job list" where
  "candidates c snap jobs = filter (\<lambda>j. in_scope c j \<and> \<not> has_jobset snap j) jobs"

definition managed_jobs :: "config \<Rightarrow> job list \<Rightarrow> job list" where
  "managed_jobs c jobs = filter (in_scope c) jobs"

definition reset_seen :: "config \<Rightarrow> snapshot \<Rightarrow> job list \<Rightarrow> (u64 \<rightharpoonup> int) \<Rightarrow> (u64 \<rightharpoonup> int)" where
  "reset_seen c snap jobs seen =
     (\<lambda>i. if list_ex (\<lambda>j. JobID j = i \<and> in_scope c j \<and> has_jobset snap j) jobs then None else seen i)"

lemma scanOrphans_eq:
  "scanOrphans c snap jobs seen managed cands =
     (reset_seen c snap jobs seen, managed + length (managed_jobs c jobs), cands @ candidates c snap jobs)"
proof (induction jobs arbitrary: seen managed cands)
  case (Cons j js)
  have "reset_seen c snap js (seen(JobID j := None)) = reset_seen c snap (j # js) seen"
    if "in_scope c j" "has_jobset snap j"
    using that by (auto simp: reset_seen_def)
  moreover have "reset_seen c snap js seen = reset_seen c snap (j # js) seen"
    if "\<not> (in_scope c j \<and> has_jobset snap j)"
    using that by (auto simp: reset_seen_def)
  ultimately show ?case
    using Cons.IH [of "seen(JobID j := None)" "Suc managed" cands] Cons.IH [of seen]
    by (cases "in_scope c j"; cases "has_jobset snap j") (simp_all add: managed_jobs_def candidates_def fun_upd_def)
qed (simp add: reset_seen_def managed_jobs_def candidates_def)

text \<open>The pass acts only when all four guards let it through.\<close>

definition pass_allowed :: "config \<Rightarrow> snapshot \<Rightarrow> job list \<Rightarrow> bool" where
  "pass_allowed c snap jobs \<longleftrightarrow>
     CancelOrphanedJobs c \<and> candidates c snap jobs \<noteq> [] \<and> ownedJobSets snap \<noteq> []
     \<and> 2 * length (candidates c snap jobs) < length (managed_jobs c jobs)"

definition scanned :: "config \<Rightarrow> snapshot \<Rightarrow> (u64 \<rightharpoonup> job) \<Rightarrow> job list \<Rightarrow> bridge \<Rightarrow> bridge" where
  "scanned c snap byID jobs st =
     (pruneOrphans byID st)\<lparr>orphanSeen := reset_seen c snap jobs (orphanSeen (pruneOrphans byID st))\<rparr>"

lemma cancelOrphanedJobs_eq:
  "cancelOrphanedJobs e c snap byID jobs st =
     (if \<not> CancelOrphanedJobs c then pruneOrphans byID st
      else if pass_allowed c snap jobs
      then fold (cancelOrphan e c) (candidates c snap jobs) (scanned c snap byID jobs st)
      else if candidates c snap jobs = [] \<or> ownedJobSets snap = [] then scanned c snap byID jobs st
      else inc ''OrphanCancellationsRefusedTotal'' (scanned c snap byID jobs st))"
  by (simp add: cancelOrphanedJobs_def scanOrphans_eq Let_def pass_allowed_def too_many_def scanned_def)

lemma scanned_trace [simp]: "trace (scanned c snap byID jobs st) = trace st"
  by (simp add: scanned_def pruneOrphans_def)

lemma delete_nodes_state [simp]:
  "orphanSeen (fst (delete_nodes e ns b st)) = orphanSeen st"
  "seenAt (fst (delete_nodes e ns b st)) = seenAt st"
  "commentState (fst (delete_nodes e ns b st)) = commentState st"
  by (induction e ns b st rule: delete_nodes.induct)
    (auto simp: perform_def Let_def split: option.splits)

text \<open>One candidate: its own cancel and nodes, and only when its counter has reached the grace.\<close>

definition cancel_entry :: "job \<Rightarrow> entry \<Rightarrow> bool" where
  "cancel_entry j en \<longleftrightarrow>
     (case fst en of
        CancelSlurm i \<Rightarrow> i = JobID j
      | DeleteSlurmNode n \<Rightarrow> List.member (NodeNames (JobID j) (PodCount j)) n
      | _ \<Rightarrow> False)"

lemma cancelOrphan_adds: "adds (cancel_entry j) st (cancelOrphan e c j st)"
  by (auto simp: cancelOrphan_def perform_def Let_def cancel_entry_def list_all_iff
      intro!: adds_then delete_nodes_adds split: option.split)

interpretation orphan_step: traced_step "cancelOrphan e c" cancel_entry for e c
  by unfold_locales (rule cancelOrphan_adds)

lemma cancelOrphan_other:
  "i \<noteq> JobID j \<Longrightarrow> orphanSeen (cancelOrphan e c j st) i = orphanSeen st i"
  by (auto simp: cancelOrphan_def perform_def Let_def split: option.split)

lemma cancelOrphan_own:
  "orphanSeen (cancelOrphan e c j st) (JobID j) \<in> {None, Some (bump (orphanSeen st) (JobID j))}"
  by (auto simp: cancelOrphan_def perform_def Let_def split: option.split)

lemma cancelOrphan_grace:
  "bump (orphanSeen st) (JobID j) < OrphanGraceTicks c \<Longrightarrow> trace (cancelOrphan e c j st) = trace st"
  by (simp add: cancelOrphan_def Let_def)

lemma fold_cancelOrphan_other:
  "i \<notin> JobID ` set js \<Longrightarrow> orphanSeen (fold (cancelOrphan e c) js st) i = orphanSeen st i"
  by (induction js arbitrary: st) (auto simp: cancelOrphan_other)

lemma fold_cancelOrphan_bound:
  assumes "distinct (map JobID js)"
  shows "orphanSeen (fold (cancelOrphan e c) js st) i \<in> {None, orphanSeen st i, Some (bump (orphanSeen st) i)}"
  using assms
proof (induction js arbitrary: st)
  case (Cons j js)
  show ?case
  proof (cases "i = JobID j")
    case True
    then show ?thesis
      using fold_cancelOrphan_other [of i js e c "cancelOrphan e c j st"] cancelOrphan_own [of e c j st] Cons.prems
      by auto
  next
    case False
    then show ?thesis using Cons.IH [of "cancelOrphan e c j st"] Cons.prems
      by (simp add: cancelOrphan_other bump_def)
  qed
qed simp

text \<open>A cancel in the log of the loop: its candidate had reached the grace before.\<close>

lemma fold_cancel_grace:
  assumes "distinct (map JobID js)"
    and "trace (fold (cancelOrphan e c) js st) = new @ trace st" "(CancelSlurm i, r) \<in> set new"
  shows "\<exists>j. j \<in> set js \<and> JobID j = i \<and> OrphanGraceTicks c \<le> bump (orphanSeen st) i"
  using assms
proof (induction js arbitrary: st new)
  case (Cons j js)
  let ?st1 = "cancelOrphan e c j st"
  obtain n1 where n1: "trace ?st1 = n1 @ trace st" "list_all (cancel_entry j) n1"
    using cancelOrphan_adds [of j st e c] by (auto simp: adds_def)
  obtain n2 where n2: "trace (fold (cancelOrphan e c) js ?st1) = n2 @ trace ?st1"
    using orphan_step.fold_adds [of js ?st1 e c] by (auto simp: adds_def)
  have new: "new = n2 @ n1" using Cons.prems(2) n1(1) n2 by simp
  show ?case
  proof (cases "(CancelSlurm i, r) \<in> set n2")
    case True
    then obtain k where k: "k \<in> set js" "JobID k = i" "OrphanGraceTicks c \<le> bump (orphanSeen ?st1) i"
      using Cons.IH [OF _ n2] Cons.prems(1) by auto
    then have "i \<noteq> JobID j" using Cons.prems(1) by (metis distinct.simps(2) imageI list.simps(9) list.set_map)
    with k show ?thesis by (auto simp: cancelOrphan_other bump_def)
  next
    case False
    then have in1: "(CancelSlurm i, r) \<in> set n1" using Cons.prems(3) new by simp
    then have "i = JobID j" using n1(2) by (auto simp: list_all_iff cancel_entry_def)
    moreover have "n1 \<noteq> []" using in1 by auto
    then have "OrphanGraceTicks c \<le> bump (orphanSeen st) (JobID j)"
      using n1(1) cancelOrphan_grace [of st j c e] by (cases "bump (orphanSeen st) (JobID j) < OrphanGraceTicks c") auto
    ultimately show ?thesis by auto
  qed
qed simp

section \<open>Passes\<close>

text \<open>The jobs a pass ranges over are the values of the map, each under its own id.\<close>

definition ranges_over :: "job list \<Rightarrow> (u64 \<rightharpoonup> job) \<Rightarrow> bool" where
  "ranges_over jobs byID \<longleftrightarrow> distinct (map JobID jobs) \<and> list_all (\<lambda>j. byID (JobID j) = Some j) jobs"

lemma candidate_not_reset:
  assumes "ranges_over jobs byID" "j \<in> set (candidates c snap jobs)"
  shows "orphanSeen (scanned c snap byID jobs st) (JobID j) = orphanSeen st (JobID j)"
  using assms
  by (auto simp: scanned_def pruneOrphans_def reset_seen_def candidates_def has_jobset_def ranges_over_def
      list_ex_iff list_all_iff)

lemma candidates_distinct: "ranges_over jobs byID \<Longrightarrow> distinct (map JobID (candidates c snap jobs))"
  by (simp add: ranges_over_def candidates_def distinct_map_filter)

lemma scanned_counter:
  "orphanSeen (scanned c snap byID jobs st) i \<in> {None, orphanSeen st i}"
  by (auto simp: scanned_def pruneOrphans_def reset_seen_def)

lemma scanned_bound: "dom (orphanSeen (scanned c snap byID jobs st)) \<subseteq> dom byID"
  by (auto simp: scanned_def pruneOrphans_def reset_seen_def split: if_splits)

lemma refused_pass:
  assumes "\<not> pass_allowed c snap jobs"
  shows "trace (cancelOrphanedJobs e c snap byID jobs st) = trace st
    \<and> orphanSeen (cancelOrphanedJobs e c snap byID jobs st) i \<in> {None, orphanSeen st i}"
  using assms scanned_counter [of c snap byID jobs st i]
  by (auto simp: cancelOrphanedJobs_eq pruneOrphans_def)

lemma pass_counter:
  assumes "ranges_over jobs byID"
  shows "orphanSeen (cancelOrphanedJobs e c snap byID jobs st) i \<in> {None, orphanSeen st i, Some (bump (orphanSeen st) i)}"
    and "\<not> (pass_allowed c snap jobs \<and> i \<in> JobID ` set (candidates c snap jobs)) \<Longrightarrow>
      orphanSeen (cancelOrphanedJobs e c snap byID jobs st) i \<in> {None, orphanSeen st i}"
proof -
  let ?sc = "scanned c snap byID jobs st"
  have fold_eq: "pass_allowed c snap jobs \<Longrightarrow> cancelOrphanedJobs e c snap byID jobs st
      = fold (cancelOrphan e c) (candidates c snap jobs) ?sc"
    by (simp add: cancelOrphanedJobs_eq pass_allowed_def)
  show "orphanSeen (cancelOrphanedJobs e c snap byID jobs st) i \<in> {None, orphanSeen st i}"
    if "\<not> (pass_allowed c snap jobs \<and> i \<in> JobID ` set (candidates c snap jobs))"
  proof (cases "pass_allowed c snap jobs")
    case True
    with that have "i \<notin> JobID ` set (candidates c snap jobs)" by simp
    then show ?thesis using True scanned_counter [of c snap byID jobs st i]
      by (simp add: fold_eq fold_cancelOrphan_other)
  next
    case False
    then show ?thesis using refused_pass by simp
  qed
  then show "orphanSeen (cancelOrphanedJobs e c snap byID jobs st) i
      \<in> {None, orphanSeen st i, Some (bump (orphanSeen st) i)}"
  proof (cases "pass_allowed c snap jobs \<and> i \<in> JobID ` set (candidates c snap jobs)")
    case True
    then obtain j where "j \<in> set (candidates c snap jobs)" "i = JobID j" by auto
    then have "orphanSeen ?sc i = orphanSeen st i" using candidate_not_reset [OF assms] by simp
    then show ?thesis
      using fold_cancelOrphan_bound [OF candidates_distinct [OF assms], where e = e and c = c and st = ?sc and i = i] True
      by (auto simp: fold_eq bump_def)
  qed blast
qed

lemma orphan_cancel_cause:
  assumes "ranges_over jobs byID"
    and "trace (cancelOrphanedJobs e c snap byID jobs st) = new @ trace st" "(CancelSlurm i, r) \<in> set new"
  shows "CancelOrphanedJobs c \<and> ownedJobSets snap \<noteq> []
    \<and> 2 * length (candidates c snap jobs) < length (managed_jobs c jobs)
    \<and> list_ex (\<lambda>j. JobID j = i \<and> in_scope c j \<and> \<not> has_jobset snap j) jobs
    \<and> OrphanGraceTicks c \<le> bump (orphanSeen st) i"
proof -
  let ?sc = "scanned c snap byID jobs st"
  have allowed: "pass_allowed c snap jobs"
  proof (rule ccontr)
    assume "\<not> pass_allowed c snap jobs"
    then have "new = []" using assms(2) refused_pass by simp
    with assms(3) show False by simp
  qed
  then have "trace (fold (cancelOrphan e c) (candidates c snap jobs) ?sc) = new @ trace ?sc"
    using assms(2) by (simp add: cancelOrphanedJobs_eq pass_allowed_def)
  from fold_cancel_grace [OF candidates_distinct [OF assms(1)] this assms(3)]
  obtain j where j: "j \<in> set (candidates c snap jobs)" "JobID j = i"
    "OrphanGraceTicks c \<le> bump (orphanSeen ?sc) i" by blast
  moreover have "bump (orphanSeen ?sc) i = bump (orphanSeen st) i"
    using candidate_not_reset [OF assms(1) j(1)] j(2) by (simp add: bump_def)
  ultimately show ?thesis using allowed by (auto simp: pass_allowed_def candidates_def list_ex_iff)
qed

section \<open>A concrete pass\<close>

text \<open>Three running jobs, of which job 42 has lost its JobSet; and job 8 as it looks when held again.\<close>

definition running_job :: "u64 \<Rightarrow> job" where
  "running_job i = job0\<lparr>JobID := i, Partition := ''mixed'', JobState := [''RUNNING''],
     Comment := ''wm: capacity admitted, provisioning nodes''\<rparr>"

definition held_again :: job where
  "held_again = (running_job 8)\<lparr>JobState := [''PENDING''], Hold := True, Comment := []\<rparr>"

definition orphan_jobs :: "u64 \<rightharpoonup> job" where
  "orphan_jobs = [42 \<mapsto> running_job 42, 7 \<mapsto> running_job 7, 8 \<mapsto> held_again]"

definition running_jobs :: "u64 \<rightharpoonup> job" where
  "running_jobs = [42 \<mapsto> running_job 42, 7 \<mapsto> running_job 7, 8 \<mapsto> running_job 8]"

definition orphan_snapshot :: snapshot where
  "orphan_snapshot = \<lparr>ownedJobSets = [(JobSetName 7, example_jobset), (JobSetName 8, example_jobset)],
     workloadsByJobSet = Map.empty\<rparr>"

abbreviation running_list :: "job list" where
  "running_list \<equiv> [running_job 42, running_job 7, running_job 8]"

lemma running_in_scope: "in_scope example_config (running_job i)"
  by (simp add: in_scope_def running_job_def job0_def noval0_def IsTerminal_def terminal_states_def IsHeld_def
      PriorityClassFor_def example_config_def HasPrefix_def bridgeCommentPrefix_def)

lemma running_has_jobset: "has_jobset orphan_snapshot (running_job i) \<longleftrightarrow> i = 7 \<or> i = 8"
  by (auto simp: has_jobset_def orphan_snapshot_def running_job_def jobset_name.name_eq_iff)

lemma running_JobID: "JobID (running_job i) = i"
  by (simp add: running_job_def)

lemma running_pass:
  "candidates example_config orphan_snapshot running_list = [running_job 42]"
  "pass_allowed example_config orphan_snapshot running_list"
  "ranges_over running_list running_jobs"
  by (simp_all add: candidates_def managed_jobs_def pass_allowed_def ranges_over_def running_in_scope
      running_has_jobset running_JobID running_jobs_def)
    (simp_all add: example_config_def orphan_snapshot_def)

lemma running_seen:
  "orphanSeen (scanned example_config orphan_snapshot running_jobs running_list st) 42 = orphanSeen st 42"
  using candidate_not_reset [OF running_pass(3), of "running_job 42" example_config orphan_snapshot st]
  by (simp add: running_pass(1) running_JobID)

lemma running_counted:
  "bump (orphanSeen st) 42 < 3 \<Longrightarrow>
   orphanSeen (cancelOrphanedJobs calm_env example_config orphan_snapshot running_jobs running_list st) 42
     = Some (bump (orphanSeen st) 42)"
  using running_pass(1,2)
  by (simp add: cancelOrphanedJobs_eq pass_allowed_def cancelOrphan_def running_JobID bump_def running_seen Let_def)
    (simp add: example_config_def)

text \<open>With two sightings remembered, the pass cancels job 42.\<close>

lemma running_cancelled:
  "\<exists>new. trace (cancelOrphanedJobs calm_env example_config orphan_snapshot running_jobs running_list
      (New\<lparr>orphanSeen := [42 \<mapsto> 2]\<rparr>)) = (new @ [(CancelSlurm 42, None)]) @ trace (New\<lparr>orphanSeen := [42 \<mapsto> 2]\<rparr>)"
proof -
  let ?st = "scanned example_config orphan_snapshot running_jobs running_list (New\<lparr>orphanSeen := [42 \<mapsto> 2]\<rparr>)"
  let ?st1 = "inc ''OrphanedJobsCancelledTotal'' (record_call (CancelSlurm 42) None (?st\<lparr>orphanSeen := (orphanSeen ?st)(42 \<mapsto> 3)\<rparr>))"
  have seen: "orphanSeen ?st 42 = Some 2" by (simp add: running_seen)
  have "trace (cancelOrphanedJobs calm_env example_config orphan_snapshot running_jobs running_list
      (New\<lparr>orphanSeen := [42 \<mapsto> 2]\<rparr>)) = trace (fst (delete_nodes calm_env (NodeNames 42 (PodCount (running_job 42))) True ?st1))"
    using running_pass(1,2)
    by (simp add: cancelOrphanedJobs_eq pass_allowed_def cancelOrphan_def running_JobID bump_def seen perform_def
        Let_def) (simp add: calm_env_def example_config_def)
  moreover have "adds (\<lambda>_. True) ?st1 (fst (delete_nodes calm_env (NodeNames 42 (PodCount (running_job 42))) True ?st1))"
    by (rule delete_nodes_adds) (simp_all add: adds_then list_all_iff)
  ultimately show ?thesis by (auto simp: adds_def New_def)
qed

section \<open>Properties\<close>

text \<open>C11: the guards of the irreversible action. A pass cancels a job only if cancelling is enabled, at
  least one owned JobSet is visible, fewer than half of the managed jobs look orphaned, and the
  job itself is in scope, has no JobSet, and has been counted at least the grace number of times
  including this one.\<close>

theorem orphan_cancel_guards:
  assumes "ranges_over jobs byID"
    and "trace (cancelOrphanedJobs e c snap byID jobs st) = new @ trace st" "(CancelSlurm i, r) \<in> set new"
  shows "CancelOrphanedJobs c \<and> ownedJobSets snap \<noteq> []
    \<and> 2 * length (candidates c snap jobs) < length (managed_jobs c jobs)
    \<and> list_ex (\<lambda>j. JobID j = i \<and> in_scope c j \<and> \<not> has_jobset snap j) jobs
    \<and> OrphanGraceTicks c \<le> bump (orphanSeen st) i"
  by (rule orphan_cancel_cause [OF assms])

theorem orphan_cancel_guards_witness:
  "\<exists>new. trace (cancelOrphanedJobs calm_env example_config orphan_snapshot running_jobs running_list
      (New\<lparr>orphanSeen := [42 \<mapsto> 2]\<rparr>)) = new
    \<and> (CancelSlurm 42, None) \<in> set new \<and> OrphanGraceTicks example_config \<le> bump [42 \<mapsto> 2] 42"
proof -
  obtain new where new: "trace (cancelOrphanedJobs calm_env example_config orphan_snapshot running_jobs running_list
      (New\<lparr>orphanSeen := [42 \<mapsto> 2]\<rparr>)) = (new @ [(CancelSlurm 42, None)]) @ trace (New\<lparr>orphanSeen := [42 \<mapsto> 2]\<rparr>)"
    using running_cancelled by blast
  from orphan_cancel_guards [OF running_pass(3) new, of 42 None]
  have "OrphanGraceTicks example_config \<le> bump (orphanSeen (New\<lparr>orphanSeen := [42 \<mapsto> 2]\<rparr>)) 42"
    by simp
  with new show ?thesis by (auto simp: New_def)
qed

text \<open>
  Runs: the states a bridge can be in after some passes, with the number of passes that counted
  job \<open>i\<close>. Between passes anything may happen that leaves the counter of \<open>i\<close> alone.
\<close>

inductive orphan_run :: "config \<Rightarrow> u64 \<Rightarrow> nat \<Rightarrow> bridge \<Rightarrow> bool" for c i where
  start: "orphanSeen st i = None \<Longrightarrow> orphan_run c i 0 st"
| counted: "orphan_run c i n st \<Longrightarrow> ranges_over jobs byID \<Longrightarrow> pass_allowed c snap jobs \<Longrightarrow>
    i \<in> JobID ` set (candidates c snap jobs) \<Longrightarrow>
    orphan_run c i (Suc n) (cancelOrphanedJobs e c snap byID jobs st)"
| uncounted: "orphan_run c i n st \<Longrightarrow> ranges_over jobs byID \<Longrightarrow>
    \<not> (pass_allowed c snap jobs \<and> i \<in> JobID ` set (candidates c snap jobs)) \<Longrightarrow>
    orphan_run c i n (cancelOrphanedJobs e c snap byID jobs st)"
| elsewhere: "orphan_run c i n st \<Longrightarrow> orphanSeen st' i = orphanSeen st i \<Longrightarrow> orphan_run c i n st'"

lemma orphan_run_counter:
  "orphan_run c i n st \<Longrightarrow> case orphanSeen st i of None \<Rightarrow> True | Some k \<Rightarrow> k \<le> int n"
proof (induction rule: orphan_run.induct)
  case (counted n st jobs byID snap e)
  then show ?case using pass_counter(1) [of jobs byID e c snap st i]
    by (auto simp: bump_def split: option.splits)
next
  case (uncounted n st jobs byID snap e)
  then show ?case using pass_counter(2) [of jobs byID c snap i e st]
    by (auto split: option.splits)
qed auto

text \<open>C20: the grace period. However passes, restarts of the counting, refusals and other steps are
  interleaved, when a pass cancels a job, at least the grace number of passes, this one included,
  have found the job without its JobSet, and none of those was a suspect pass.\<close>

theorem orphan_grace_observed:
  assumes "orphan_run c i n st" "ranges_over jobs byID"
    and "trace (cancelOrphanedJobs e c snap byID jobs st) = new @ trace st" "(CancelSlurm i, r) \<in> set new"
  shows "OrphanGraceTicks c \<le> int n + 1"
proof -
  have "OrphanGraceTicks c \<le> bump (orphanSeen st) i"
    using orphan_cancel_cause [OF assms(2-4)] by blast
  then show ?thesis using orphan_run_counter [OF assms(1)] by (auto simp: bump_def split: option.splits)
qed

theorem orphan_grace_observed_witness:
  "\<exists>st. orphan_run example_config 42 2 st \<and> OrphanGraceTicks example_config \<le> int 2 + 1"
proof -
  let ?pass = "cancelOrphanedJobs calm_env example_config orphan_snapshot running_jobs running_list"
  let ?st = "New\<lparr>orphanSeen := [42 \<mapsto> 2]\<rparr>"
  have in_pass: "42 \<in> JobID ` set (candidates example_config orphan_snapshot running_list)"
    by (simp add: running_pass(1) running_JobID)
  have "orphan_run example_config 42 0 New" by (rule orphan_run.start) (simp add: New_def)
  from orphan_run.counted [OF orphan_run.counted [OF this running_pass(3,2) in_pass] running_pass(3,2) in_pass]
  have two: "orphan_run example_config 42 (Suc (Suc 0)) (?pass (?pass New))" .
  have "orphanSeen (?pass New) 42 = Some 1"
    using running_counted [of New] by (simp add: New_def bump_def)
  then have "orphanSeen (?pass (?pass New)) 42 = Some 2"
    using running_counted [of "?pass New"] by (simp add: bump_def)
  then have st: "orphan_run example_config 42 (Suc (Suc 0)) ?st"
    by (intro orphan_run.elsewhere [OF two]) simp
  obtain new where "trace (?pass ?st) = (new @ [(CancelSlurm 42, None)]) @ trace ?st"
    using running_cancelled by blast
  from orphan_grace_observed [OF st running_pass(3) this, of None] st
  show ?thesis by (intro exI [of _ ?st]) (simp add: numeral_2_eq_2)
qed

text \<open>After a pass the counters are only of jobs still listed.\<close>

lemma orphan_counters_dom:
  assumes "ranges_over jobs byID"
  shows "dom (orphanSeen (cancelOrphanedJobs e c snap byID jobs st)) \<subseteq> dom byID"
proof -
  have cands: "JobID ` set (candidates c snap jobs) \<subseteq> dom byID"
    using assms by (auto simp: candidates_def ranges_over_def list_all_iff)
  have "i \<in> dom byID" if "i \<in> dom (orphanSeen (cancelOrphanedJobs e c snap byID jobs st))" for i
  proof (rule ccontr)
    assume not: "i \<notin> dom byID"
    then have "orphanSeen (scanned c snap byID jobs st) i = None"
      using scanned_bound [of c snap byID jobs st] by blast
    moreover have "i \<notin> JobID ` set (candidates c snap jobs)" using not cands by blast
    ultimately show False using not that
      by (auto simp: cancelOrphanedJobs_eq fold_cancelOrphan_other pruneOrphans_def split: if_splits)
  qed
  then show ?thesis by blast
qed

text \<open>The count is not of consecutive ticks. A job that is listed but out of scope in a pass, even
  one whose JobSet is there again, keeps its counter, and so does every job in a refused pass.\<close>

lemma out_of_scope_keeps_counter:
  assumes "ranges_over jobs byID" "List.member jobs j" "\<not> in_scope c j"
  shows "orphanSeen (cancelOrphanedJobs e c snap byID jobs st) (JobID j) = orphanSeen st (JobID j)"
proof -
  have unique: "k = j" if "k \<in> set jobs" "JobID k = JobID j" for k
    using assms(1,2) that by (auto simp: ranges_over_def distinct_map inj_on_def)
  have listed: "byID (JobID j) \<noteq> None" using assms(1,2) by (auto simp: ranges_over_def list_all_iff)
  have sc: "orphanSeen (scanned c snap byID jobs st) (JobID j) = orphanSeen st (JobID j)"
    using unique assms(3) listed by (auto simp: scanned_def pruneOrphans_def reset_seen_def list_ex_iff)
  have "JobID j \<notin> JobID ` set (candidates c snap jobs)"
    using unique assms(3) by (auto simp: candidates_def)
  with sc listed show ?thesis
    by (auto simp: cancelOrphanedJobs_eq fold_cancelOrphan_other pruneOrphans_def)
qed

end
