(* ===== verification/Bridge_Tick.thy ===== *)
theory Bridge_Tick imports
  Bridge_Orphans
  "HOL-Library.Multiset"
begin

text \<open>
  One tick of the reconcile loop (\<open>tick\<close> in \<open>internal/bridge/reconciler.go\<close>): list the queue, take
  the snapshot, admit, clean up, prune. A \<open>schedule\<close> holds what the program does not determine: the
  order in which the workers take the held jobs, and the two map iteration orders.
\<close>

section \<open>Collecting the queue\<close>

text \<open>The callback of the listing; \<open>byID\<close> is ranged over later, hence an association list.\<close>

definition collectJob :: "env \<Rightarrow> config \<Rightarrow> int \<Rightarrow> job \<Rightarrow> bridge \<times> (u64 \<times> job) list \<times> job list \<Rightarrow>
    bridge \<times> (u64 \<times> job) list \<times> job list" where
  "collectJob e c t j acc =
     (case acc of (st, byID, held) \<Rightarrow>
        let byID1 = AList.update (JobID j) j byID in
        if \<not> IsPending j \<or> \<not> IsHeld j then (st, byID1, held)
        else if PriorityClassFor c (Partition j) = None then (signalUnmanagedPartition e j st, byID1, held)
        else ((if seenAt st (JobID j) = None then st\<lparr>seenAt := (seenAt st)(JobID j \<mapsto> t)\<rparr> else st),
              byID1, held @ [j]))"

section \<open>Pruning\<close>

definition pruneCommentState :: "(u64 \<rightharpoonup> job) \<Rightarrow> bridge \<Rightarrow> bridge" where
  "pruneCommentState byID st = st\<lparr>commentState := (\<lambda>i. if byID i = None then None else commentState st i)\<rparr>"

definition pruneSeenAt :: "(u64 \<rightharpoonup> job) \<Rightarrow> bridge \<Rightarrow> bridge" where
  "pruneSeenAt byID st = st\<lparr>seenAt := (\<lambda>i. if byID i = None then None else seenAt st i)\<rparr>"

section \<open>The tick\<close>

record schedule =
  workers :: "nat \<Rightarrow> nat list"
  js_order :: "jobset list \<Rightarrow> jobset list"
  job_order :: "job list \<Rightarrow> job list"

definition wf_schedule :: "schedule \<Rightarrow> bool" where
  "wf_schedule s \<longleftrightarrow>
     (\<forall>n. list_all (\<lambda>i. i < n) (workers s n) \<and> distinct (workers s n))
     \<and> (\<forall>xs. mset (js_order s xs) = mset xs) \<and> (\<forall>xs. mset (job_order s xs) = mset xs)"

definition tick :: "env \<Rightarrow> schedule \<Rightarrow> bridge \<Rightarrow> bridge \<times> error option" where
  "tick e s st =
     (let c = live_cfg e (trace st);
          t = clock e (trace st)
      in case ask_jobs e (trace st) of (jobs, listErr) \<Rightarrow>
         case fold (collectJob e c t) jobs (record_call ListJobs listErr st, [], []) of (st1, byID, held) \<Rightarrow>
         (case listErr of
            Some err \<Rightarrow> (st1, Some (Wrap ''listing slurm jobs'' err))
          | None \<Rightarrow>
         (case take_snapshot e c st1 of
            (st2, Inl err) \<Rightarrow> (st2, Some err)
          | (st2, Inr snap) \<Rightarrow>
         (case admitHeldJobs e c (workers s (length held)) held snap st2 of
            (st3, Some err) \<Rightarrow> (st3, Some err)
          | (st3, None) \<Rightarrow>
         (case cleanupFinishedJobs e c snap (map_of byID) (js_order s (map snd (ownedJobSets snap)))
                 (job_order s (map snd byID)) st3 of
            (st4, cleanupErr) \<Rightarrow>
              (pruneSeenAt (map_of byID) (pruneCommentState (map_of byID) st4), cleanupErr))))))"

section \<open>Collecting: what it adds and returns\<close>

definition signal_entry :: "entry \<Rightarrow> bool" where
  "signal_entry en \<longleftrightarrow> (case fst en of SetComment i s \<Rightarrow> s = unmanagedPartitionComment | _ \<Rightarrow> False)"

lemma signalUnmanagedPartition_entry: "adds signal_entry st (signalUnmanagedPartition e j st)"
  by (simp add: signalUnmanagedPartition_def signal_entry_def perform_adds adds_then)

lemma collectJob_adds:
  "adds P s0 (fst acc) \<Longrightarrow> (\<And>en. signal_entry en \<Longrightarrow> P en) \<Longrightarrow> adds P s0 (fst (collectJob e c t j acc))"
  by (auto simp: collectJob_def Let_def adds_then intro: adds_call [OF _ signalUnmanagedPartition_entry]
      split: prod.split)

lemma collect_adds:
  "adds P s0 (fst acc) \<Longrightarrow> (\<And>en. signal_entry en \<Longrightarrow> P en) \<Longrightarrow>
   adds P s0 (fst (fold (collectJob e c t) jobs acc))"
  by (induction jobs arbitrary: acc) (simp_all add: collectJob_adds)

lemma collectJob_byID: "fst (snd (collectJob e c t j acc)) = AList.update (JobID j) j (fst (snd acc))"
  by (simp add: collectJob_def Let_def split: prod.split)

definition by_id :: "job list \<Rightarrow> (u64 \<times> job) list" where
  "by_id jobs = fold (\<lambda>j m. AList.update (JobID j) j m) jobs []"

lemma collect_byID:
  "fst (snd (fold (collectJob e c t) jobs acc)) = fold (\<lambda>j m. AList.update (JobID j) j m) jobs (fst (snd acc))"
  by (induction jobs arbitrary: acc) (simp_all add: collectJob_byID)

lemma by_id_values:
  "list_all (\<lambda>(i, j). JobID j = i) m \<Longrightarrow> distinct (map fst m) \<Longrightarrow>
   list_all (\<lambda>(i, j). JobID j = i) (fold (\<lambda>j m. AList.update (JobID j) j m) jobs m)
   \<and> distinct (map fst (fold (\<lambda>j m. AList.update (JobID j) j m) jobs m))"
proof (induction jobs arbitrary: m)
  case (Cons j js)
  have "list_all (\<lambda>(i, j). JobID j = i) (AList.update (JobID j) j m)"
    using Cons.prems(1) by (induction m) auto
  moreover have "distinct (map fst (AList.update (JobID j) j m))"
    using Cons.prems(2) by (rule distinct_update)
  ultimately show ?case using Cons.IH by simp
qed simp

lemma by_id_dom: "dom (map_of (by_id jobs)) \<subseteq> JobID ` set jobs"
proof -
  have "dom (map_of (fold (\<lambda>j m. AList.update (JobID j) j m) jobs al)) \<subseteq> dom (map_of al) \<union> JobID ` set jobs"
    for al :: "(u64 \<times> job) list"
  proof (induction jobs arbitrary: al)
    case (Cons j js)
    then show ?case using Cons.IH [of "AList.update (JobID j) j al"] by (auto simp: update_conv' split: if_splits)
  qed simp
  from this [of "[]"] show ?thesis by (simp add: by_id_def)
qed

lemma by_id_ranges:
  assumes "mset xs = mset (map snd (by_id jobs))"
  shows "ranges_over xs (map_of (by_id jobs))"
proof -
  let ?m = "by_id jobs"
  have m: "list_all (\<lambda>(i, j). JobID j = i) ?m" "distinct (map fst ?m)"
    using by_id_values [of "[]" jobs] by (simp_all add: by_id_def)
  have ids: "map JobID (map snd ?m) = map fst ?m" using m(1) by (auto simp: list_all_iff)
  have "mset (map JobID xs) = mset (map JobID (map snd ?m))" using assms by (metis mset_map)
  then have "distinct (map JobID xs)" unfolding ids using m(2) by (metis mset_eq_imp_distinct_iff)
  moreover have "map_of ?m (JobID j) = Some j" if "j \<in> set xs" for j
  proof -
    have "j \<in> set (map snd ?m)" using that assms by (metis set_mset_mset)
    then obtain i where "(i, j) \<in> set ?m" by auto
    moreover from this have "JobID j = i" using m(1) by (auto simp: list_all_iff)
    ultimately show ?thesis using m(2) by simp
  qed
  ultimately show ?thesis by (simp add: ranges_over_def list_all_iff)
qed

section \<open>What cleaning up adds\<close>

text \<open>No entry of the cleanup pass creates a JobSet, pins or releases a job, or lists anything.\<close>

definition cleanup_entry :: "entry \<Rightarrow> bool" where
  "cleanup_entry en \<longleftrightarrow>
     (case fst en of
        CreateJobSet d \<Rightarrow> False | SetFeatures i f \<Rightarrow> False | Release i \<Rightarrow> False
      | ListJobs \<Rightarrow> False | ListJobSets \<Rightarrow> False | ListWorkloads \<Rightarrow> False
      | _ \<Rightarrow> True)"

lemma cleanup_entry_from:
  "remove_entry i js en \<Longrightarrow> cleanup_entry en"
  "live_entry c snap j js en \<Longrightarrow> cleanup_entry en"
  "cancel_entry j en \<Longrightarrow> cleanup_entry en"
  by (auto simp: remove_entry_def live_entry_def directive_entry_def sync_entry_def cancel_entry_def cleanup_entry_def
      split: call.splits option.splits)

lemma removeJobSet_cleanup: "adds cleanup_entry st (removeJobSet e i found js st)"
  by (rule adds_mono [OF removeJobSet_adds cleanup_entry_from(1)])

lemma failDead_adds: "adds cleanup_entry st (failDead e c i j js st)"
proof -
  obtain st1 js1 where s: "stampRetention e c js st = (st1, js1)" by (rule prod.exhaust)
  obtain st2 ok where f: "failJobForDeadJobSet e j js1 st1 = (st2, ok)" by (rule prod.exhaust)
  have "adds cleanup_entry st (fst (stampRetention e c js st))"
    by (rule stampRetention_adds) (simp_all add: adds_then cleanup_entry_def)
  then have "adds cleanup_entry st st1" by (simp add: s)
  then have "adds cleanup_entry st (fst (failJobForDeadJobSet e j js1 st1))"
    by (simp add: failJobForDeadJobSet_def perform_def Let_def adds_then cleanup_entry_def)
  then have "adds cleanup_entry st st2" by (simp add: f)
  then show ?thesis
    by (auto simp: failDead_def s f intro: adds_trans removeJobSet_cleanup)
qed

lemma cleanupKnown_adds: "adds cleanup_entry st (cleanupKnown e c snap i jo js st)"
  by (simp add: cleanupKnown_def removeJobSet_cleanup failDead_adds adds_mono [OF maintainLive_adds cleanup_entry_from(2)]
      split: option.split)

lemma cleanupOne_adds: "adds cleanup_entry st (fst (cleanupOne e c snap byID js st))"
  by (auto simp: cleanupOne_def get_job_def Let_def adds_then cleanup_entry_def cleanupKnown_adds
      intro: adds_trans [OF adds_record cleanupKnown_adds] split: option.split sum.split)

lemma cleanup_loop_adds: "adds cleanup_entry st (fst (cleanup_loop e c snap byID jss st errs))"
proof (induction jss arbitrary: st errs)
  case (Cons js jss)
  obtain st1 r where o: "cleanupOne e c snap byID js st = (st1, r)" by (rule prod.exhaust)
  then have "adds cleanup_entry st st1" using cleanupOne_adds [of st e c snap byID js] by simp
  then show ?case using Cons by (cases r) (auto simp: o intro: adds_trans)
qed simp

lemma cancelOrphanedJobs_adds: "adds cleanup_entry st (cancelOrphanedJobs e c snap byID jobs st)"
proof -
  have "adds cleanup_entry st' (fold (cancelOrphan e c) js st')" for js st'
    by (rule adds_mono [OF orphan_step.fold_adds]) (auto intro: cleanup_entry_from(3))
  then have "adds cleanup_entry st (fold (cancelOrphan e c) js (scanned c snap byID jobs st))" for js
    by (rule adds_trans [rotated]) simp
  then show ?thesis by (simp add: cancelOrphanedJobs_eq pruneOrphans_def)
qed

lemma cleanupFinishedJobs_adds: "adds cleanup_entry st (fst (cleanupFinishedJobs e c snap byID jss jobs st))"
proof -
  obtain st1 errs where l: "cleanup_loop e c snap byID jss st [] = (st1, errs)" by (rule prod.exhaust)
  then have "adds cleanup_entry st st1" using cleanup_loop_adds [of st e c snap byID jss "[]"] by simp
  then show ?thesis by (simp add: cleanupFinishedJobs_def l adds_trans [OF _ cancelOrphanedJobs_adds])
qed

section \<open>The four outcomes of a tick\<close>

definition collection :: "env \<Rightarrow> bridge \<Rightarrow> bridge \<times> (u64 \<times> job) list \<times> job list" where
  "collection e st = fold (collectJob e (live_cfg e (trace st)) (clock e (trace st))) (fst (ask_jobs e (trace st)))
     (record_call ListJobs (snd (ask_jobs e (trace st))) st, [], [])"

definition collected :: "env \<Rightarrow> bridge \<Rightarrow> bridge" where
  "collected e st = fst (collection e st)"

definition held_jobs :: "env \<Rightarrow> bridge \<Rightarrow> job list" where
  "held_jobs e st = snd (snd (collection e st))"

definition listed :: "env \<Rightarrow> bridge \<Rightarrow> (u64 \<times> job) list" where
  "listed e st = by_id (fst (ask_jobs e (trace st)))"

lemma collection_eq: "collection e st = (collected e st, listed e st, held_jobs e st)"
  by (simp add: collected_def held_jobs_def listed_def collection_def by_id_def collect_byID prod_eq_iff)

lemma tick_cases:
  assumes "tick e s st = (st', r)"
  obtains (listing) err where "snd (ask_jobs e (trace st)) = Some err" "st' = collected e st"
      "r = Some (Wrap ''listing slurm jobs'' err)"
    | (snapshot) err where "snd (ask_jobs e (trace st)) = None"
      "take_snapshot e (live_cfg e (trace st)) (collected e st) = (st', Inl err)" "r = Some err"
    | (admission) st2 snap err where
      "snd (ask_jobs e (trace st)) = None"
      "take_snapshot e (live_cfg e (trace st)) (collected e st) = (st2, Inr snap)"
      "admitHeldJobs e (live_cfg e (trace st)) (workers s (length (held_jobs e st))) (held_jobs e st) snap st2
         = (st', Some err)" "r = Some err"
    | (complete) st2 snap st3 st4 where
      "snd (ask_jobs e (trace st)) = None"
      "take_snapshot e (live_cfg e (trace st)) (collected e st) = (st2, Inr snap)"
      "admitHeldJobs e (live_cfg e (trace st)) (workers s (length (held_jobs e st))) (held_jobs e st) snap st2
         = (st3, None)"
      "cleanupFinishedJobs e (live_cfg e (trace st)) snap (map_of (listed e st))
         (js_order s (map snd (ownedJobSets snap))) (job_order s (map snd (listed e st))) st3 = (st4, r)"
      "st' = pruneSeenAt (map_of (listed e st)) (pruneCommentState (map_of (listed e st)) st4)"
proof -
  obtain jobs listErr where l: "ask_jobs e (trace st) = (jobs, listErr)" by (rule prod.exhaust)
  have tick: "tick e s st =
     (case listErr of
        Some err \<Rightarrow> (collected e st, Some (Wrap ''listing slurm jobs'' err))
      | None \<Rightarrow>
     (case take_snapshot e (live_cfg e (trace st)) (collected e st) of
        (st2, Inl err) \<Rightarrow> (st2, Some err)
      | (st2, Inr snap) \<Rightarrow>
     (case admitHeldJobs e (live_cfg e (trace st)) (workers s (length (held_jobs e st))) (held_jobs e st) snap st2 of
        (st3, Some err) \<Rightarrow> (st3, Some err)
      | (st3, None) \<Rightarrow>
     (case cleanupFinishedJobs e (live_cfg e (trace st)) snap (map_of (listed e st))
             (js_order s (map snd (ownedJobSets snap))) (job_order s (map snd (listed e st))) st3 of
        (st4, cleanupErr) \<Rightarrow>
          (pruneSeenAt (map_of (listed e st)) (pruneCommentState (map_of (listed e st)) st4), cleanupErr)))))"
    using collection_eq [of e st] by (simp add: tick_def Let_def l collection_def)
  show thesis
  proof (cases listErr)
    case (Some err)
    with tick assms l show ?thesis by (intro listing) auto
  next
    case None
    obtain st2 rs where sn: "take_snapshot e (live_cfg e (trace st)) (collected e st) = (st2, rs)"
      by (rule prod.exhaust)
    show ?thesis
    proof (cases rs)
      case (Inl err)
      with tick None l Inl assms sn show ?thesis by (intro snapshot) auto
    next
      case (Inr snap)
      obtain st3 ra where ad: "admitHeldJobs e (live_cfg e (trace st)) (workers s (length (held_jobs e st)))
          (held_jobs e st) snap st2 = (st3, ra)" by (rule prod.exhaust)
      show ?thesis
      proof (cases ra)
        case (Some err)
        with tick None l Inr assms sn ad show ?thesis by (intro admission) auto
      next
        case ok: None
        obtain st4 rc where cl: "cleanupFinishedJobs e (live_cfg e (trace st)) snap (map_of (listed e st))
          (js_order s (map snd (ownedJobSets snap))) (job_order s (map snd (listed e st))) st3 = (st4, rc)"
          by (rule prod.exhaust)
        with tick None l Inr assms sn ad ok show ?thesis by (intro complete) auto
      qed
    qed
  qed
qed

section \<open>The log of a tick\<close>

lemma adds_join:
  "adds P s0 s1 \<Longrightarrow> adds Q s1 s2 \<Longrightarrow> (\<And>en. P en \<Longrightarrow> R en) \<Longrightarrow> (\<And>en. Q en \<Longrightarrow> R en) \<Longrightarrow> adds R s0 s2"
  by (blast intro: adds_trans adds_mono)

text \<open>Looking: the three listings (with outcome \<open>ok\<close> only, or any) and the signal to unmanaged jobs.\<close>

definition is_listing :: "call \<Rightarrow> bool" where
  "is_listing c \<longleftrightarrow> (case c of ListJobs \<Rightarrow> True | ListJobSets \<Rightarrow> True | ListWorkloads \<Rightarrow> True | _ \<Rightarrow> False)"

definition looking_entry :: "entry \<Rightarrow> bool" where
  "looking_entry en \<longleftrightarrow> is_listing (fst en) \<or> signal_entry en"

definition good_look :: "entry \<Rightarrow> bool" where
  "good_look en \<longleftrightarrow> (is_listing (fst en) \<and> snd en = None) \<or> signal_entry en"

lemma signal_not_listing: "signal_entry en \<Longrightarrow> \<not> is_listing (fst en)"
  by (simp add: signal_entry_def is_listing_def split: call.splits)

lemma collected_adds:
  assumes "P (ListJobs, snd (ask_jobs e (trace st)))" "\<And>en. signal_entry en \<Longrightarrow> P en"
  shows "adds P st (collected e st)"
proof -
  have "adds P st (fst (record_call ListJobs (snd (ask_jobs e (trace st))) st, [], []))"
    using assms(1) by (simp add: adds_record)
  then show ?thesis
    unfolding collected_def collection_def using assms(2) by (rule collect_adds)
qed

lemma collectJob_memory [simp]:
  "orphanSeen (fst (collectJob e c t j acc)) = orphanSeen (fst acc)"
  by (simp add: collectJob_def Let_def signalUnmanagedPartition_def perform_def split: prod.split option.split)

lemma collected_memory [simp]: "orphanSeen (collected e st) = orphanSeen st"
proof -
  have "orphanSeen (fst (fold (collectJob e c t) jobs acc)) = orphanSeen (fst acc)" for c t jobs acc
    by (induction jobs arbitrary: acc) simp_all
  then show ?thesis by (simp add: collected_def collection_def)
qed

lemma take_snapshot_adds:
  "adds P s0 st \<Longrightarrow> (\<And>r. P (ListJobSets, r)) \<Longrightarrow> (\<And>r. P (ListWorkloads, r)) \<Longrightarrow>
   adds P s0 (fst (take_snapshot e c st))"
  by (simp add: take_snapshot_def Let_def adds_then split: sum.split)

lemma take_snapshot_good:
  "adds good_look s0 st \<Longrightarrow> take_snapshot e c st = (st', Inr snap) \<Longrightarrow> adds good_look s0 st'"
  by (auto simp: take_snapshot_def Let_def adds_then good_look_def is_listing_def split: sum.splits)

lemma take_snapshot_memory:
  "take_snapshot e c st = (st', r) \<Longrightarrow> orphanSeen st' = orphanSeen st"
  by (auto simp: take_snapshot_def Let_def split: sum.splits)

lemma looking_tick:
  assumes "take_snapshot e c (collected e st) = (st2, r)"
  shows "adds looking_entry st st2 \<and> orphanSeen st2 = orphanSeen st"
proof -
  have "adds looking_entry st (fst (take_snapshot e c (collected e st)))"
    by (intro take_snapshot_adds collected_adds) (simp_all add: looking_entry_def is_listing_def)
  then show ?thesis using take_snapshot_memory [OF assms] by (simp add: assms)
qed

lemma good_looking_tick:
  assumes "snd (ask_jobs e (trace st)) = None" "take_snapshot e c (collected e st) = (st2, Inr snap)"
  shows "adds good_look st st2"
  using collected_adds [of good_look e st] assms(1)
  by (intro take_snapshot_good [OF _ assms(2)]) (simp_all add: good_look_def is_listing_def)

lemma tick_listing_ok:
  assumes "take_snapshot e c (collected e st) = (st2, Inr snap)" "admitHeldJobs e c' os held snap st2 = (st3, ra)"
    "list_all (\<lambda>i. i < length held) os" "snd (ask_jobs e (trace st)) = None"
  shows "adds (\<lambda>en. good_look en \<or> admission_entry c' snap held en) st st3"
proof -
  have "adds (admission_entry c' snap held) st2 st3"
    using admitHeldJobs_adds [OF assms(3), of c' snap st2 e] by (simp add: assms(2))
  moreover have "adds good_look st st2" by (rule good_looking_tick [OF assms(4,1)])
  ultimately show ?thesis by (blast intro: adds_trans adds_mono)
qed

lemma held_order:
  "wf_schedule s \<Longrightarrow> list_all (\<lambda>i. i < length (held_jobs e st)) (workers s (length (held_jobs e st)))"
  by (simp add: wf_schedule_def)

lemma good_look_not_release: "good_look en \<Longrightarrow> not_release en"
  by (auto simp: good_look_def signal_entry_def not_release_def is_listing_def split: call.splits)

lemma cleanup_not_release: "cleanup_entry en \<Longrightarrow> not_release en"
  by (auto simp: cleanup_entry_def not_release_def split: call.splits)

lemma looking_not_release: "looking_entry en \<Longrightarrow> not_release en"
  by (auto simp: looking_entry_def signal_entry_def not_release_def is_listing_def split: call.splits)

lemma collected_pinned:
  "pinned_releases (trace st) \<Longrightarrow> pinned_releases (trace (collected e st))"
  by (rule pinned_adds [OF collected_adds])
    (auto simp: not_release_def signal_entry_def split: call.splits)

lemma pruned_trace [simp]: "trace (pruneSeenAt m (pruneCommentState m' st)) = trace st"
  by (simp add: pruneSeenAt_def pruneCommentState_def)

lemma tick_pinned:
  assumes "tick e s st = (st', r)" "wf_schedule s" "pinned_releases (trace st)"
  shows "pinned_releases (trace st')"
  using assms(1)
proof (cases rule: tick_cases)
  case (listing err)
  with assms(3) show ?thesis by (simp add: collected_pinned)
next
  case (snapshot err)
  have "adds not_release st st'"
    using looking_tick [OF snapshot(2)] looking_not_release by (blast intro: adds_mono)
  then show ?thesis using assms(3) by (rule pinned_adds)
next
  case (admission st2 snap err)
  have "adds not_release st st2"
    using looking_tick [OF admission(2)] looking_not_release by (blast intro: adds_mono)
  then have "pinned_releases (trace st2)" using assms(3) by (rule pinned_adds)
  then show ?thesis by (rule admitHeldJobs_pinned [OF admission(3) held_order [OF assms(2)]])
next
  case (complete st2 snap st3 st4)
  have "adds not_release st st2"
    using looking_tick [OF complete(2)] looking_not_release by (blast intro: adds_mono)
  then have "pinned_releases (trace st2)" using assms(3) by (rule pinned_adds)
  then have "pinned_releases (trace st3)" by (rule admitHeldJobs_pinned [OF complete(3) held_order [OF assms(2)]])
  moreover have "adds not_release st3 (fst (st4, r))"
    unfolding complete(4) [symmetric] by (rule adds_mono [OF cleanupFinishedJobs_adds cleanup_not_release])
  ultimately have "pinned_releases (trace st4)" by (auto intro: pinned_adds)
  then show ?thesis by (simp add: complete(5))
qed

section \<open>A concrete queue\<close>

text \<open>One held job whose Workload is admitted, and its JobSet.\<close>

definition busy_env :: env where
  "busy_env = calm_env\<lparr>ask_jobs := (\<lambda>_. ([example_job], None)), ask_jobsets := (\<lambda>_. Inr [example_jobset]),
     ask_workloads := (\<lambda>_. Inr [example_workload])\<rparr>"

definition all_in_order :: schedule where
  "all_in_order = \<lparr>workers = (\<lambda>n. [0..<n]), js_order = (\<lambda>xs. xs), job_order = (\<lambda>xs. xs)\<rparr>"

lemma all_in_order: "wf_schedule all_in_order" "set (workers all_in_order n) = {..<n}"
  by (auto simp: wf_schedule_def all_in_order_def list_all_iff)

definition busy_snapshot :: snapshot where
  "busy_snapshot = \<lparr>ownedJobSets = [(js_name example_jobset, example_jobset)],
     workloadsByJobSet = [''slurm-job-42'' \<mapsto> example_workload]\<rparr>"

lemma example_name: "js_name example_jobset = ''slurm-job-42''"
proof -
  have "js_name example_jobset = JobSetName (JobID example_job)" by (rule ToJobSet_InrE [OF example_jobset])
  also have "JobSetName (JobID example_job) = ''slurm-job-42''"
    by (simp add: example_job_simps JobSetName_def dec_u64_def dec.simps digit_def) code_simp
  finally show ?thesis .
qed

lemma example_selected: "selected example_config example_jobset"
proof -
  obtain pc where "js_labels example_jobset = jobSetLabels example_job example_config pc"
    by (rule ToJobSet_InrE [OF example_jobset])
  then show ?thesis by (simp add: selected_def map_of_jobSetLabels example_config_def; simp add: label_names)
qed

lemma busy_config: "live_cfg busy_env h = example_config"
  by (simp add: busy_env_def calm_env_def)

lemma example_held: "IsPending example_job" "IsHeld example_job"
  "PriorityClassFor example_config (Partition example_job) \<noteq> None"
  by (simp_all add: IsPending_def IsHeld_def HasPrefix_def example_job_simps PriorityClassFor_def example_config_def)

lemma busy_snapshot:
  "take_snapshot busy_env example_config (collected busy_env st) =
     (record_call ListWorkloads None (record_call ListJobSets None (collected busy_env st)), Inr busy_snapshot)"
  by (simp add: take_snapshot_def busy_env_def calm_env_def Let_def busy_snapshot_def example_selected
      index_jobsets_def index_workloads_def jobset_owners_def example_workload_def)

section \<open>Properties of ticks and runs\<close>

lemma held_jobs_complete:
  assumes "j \<in> set (fst (ask_jobs e (trace st)))" "IsPending j" "IsHeld j"
    "PriorityClassFor (live_cfg e (trace st)) (Partition j) \<noteq> None"
  shows "j \<in> set (held_jobs e st)"
proof -
  have keep: "j \<in> set (snd (snd acc)) \<Longrightarrow> j \<in> set (snd (snd (fold (collectJob e c t) js acc)))" for c t js acc
    by (induction js arbitrary: acc) (auto simp: collectJob_def Let_def split: prod.split)
  have "j \<in> set (snd (snd (fold (collectJob e (live_cfg e (trace st)) t) js acc)))" if "j \<in> set js" for t js acc
    using that
  proof (induction js arbitrary: acc)
    case (Cons k ks)
    show ?case
    proof (cases "j = k")
      case True
      then have "j \<in> set (snd (snd (collectJob e (live_cfg e (trace st)) t k acc)))"
        using assms(2-4) by (auto simp: collectJob_def Let_def split: prod.split)
      then show ?thesis by (simp add: keep)
    qed (use Cons in simp)
  qed simp
  then show ?thesis using assms(1) by (simp add: held_jobs_def collection_def)
qed

inductive bridge_run :: "bridge \<Rightarrow> bool" where
  start: "bridge_run New"
| step: "bridge_run st \<Longrightarrow> wf_schedule s \<Longrightarrow> bridge_run (fst (tick e s st))"

lemma pinned_at: "pinned_releases (later @ (Release i, r) # h) \<Longrightarrow> \<exists>h'. h = (SetFeatures i (NodeFeature i), None) # h'"
  by (induction later) (auto split: list.splits prod.splits call.splits option.splits)

lemma bridge_run_pinned: "bridge_run st \<Longrightarrow> pinned_releases (trace st)"
proof (induction rule: bridge_run.induct)
  case (step st s e)
  then show ?case using tick_pinned [of e s st "fst (tick e s st)" "snd (tick e s st)"] by simp
qed (simp add: New_def)

lemma tick_releases:
  assumes "List.member (fst (ask_jobs e (trace st))) j" "IsPending j" "IsHeld j"
    and "snd (ask_jobs e (trace st)) = None"
    and "take_snapshot e (live_cfg e (trace st)) (collected e st) = (st2, Inr snap)"
    and "ToJobSet j (live_cfg e (trace st)) = Inr d"
    and "map_of (ownedJobSets snap) (js_name d) = Some ex" "jobSetIdentityMatches ex d"
    and "IsAdmitted (workloadsByJobSet snap (js_name d))"
    and "set (workers s (length (held_jobs e st))) = {..<length (held_jobs e st)}"
    and "\<And>h. ask e h (SetFeatures (JobID j) (NodeFeature (JobID j))) = None"
    and "\<And>h. ask e h (Release (JobID j)) = None"
  shows "logs (Release (JobID j), None) st (fst (tick e s st))"
proof -
  obtain st' r where t: "tick e s st = (st', r)" by (rule prod.exhaust)
  have "PriorityClassFor (live_cfg e (trace st)) (Partition j) \<noteq> None" by (rule ToJobSet_InrE [OF assms(6)]) simp
  then have "j \<in> set (held_jobs e st)" using assms(1-3) by (simp add: held_jobs_complete List.member_iff)
  then have rel: "logs (Release (JobID j), None) st2 (fst (admitHeldJobs e (live_cfg e (trace st))
      (workers s (length (held_jobs e st))) (held_jobs e st) snap st2))"
    using assms(6-12) by (intro admitHeldJobs_releases [where k = 0]) simp_all
  have pre: "adds looking_entry st st2" using looking_tick [OF assms(5)] by simp
  show ?thesis using t
  proof (cases rule: tick_cases)
    case (admission st2' snap' err)
    then have "logs (Release (JobID j), None) st2 st'" using rel assms(5) by simp
    then show ?thesis using pre t by (simp add: logs_after)
  next
    case (complete st2' snap' st3 st4)
    then have "logs (Release (JobID j), None) st2 st3" using rel assms(5) by simp
    moreover have "adds cleanup_entry st3 (fst (st4, r))"
      unfolding complete(4) [symmetric] by (rule cleanupFinishedJobs_adds)
    ultimately have "logs (Release (JobID j), None) st2 st4" by (auto intro: logs_before)
    then have "logs (Release (JobID j), None) st st4" using pre by (rule logs_after [rotated])
    then show ?thesis by (simp add: t complete(5) logs_def)
  qed (use assms(4,5) in auto)
qed

text \<open>C12: an admitted job gets released. A tick that sees the queue and the cluster, and whose workers
  take up every job, releases each held job whose JobSet is there with a matching identity and
  whose Workload is admitted, as soon as Slurm accepts its pin and its release: whatever happens
  to the other jobs, and whatever creations or cleanups fail.\<close>

theorem admitted_job_is_released:
  assumes "List.member (fst (ask_jobs e (trace st))) j" "IsPending j" "IsHeld j"
    and "snd (ask_jobs e (trace st)) = None"
    and "take_snapshot e (live_cfg e (trace st)) (collected e st) = (st2, Inr snap)"
    and "ToJobSet j (live_cfg e (trace st)) = Inr d"
    and "map_of (ownedJobSets snap) (js_name d) = Some ex" "jobSetIdentityMatches ex d"
    and "IsAdmitted (workloadsByJobSet snap (js_name d))"
    and "set (workers s (length (held_jobs e st))) = {..<length (held_jobs e st)}"
    and "\<And>h. ask e h (SetFeatures (JobID j) (NodeFeature (JobID j))) = None"
    and "\<And>h. ask e h (Release (JobID j)) = None"
  shows "logs (Release (JobID j), None) st (fst (tick e s st))"
  using assms by (rule tick_releases)

lemma busy_release: "logs (Release (JobID example_job), None) New (fst (tick busy_env all_in_order New))"
  by (rule tick_releases [where j = example_job and snap = busy_snapshot and ex = example_jobset and d = example_jobset])
    (simp_all add: busy_config busy_snapshot example_held example_jobset all_in_order(2),
     simp_all add: busy_env_def calm_env_def busy_snapshot_def example_name jobSetIdentityMatches_def
       annotation_of_def IsAdmitted_def example_workload_def split: option.split)

theorem admitted_job_is_released_witness:
  "\<exists>new. trace (fst (tick busy_env all_in_order New)) = new \<and> List.member new (Release 42, None)"
proof -
  have "logs (Release (JobID example_job), None) New (fst (tick busy_env all_in_order New))"
    by (rule admitted_job_is_released [where j = example_job and snap = busy_snapshot and ex = example_jobset
          and d = example_jobset])
      (simp_all add: busy_config busy_snapshot example_held example_jobset all_in_order(2),
       simp_all add: busy_env_def calm_env_def busy_snapshot_def example_name jobSetIdentityMatches_def
         annotation_of_def IsAdmitted_def example_workload_def split: option.split)
  then show ?thesis by (simp add: logs_def New_def example_job_simps)
qed

text \<open>C3: no runaway jobs. In every run of the bridge, over any number of ticks, whatever the API
  server, Kueue and Slurm answer and whatever the configuration is reloaded to, each release in the log
  comes directly after Slurm accepted the pin of that very job to its own nodes.\<close>

theorem releases_follow_pins:
  assumes "bridge_run st" "trace st = later @ (Release i, r) # h"
  shows "\<exists>h'. h = (SetFeatures i (NodeFeature i), None) # h'"
  using bridge_run_pinned [OF assms(1)] unfolding assms(2) by (rule pinned_at)

theorem releases_follow_pins_witness:
  "\<exists>later h. trace (fst (tick busy_env all_in_order New))
     = later @ (Release 42, None) # (SetFeatures 42 (NodeFeature 42), None) # h"
proof -
  obtain new where "trace (fst (tick busy_env all_in_order New)) = new" "(Release 42, None) \<in> set new"
    using busy_release by (auto simp: logs_def New_def example_job_simps)
  then obtain later h where h: "trace (fst (tick busy_env all_in_order New)) = later @ (Release 42, None) # h"
    by (metis split_list)
  have "bridge_run (fst (tick busy_env all_in_order New))"
    by (rule bridge_run.step [OF bridge_run.start all_in_order(1)])
  from releases_follow_pins [OF this h] show ?thesis using h by blast
qed

lemma failed_listing_only:
  assumes "is_listing c"
  shows "\<not> (good_look (c, Some err) \<or> admission_entry c' snap held (c, Some err) \<or> cleanup_entry (c, Some err))"
  using assms
  by (cases c) (simp_all add: good_look_def admission_entry_def cleanup_entry_def is_listing_def signal_entry_def)

text \<open>C15: no action on a partial view. A tick in which a listing failed (the queue, even halfway through
  its stream, the JobSets or the Workloads) ends in an error and makes no call besides the listings
  and the comment on held jobs of unmanaged partitions: it creates, releases, cancels and deletes
  nothing, and keeps the orphan counters.\<close>

theorem blind_tick_is_harmless:
  assumes "tick e s st = (st', r)" "wf_schedule s"
    and "trace st' = new @ trace st" "List.member new (c, Some err)" "is_listing c"
  shows "r \<noteq> None \<and> orphanSeen st' = orphanSeen st \<and> list_all looking_entry new"
proof -
  have new: "adds P st st' \<Longrightarrow> list_all P new" for P
    using assms(3) by (auto simp: adds_def)
  have refute: False if "adds (\<lambda>en. good_look en \<or> admission_entry c' snap held en \<or> cleanup_entry en) st st'"
    for c' snap held
    using new [OF that] assms(4) failed_listing_only [OF assms(5), of err c' snap held]
    by (auto simp: list_all_iff)
  show ?thesis using assms(1)
  proof (cases rule: tick_cases)
    case (listing err)
    have "adds looking_entry st st'"
      unfolding listing(2) by (rule collected_adds) (simp_all add: looking_entry_def is_listing_def)
    with listing show ?thesis by (simp add: new)
  next
    case (snapshot err)
    then show ?thesis using looking_tick [OF snapshot(2)] by (simp add: new)
  next
    case (admission st2 snap err)
    have "adds (\<lambda>en. good_look en \<or> admission_entry (live_cfg e (trace st)) snap (held_jobs e st) en) st st'"
      by (rule tick_listing_ok [OF admission(2,3) held_order [OF assms(2)] admission(1)])
    then have "adds (\<lambda>en. good_look en \<or> admission_entry (live_cfg e (trace st)) snap (held_jobs e st) en
        \<or> cleanup_entry en) st st'" by (rule adds_mono) blast
    then show ?thesis using refute by blast
  next
    case (complete st2 snap st3 st4)
    have "adds (\<lambda>en. good_look en \<or> admission_entry (live_cfg e (trace st)) snap (held_jobs e st) en) st st3"
      by (rule tick_listing_ok [OF complete(2,3) held_order [OF assms(2)] complete(1)])
    moreover have "adds cleanup_entry st3 (fst (st4, r))"
      unfolding complete(4) [symmetric] by (rule cleanupFinishedJobs_adds)
    ultimately have "adds (\<lambda>en. good_look en \<or> admission_entry (live_cfg e (trace st)) snap (held_jobs e st) en
        \<or> cleanup_entry en) st (fst (st4, r))"
      by (rule adds_join) blast+
    then have "adds (\<lambda>en. good_look en \<or> admission_entry (live_cfg e (trace st)) snap (held_jobs e st) en
        \<or> cleanup_entry en) st st'"
      by (simp add: complete(5) adds_def)
    then show ?thesis using refute by blast
  qed
qed

theorem blind_tick_is_harmless_witness:
  "orphanSeen (fst (tick (calm_env\<lparr>ask_jobs := \<lambda>_. ([example_job], Some (Msg ''unexpected EOF''))\<rparr>) all_in_order
     (New\<lparr>orphanSeen := [42 \<mapsto> 2]\<rparr>))) = [42 \<mapsto> 2]"
proof -
  let ?e = "calm_env\<lparr>ask_jobs := \<lambda>_. ([example_job], Some (Msg ''unexpected EOF''))\<rparr>"
  let ?st = "New\<lparr>orphanSeen := [42 \<mapsto> 2]\<rparr>"
  obtain st' r where t: "tick ?e all_in_order ?st = (st', r)" by (rule prod.exhaust)
  have "trace st' = [(ListJobs, Some (Msg ''unexpected EOF''))] @ trace ?st"
    using t by (auto simp: tick_def Let_def calm_env_def New_def collectJob_def example_held)
  from blind_tick_is_harmless [OF t all_in_order(1) this, of ListJobs "Msg ''unexpected EOF''"] t show ?thesis
    by (simp add: is_listing_def)
qed

section \<open>A failed creation\<close>

lemma logs_elim [simp]:
  "logs en st st \<longleftrightarrow> False"
  "logs en s0 (inc m st) \<longleftrightarrow> logs en s0 st"
  by (auto simp: logs_def)

lemma logs_recorded: "logs en s0 (record_call c r st) \<Longrightarrow> en = (c, r) \<or> logs en s0 st"
  by (auto simp: logs_def Cons_eq_append_conv)

lemma logs_event: "logs en s0 (eventf e n ty rs st) \<Longrightarrow> en = (Emit n ty rs, None) \<or> logs en s0 st"
  by (auto simp: eventf_def dest: logs_recorded split: if_splits)

lemma logs_split: "adds P s0 s1 \<Longrightarrow> adds Q s1 s2 \<Longrightarrow> logs en s0 s2 \<Longrightarrow> logs en s0 s1 \<or> logs en s1 s2"
  by (auto simp: logs_def adds_def)

lemma logs_adds: "adds P st st' \<Longrightarrow> logs en st st' \<Longrightarrow> P en"
  by (auto simp: logs_def adds_def list_all_iff)

definition create_failed :: "entry \<Rightarrow> bool" where
  "create_failed en \<longleftrightarrow>
     (case en of (CreateJobSet d, Some err) \<Rightarrow> \<not> is_already_exists err | _ \<Rightarrow> False)"

lemma create_failed_emit [simp]:
  "\<not> create_failed (Emit n ty rs, r)" "\<not> create_failed (GetJobSet n, r)" "\<not> create_failed (c, None)"
  by (simp_all add: create_failed_def split: call.split)

lemma ensureJobSet_create_failed:
  assumes "ensureJobSet e d st = (st1, r)" "logs en st st1" "create_failed en"
  shows "isl r"
  using assms
  by (auto simp: ensureJobSet_def perform_def get_jobset_def jobSetIdentityConflict_def Let_def create_failed_def
      dest!: logs_recorded logs_event split: option.splits if_splits sum.splits)

lemma prepareJob_create_failed:
  assumes "prepareJob e c snap j st = (st1, p)" "logs en st st1" "create_failed en"
  shows "p \<noteq> Skipped \<and> pr_error p \<noteq> None"
proof (cases "ToJobSet j c")
  case (Inl err)
  then show ?thesis using assms by (auto simp: prepareJob_def dest!: logs_event)
next
  case (Inr d)
  show ?thesis
  proof (cases "map_of (ownedJobSets snap) (js_name d)")
    case None
    obtain s1 q where q: "ensureJobSet e d st = (s1, q)" by (rule prod.exhaust)
    have "logs en st s1" if "\<not> recreation_refused j"
      using assms Inr None q that by (auto simp: prepareJob_def dest!: logs_event split: sum.splits if_splits)
    then have "isl q" if "\<not> recreation_refused j" using that ensureJobSet_create_failed [OF q] assms(3) by blast
    then show ?thesis using assms Inr None q
      by (cases "recreation_refused j") (auto simp: prepareJob_def isl_def)
  next
    case (Some ex)
    then show ?thesis using assms Inr
      by (auto simp: prepareJob_def jobSetIdentityConflict_def dest!: logs_event split: if_splits)
  qed
qed

lemma phase1_create_failed:
  assumes "phase1 e c snap held os st res = (st', res')" "logs en st st'" "create_failed en"
    "list_all (\<lambda>i. i < length held) os" "distinct os" "length res = length held"
  shows "\<exists>i. i < length res' \<and> res' ! i \<noteq> Skipped \<and> pr_error (res' ! i) \<noteq> None"
  using assms
proof (induction os arbitrary: st res)
  case (Cons k ks)
  obtain st1 p where p: "prepareJob e c snap (held ! k) st = (st1, p)" by (rule prod.exhaust)
  have rest: "phase1 e c snap held ks st1 (res[k := p]) = (st', res')" using Cons.prems(1) by (simp add: p)
  have "adds (prepare_entry c (held ! k)) st (fst (st1, p))" unfolding p [symmetric] by (rule prepareJob_adds)
  moreover have "adds (\<lambda>en. list_ex (\<lambda>j. prepare_entry c j en) held) st1 (fst (st', res'))"
    unfolding rest [symmetric] by (rule phase1_adds) (use Cons.prems(4) in simp)
  ultimately consider "logs en st st1" | "logs en st1 st'"
    using logs_split Cons.prems(2) by fastforce
  then show ?case
  proof cases
    case 1
    have "snd (phase1 e c snap held js s r) ! k = r ! k" if "k \<notin> set js" for js s r
      using that by (induction js arbitrary: s r) (auto split: prod.split)
    then have "res' ! k = p"
      using rest Cons.prems(4-6) by (metis distinct.simps(2) list.pred_inject(2) nth_list_update_eq snd_conv)
    moreover have "length res' = length held"
      using phase1_length [of e c snap held ks st1 "res[k := p]"] rest Cons.prems(6) by simp
    ultimately show ?thesis using prepareJob_create_failed [OF p 1 Cons.prems(3)] Cons.prems(4) by auto
  next
    case 2
    then show ?thesis using Cons.IH [OF rest] Cons.prems by simp
  qed
qed simp

lemma failed_slot: "i < length ps \<Longrightarrow> ps ! i \<noteq> Skipped \<Longrightarrow> pr_error (ps ! i) \<noteq> None \<Longrightarrow> failed ps \<noteq> []"
proof (induction ps arbitrary: i)
  case (Cons p ps)
  then show ?case by (cases i; cases p; cases "pr_error p") auto
qed simp

lemma admitHeldJobs_create_failed:
  assumes "admitHeldJobs e c os held snap st = (st', r)" "logs en st st'" "create_failed en"
    "list_all (\<lambda>i. i < length held) os" "distinct os"
  shows "r \<noteq> None"
proof -
  let ?h = "sort_key JobID held"
  obtain st1 res where p1: "phase1 e c snap ?h os st (replicate (length held) Skipped) = (st1, res)"
    by (rule prod.exhaust)
  obtain st2 errs where p2: "phase2 e snap res st1 [] = (st2, errs)" by (rule prod.exhaust)
  have st': "st' = st2" using assms(1) by (simp add: admitHeldJobs_def p1 p2 Let_def)
  have "adds (\<lambda>en. list_ex (\<lambda>j. prepare_entry c j en) ?h) st (fst (st1, res))"
    unfolding p1 [symmetric] by (rule phase1_adds) (use assms(4) in simp)
  moreover have "adds (\<lambda>en. \<not> create_failed en) st1 (fst (phase2 e snap res st1 []))"
    using adds_refl [OF refl, of "\<lambda>en. \<not> create_failed en" st1]
  proof (induction rule: phase2_induct_step)
    case (admit j d s)
    show ?case
      by (rule adds_call [OF admit(2) admitOne_adds])
        (auto simp: admit_entry_def create_failed_def split: call.splits)
  qed (simp_all add: adds_then)
  ultimately have "logs en st st1 \<or> logs en st1 st2"
    using logs_split assms(2) by (fastforce simp: st' p2)
  moreover have "\<not> logs en st1 st2"
    using \<open>adds _ st1 _\<close> logs_adds assms(3) by (fastforce simp: p2)
  ultimately have "logs en st st1" by blast
  then obtain i where "i < length res" "res ! i \<noteq> Skipped" "pr_error (res ! i) \<noteq> None"
    using phase1_create_failed [OF p1 _ assms(3)] assms(4,5) by auto
  then have "failed res \<noteq> []" by (rule failed_slot)
  moreover have "errs = failed res" using phase2_errs [of e snap res st1 "[]"] by (simp add: p2)
  ultimately show ?thesis using assms(1) by (auto simp: admitHeldJobs_def p1 p2 Let_def)
qed

text \<open>What only the cleanup pass does.\<close>

definition removal :: "entry \<Rightarrow> bool" where
  "removal en \<longleftrightarrow>
     (case fst en of DeleteJobSet n \<Rightarrow> True | DeleteSlurmNode n \<Rightarrow> True | CancelSlurm i \<Rightarrow> True
      | PatchJobSet js \<Rightarrow> True | _ \<Rightarrow> False)"

lemma no_removal:
  "good_look en \<Longrightarrow> \<not> removal en" "looking_entry en \<Longrightarrow> \<not> removal en" "admission_entry c snap held en \<Longrightarrow> \<not> removal en"
  by (auto simp: good_look_def looking_entry_def signal_entry_def is_listing_def admission_entry_def removal_def
      split: call.splits)

lemma creation_not_looking: "\<not> looking_entry (CreateJobSet d, r)"
  by (simp add: looking_entry_def signal_entry_def is_listing_def)

lemma creation_in_pass:
  assumes "take_snapshot e (live_cfg e (trace st)) (collected e st) = (st2, Inr snap)"
    and "admitHeldJobs e (live_cfg e (trace st)) (workers s (length (held_jobs e st))) (held_jobs e st) snap st2 = (st3, ra)"
    and "logs (CreateJobSet d, r) st st3" "wf_schedule s"
  shows "logs (CreateJobSet d, r) st2 st3 \<and> adds (\<lambda>en. \<not> removal en) st st3"
proof -
  have a: "adds (admission_entry (live_cfg e (trace st)) snap (held_jobs e st)) st2 (fst (st3, ra))"
    unfolding assms(2) [symmetric] by (rule admitHeldJobs_adds [OF held_order [OF assms(4)]])
  moreover have l: "adds looking_entry st st2" using looking_tick [OF assms(1)] by simp
  ultimately have "logs (CreateJobSet d, r) st st2 \<or> logs (CreateJobSet d, r) st2 st3"
    using logs_split assms(3) by fastforce
  moreover have "\<not> logs (CreateJobSet d, r) st st2" using logs_adds [OF l] creation_not_looking by blast
  moreover have "adds (\<lambda>en. \<not> removal en) st (fst (st3, ra))"
    by (rule adds_join [OF l a]) (blast dest: no_removal)+
  ultimately show ?thesis by simp
qed

text \<open>One failed creation stops the cleanup. In a tick in which a single JobSet creation was refused
  (other than because it exists), no JobSet and no node record is deleted and no job is cancelled,
  however many finished jobs there are: the error of the admission pass ends the tick. A job whose
  JobSet can never be created therefore keeps every finished JobSet in the cluster.\<close>

lemma create_failure_blocks_cleanup:
  assumes "tick e s st = (st', r)" "wf_schedule s"
    and "trace st' = new @ trace st" "List.member new (CreateJobSet d, Some err)" "\<not> is_already_exists err"
  shows "r \<noteq> None \<and> list_all (\<lambda>en. \<not> removal en) new"
proof -
  let ?en = "(CreateJobSet d, Some err)"
  note in_pass = creation_in_pass [OF _ _ _ assms(2)]
  have new: "adds P st st' \<Longrightarrow> list_all P new" for P
    using assms(3) by (auto simp: adds_def)
  have fail: "create_failed ?en" "logs ?en st st'"
    using assms(3-5) by (auto simp: create_failed_def logs_def)
  have ord: "distinct (workers s n)" for n using assms(2) by (simp add: wf_schedule_def)
  note not_look = creation_not_looking
  show ?thesis using assms(1)
  proof (cases rule: tick_cases)
    case (listing err')
    have "adds looking_entry st st'"
      unfolding listing(2) by (rule collected_adds) (simp_all add: looking_entry_def is_listing_def)
    then show ?thesis using logs_adds fail(2) not_look by blast
  next
    case (snapshot err')
    then show ?thesis using looking_tick [OF snapshot(2)] logs_adds fail(2) not_look by blast
  next
    case (admission st2 snap err')
    then show ?thesis using in_pass [OF admission(2,3) fail(2)] new by blast
  next
    case (complete st2 snap st3 st4)
    have "logs ?en st st4" using fail(2) by (simp add: complete(5) logs_def)
    moreover have c: "adds cleanup_entry st3 (fst (st4, r))"
      unfolding complete(4) [symmetric] by (rule cleanupFinishedJobs_adds)
    moreover have "adds (\<lambda>_. True) st st3"
      by (rule adds_mono [OF tick_listing_ok [OF complete(2,3) held_order [OF assms(2)] complete(1)]]) simp
    ultimately have "logs ?en st st3 \<or> logs ?en st3 st4" using logs_split by fastforce
    moreover have "\<not> logs ?en st3 st4" using logs_adds [of cleanup_entry st3 st4 ?en] c by (auto simp: cleanup_entry_def)
    ultimately have "logs ?en st2 st3" using in_pass [OF complete(2,3)] by blast
    then have "(None :: error option) \<noteq> None"
      using admitHeldJobs_create_failed [OF complete(3) _ fail(1) held_order [OF assms(2)] ord] by blast
    then show ?thesis by simp
  qed
qed

definition refusing_env :: env where
  "refusing_env = calm_env\<lparr>ask_jobs := (\<lambda>_. ([example_job], None)),
     ask := (\<lambda>_ c. case c of CreateJobSet d \<Rightarrow> Some (Msg ''quota exceeded'') | _ \<Rightarrow> None)\<rparr>"

section \<open>Memory and progress of the cleanup\<close>

text \<open>C34: bounded memory. After a tick without an error each of the three cross-tick maps holds entries
  for jobs of that tick's listing only, whatever the log and the maps held before.\<close>

theorem memory_bounded_by_listing:
  assumes "tick e s st = (st', None)" "wf_schedule s"
  shows "dom (commentState st') \<union> dom (seenAt st') \<union> dom (orphanSeen st')
    \<subseteq> JobID ` set (fst (ask_jobs e (trace st)))"
  using assms(1)
proof (cases rule: tick_cases)
  case (complete st2 snap st3 st4)
  let ?m = "map_of (listed e st)"
  have "dom ?m \<subseteq> JobID ` set (fst (ask_jobs e (trace st)))"
    unfolding listed_def by (rule by_id_dom)
  moreover have "dom (commentState st') \<subseteq> dom ?m" "dom (seenAt st') \<subseteq> dom ?m"
    by (auto simp: complete(5) pruneCommentState_def pruneSeenAt_def split: if_splits)
  moreover have "dom (orphanSeen st') \<subseteq> dom ?m"
  proof -
    have ro: "ranges_over (job_order s (map snd (listed e st))) ?m"
      unfolding listed_def by (rule by_id_ranges) (use assms(2) in \<open>simp add: wf_schedule_def\<close>)
    obtain s1 errs where "cleanup_loop e (live_cfg e (trace st)) snap ?m
        (js_order s (map snd (ownedJobSets snap))) st3 [] = (s1, errs)" by (rule prod.exhaust)
    then have "st4 = cancelOrphanedJobs e (live_cfg e (trace st)) snap ?m (job_order s (map snd (listed e st))) s1"
      using complete(4) by (simp add: cleanupFinishedJobs_def)
    then have "dom (orphanSeen st4) \<subseteq> dom ?m" using orphan_counters_dom [OF ro] by blast
    then show ?thesis by (simp add: complete(5) pruneCommentState_def pruneSeenAt_def)
  qed
  ultimately show ?thesis by blast
qed auto

definition idle_env :: env where
  "idle_env = calm_env\<lparr>ask_jobs := (\<lambda>_. ([example_job\<lparr>JobState := [''RUNNING'']\<rparr>], None))\<rparr>"

theorem memory_bounded_by_listing_witness:
  "seenAt (fst (tick idle_env all_in_order (New\<lparr>seenAt := [7 \<mapsto> 1]\<rparr>))) 7 = None"
proof -
  let ?st = "New\<lparr>seenAt := [7 \<mapsto> 1]\<rparr>"
  have "snd (tick idle_env all_in_order ?st) = None"
    by (simp add: tick_def idle_env_def calm_env_def Let_def collectJob_def IsPending_def example_job_simps
        take_snapshot_def all_in_order_def admitHeldJobs_def cleanupFinishedJobs_def index_jobsets_def New_def
        split: prod.split)
  then have "tick idle_env all_in_order ?st = (fst (tick idle_env all_in_order ?st), None)"
    by (simp add: prod_eq_iff)
  from memory_bounded_by_listing [OF this all_in_order(1)] show ?thesis
    by (auto simp: idle_env_def calm_env_def example_job_simps)
qed

text \<open>C25: finished jobs free their capacity. In a cleanup pass, the JobSet of a listed terminal job that
  is not retained for inspection is asked to be deleted, wherever it comes in the order, whatever
  lookups, cancels or deletions of the others fail.\<close>

theorem finished_jobset_is_deleted:
  assumes "List.member jss js" "ParseUint (label_of js SlurmJobIDLabel) 64 = Some k"
    and "byID (of_nat k) = Some j" "IsTerminal j"
    and "map_of (js_annotations js) RetainUntilAnnotation = None"
  shows "\<exists>r. logs (DeleteJobSet (js_name js), r) st (fst (cleanupFinishedJobs e c snap byID jss jobs st))"
proof -
  have one: "\<exists>r. logs (DeleteJobSet (js_name js), r) s (fst (cleanupOne e c snap byID js s))" for s
    using removeJobSet_deletes [OF assms(5), of e "of_nat k" True s] assms(2-4)
    by (force simp: cleanupOne_def cleanupKnown_def logs_def)
  have "\<exists>r. logs (DeleteJobSet (js_name js), r) s (fst (cleanup_loop e c snap byID xs s errs))"
    if "js \<in> set xs" for xs s errs
    using that
  proof (induction xs arbitrary: s errs)
    case (Cons x xs)
    obtain s1 r where o: "cleanupOne e c snap byID x s = (s1, r)" by (rule prod.exhaust)
    have step: "cleanup_loop e c snap byID (x # xs) s errs =
        cleanup_loop e c snap byID xs s1 (errs @ (case r of None \<Rightarrow> [] | Some err \<Rightarrow> [err]))"
      by (simp add: o split: option.split)
    show ?case
    proof (cases "x = js")
      case True
      then show ?thesis using one [of s] o unfolding step
        by (auto intro: logs_before [OF _ cleanup_loop_adds])
    next
      case False
      then have "\<exists>q. logs (DeleteJobSet (js_name js), q) s1
          (fst (cleanup_loop e c snap byID xs s1 (errs @ (case r of None \<Rightarrow> [] | Some err \<Rightarrow> [err]))))"
        using Cons.IH Cons.prems by simp
      moreover have "adds cleanup_entry s (fst (s1, r))"
        unfolding o [symmetric] by (rule cleanupOne_adds)
      ultimately show ?thesis unfolding step by (auto intro: logs_after)
    qed
  qed simp
  then obtain q where "logs (DeleteJobSet (js_name js), q) st (fst (cleanup_loop e c snap byID jss st []))"
    using assms(1) unfolding List.member_iff by blast
  then have "logs (DeleteJobSet (js_name js), q) st (cancelOrphanedJobs e c snap byID jobs
      (fst (cleanup_loop e c snap byID jss st [])))"
    by (rule logs_before [OF _ cancelOrphanedJobs_adds])
  then show ?thesis by (auto simp: cleanupFinishedJobs_def split: prod.split)
qed

theorem finished_jobset_is_deleted_witness:
  "\<exists>r. logs (DeleteJobSet (js_name example_jobset), r) New
     (fst (cleanupFinishedJobs (calm_env\<lparr>ask := \<lambda>_ _. Some (Msg ''unavailable'')\<rparr>) example_config
        \<lparr>ownedJobSets = [], workloadsByJobSet = Map.empty\<rparr>
        [42 \<mapsto> example_job\<lparr>JobState := [''COMPLETED'']\<rparr>] [example_jobset] [] New))"
proof (rule finished_jobset_is_deleted [where k = 42 and j = "example_job\<lparr>JobState := [''COMPLETED'']\<rparr>"])
  show "ParseUint (label_of example_jobset SlurmJobIDLabel) 64 = Some 42"
    "map_of (js_annotations example_jobset) RetainUntilAnnotation = None"
    by (rule ToJobSet_InrE [OF example_jobset];
        simp add: label_of_def map_of_jobSetLabels example_job_simps submitTimeAnnotation_def;
        simp add: label_names ParseUint_dec_u64 [of 42, simplified] dec_u64_def)+
qed (simp_all add: IsTerminal_def terminal_states_def List.member_iff)

end
