(* ===== verification/Metrics.thy ===== *)
theory Metrics imports
  Bridge_Prelude
begin

text \<open>
  The Prometheus collectors of the two programs (\<open>internal/metrics/metrics.go\<close>,
  \<open>internal/raybridge/metrics.go\<close>) and their registration. The registry is library code; what is used
  of it: a histogram's buckets must increase, and \<open>MustRegister\<close> panics on a name it has already.
\<close>

section \<open>Collectors\<close>

datatype metric_kind = Counter | Gauge | Histogram "rat list"

record collector =
  m_name :: string
  m_kind :: metric_kind
  m_labels :: "string list"

definition TickDuration :: collector where
  "TickDuration = \<lparr>m_name = ''k8s_bridge_tick_duration_seconds'', m_kind = Histogram
     [1 / 20, 1 / 10, 1 / 4, 1 / 2, 1, 5 / 2, 5, 10, 20, 30, 60, 120], m_labels = []\<rparr>"

definition TicksTotal :: collector where
  "TicksTotal = \<lparr>m_name = ''k8s_bridge_ticks_total'', m_kind = Counter, m_labels = []\<rparr>"

definition TickErrorsTotal :: collector where
  "TickErrorsTotal = \<lparr>m_name = ''k8s_bridge_tick_errors_total'', m_kind = Counter, m_labels = []\<rparr>"

definition JobSetsCreatedTotal :: collector where
  "JobSetsCreatedTotal = \<lparr>m_name = ''k8s_bridge_jobsets_created_total'', m_kind = Counter, m_labels = []\<rparr>"

definition JobSetsDeletedTotal :: collector where
  "JobSetsDeletedTotal = \<lparr>m_name = ''k8s_bridge_jobsets_deleted_total'', m_kind = Counter, m_labels = []\<rparr>"

definition JobSetCreateErrorsTotal :: collector where
  "JobSetCreateErrorsTotal = \<lparr>m_name = ''k8s_bridge_jobset_create_errors_total'', m_kind = Counter, m_labels = []\<rparr>"

definition JobsFailedTotal :: collector where
  "JobsFailedTotal = \<lparr>m_name = ''k8s_bridge_jobs_failed_total'', m_kind = Counter, m_labels = []\<rparr>"

definition OrphanedJobsCancelledTotal :: collector where
  "OrphanedJobsCancelledTotal = \<lparr>m_name = ''k8s_bridge_orphaned_jobs_cancelled_total'', m_kind = Counter, m_labels = []\<rparr>"

definition PreemptionDrainsTotal :: collector where
  "PreemptionDrainsTotal = \<lparr>m_name = ''k8s_bridge_preemption_drains_total'', m_kind = Counter, m_labels = []\<rparr>"

definition HeldJobs :: collector where
  "HeldJobs = \<lparr>m_name = ''k8s_bridge_held_jobs'', m_kind = Gauge, m_labels = []\<rparr>"

definition LastSuccessfulTickTimestamp :: collector where
  "LastSuccessfulTickTimestamp = \<lparr>m_name = ''k8s_bridge_last_successful_tick_timestamp_seconds'', m_kind = Gauge, m_labels = []\<rparr>"

definition SlurmJobsListed :: collector where
  "SlurmJobsListed = \<lparr>m_name = ''k8s_bridge_slurm_jobs_listed'', m_kind = Gauge, m_labels = []\<rparr>"

definition SlurmAPIRequestsTotal :: collector where
  "SlurmAPIRequestsTotal = \<lparr>m_name = ''k8s_bridge_slurm_api_requests_total'', m_kind = Counter, m_labels = [''method'', ''code'']\<rparr>"

definition SlurmRequestDuration :: collector where
  "SlurmRequestDuration = \<lparr>m_name = ''k8s_bridge_slurm_request_duration_seconds'', m_kind = Histogram
     [1 / 200, 1 / 100, 1 / 40, 1 / 20, 1 / 10, 1 / 4, 1 / 2, 1, 5 / 2, 5, 10, 30], m_labels = [''method'']\<rparr>"

definition JobSetIdentityConflictsTotal :: collector where
  "JobSetIdentityConflictsTotal = \<lparr>m_name = ''k8s_bridge_jobset_identity_conflicts_total'', m_kind = Counter, m_labels = []\<rparr>"

definition OrphanCancellationsRefusedTotal :: collector where
  "OrphanCancellationsRefusedTotal = \<lparr>m_name = ''k8s_bridge_orphan_cancellations_refused_total'', m_kind = Counter, m_labels = []\<rparr>"

definition JobReleaseLatency :: collector where
  "JobReleaseLatency = \<lparr>m_name = ''k8s_bridge_job_release_latency_seconds'', m_kind = Histogram
     [1 / 2, 1, 5 / 2, 5, 10, 30, 60, 120, 300, 600, 1800, 3600], m_labels = []\<rparr>"

definition TickTriggerTotal :: collector where
  "TickTriggerTotal = \<lparr>m_name = ''k8s_bridge_tick_trigger_total'', m_kind = Counter, m_labels = [''source'']\<rparr>"

section \<open>Collectors of ray-bridge\<close>

definition WorkerJobSetsCreatedTotal :: collector where
  "WorkerJobSetsCreatedTotal = \<lparr>m_name = ''ray_bridge_worker_jobsets_created_total'', m_kind = Counter, m_labels = []\<rparr>"

definition WorkerJobSetsFailedTotal :: collector where
  "WorkerJobSetsFailedTotal = \<lparr>m_name = ''ray_bridge_worker_jobsets_failed_total'', m_kind = Counter, m_labels = []\<rparr>"

definition ReconcileErrorsTotal :: collector where
  "ReconcileErrorsTotal = \<lparr>m_name = ''ray_bridge_reconcile_errors_total'', m_kind = Counter, m_labels = []\<rparr>"

definition WebhookDecisionsTotal :: collector where
  "WebhookDecisionsTotal = \<lparr>m_name = ''ray_bridge_webhook_decisions_total'', m_kind = Counter, m_labels = [''decision'']\<rparr>"

section \<open>Registration\<close>

text \<open>In the order of the calls, with the Go names.\<close>

definition k8s_collectors :: "(string \<times> collector) list" where
  "k8s_collectors =
     [(''TickDuration'', TickDuration),
      (''TicksTotal'', TicksTotal),
      (''TickErrorsTotal'', TickErrorsTotal),
      (''JobSetsCreatedTotal'', JobSetsCreatedTotal),
      (''JobSetsDeletedTotal'', JobSetsDeletedTotal),
      (''JobSetCreateErrorsTotal'', JobSetCreateErrorsTotal),
      (''JobsFailedTotal'', JobsFailedTotal),
      (''OrphanedJobsCancelledTotal'', OrphanedJobsCancelledTotal),
      (''PreemptionDrainsTotal'', PreemptionDrainsTotal),
      (''HeldJobs'', HeldJobs),
      (''LastSuccessfulTickTimestamp'', LastSuccessfulTickTimestamp),
      (''SlurmJobsListed'', SlurmJobsListed),
      (''SlurmAPIRequestsTotal'', SlurmAPIRequestsTotal),
      (''SlurmRequestDuration'', SlurmRequestDuration),
      (''JobSetIdentityConflictsTotal'', JobSetIdentityConflictsTotal),
      (''OrphanCancellationsRefusedTotal'', OrphanCancellationsRefusedTotal),
      (''JobReleaseLatency'', JobReleaseLatency),
      (''TickTriggerTotal'', TickTriggerTotal)]"

definition ray_collectors :: "(string \<times> collector) list" where
  "ray_collectors =
     [(''WorkerJobSetsCreatedTotal'', WorkerJobSetsCreatedTotal),
      (''WorkerJobSetsFailedTotal'', WorkerJobSetsFailedTotal),
      (''ReconcileErrorsTotal'', ReconcileErrorsTotal),
      (''WebhookDecisionsTotal'', WebhookDecisionsTotal)]"

definition constructible :: "collector \<Rightarrow> bool" where
  "constructible c = (case m_kind c of Histogram bs \<Rightarrow> sorted_wrt (<) bs | _ \<Rightarrow> True)"

fun MustRegister :: "collector list \<Rightarrow> collector list \<Rightarrow> collector list option" where
  "MustRegister registry [] = Some registry"
| "MustRegister registry (c # cs) =
     (if \<not> constructible c \<or> list_ex (\<lambda>d. m_name d = m_name c) registry then None else MustRegister (registry @ [c]) cs)"

section \<open>Lemmas\<close>

lemmas k8s_collector_defs = TickDuration_def TicksTotal_def TickErrorsTotal_def JobSetsCreatedTotal_def
  JobSetsDeletedTotal_def JobSetCreateErrorsTotal_def JobsFailedTotal_def OrphanedJobsCancelledTotal_def
  PreemptionDrainsTotal_def HeldJobs_def LastSuccessfulTickTimestamp_def SlurmJobsListed_def
  SlurmAPIRequestsTotal_def SlurmRequestDuration_def JobSetIdentityConflictsTotal_def OrphanCancellationsRefusedTotal_def
  JobReleaseLatency_def TickTriggerTotal_def

lemmas ray_collector_defs = WorkerJobSetsCreatedTotal_def WorkerJobSetsFailedTotal_def ReconcileErrorsTotal_def WebhookDecisionsTotal_def

lemma MustRegister_iff:
  "MustRegister registry cs = Some rs \<longleftrightarrow>
     rs = registry @ cs \<and> list_all constructible cs \<and> distinct (map m_name cs) \<and> set (map m_name cs) \<inter> set (map m_name registry) = {}"
proof (induction registry cs rule: MustRegister.induct)
  case (2 registry c cs)
  have "list_ex (\<lambda>d. m_name d = m_name c) registry \<longleftrightarrow> m_name c \<in> set (map m_name registry)"
    by (auto simp: list_ex_iff intro: rev_image_eqI)
  with 2 show ?case by auto
qed auto

text \<open>Neither program panics in \<open>init\<close>: all collectors end up in the registry.\<close>

lemma k8s_collectors_register: "MustRegister [] (map snd k8s_collectors) = Some (map snd k8s_collectors)"
  by (simp add: MustRegister_iff k8s_collectors_def constructible_def k8s_collector_defs)

lemma ray_collectors_register: "MustRegister [] (map snd ray_collectors) = Some (map snd ray_collectors)"
  by (simp add: MustRegister_iff ray_collectors_def constructible_def ray_collector_defs)

text \<open>The naming convention: counters and only counters end in \<open>_total\<close>, and no label is a job or JobSet.\<close>

lemma collectors_follow_convention:
  "list_all (\<lambda>(g, c). m_kind c = Counter \<longleftrightarrow> take 6 (rev (m_name c)) = rev ''_total'') (k8s_collectors @ ray_collectors)"
  "list_all (\<lambda>(g, c). list_all (List.member [''method'', ''code'', ''source'', ''decision'']) (m_labels c)) (k8s_collectors @ ray_collectors)"
  by (simp_all add: k8s_collectors_def ray_collectors_def k8s_collector_defs ray_collector_defs)

end
