(* ===== verification/Bridge_Audit.thy ===== *)
theory Bridge_Audit imports
  Bridge_Tick
  Metrics
begin

text \<open>
  The books of the bridge: its counters against its log, over any run of ticks. A dashboard reads
  the counters; the log is what the bridge has done.
\<close>

section \<open>What the counters stand for\<close>

definition bridge_counters :: "string list" where
  "bridge_counters =
     [''JobSetsCreatedTotal'', ''JobSetsDeletedTotal'', ''JobSetCreateErrorsTotal'', ''JobsFailedTotal'',
      ''OrphanedJobsCancelledTotal'', ''PreemptionDrainsTotal'', ''JobSetIdentityConflictsTotal'',
      ''OrphanCancellationsRefusedTotal'']"

definition creation :: "entry \<Rightarrow> bool" where
  "creation en = (case fst en of CreateJobSet d \<Rightarrow> snd en = None | _ \<Rightarrow> False)"

text \<open>A JobSet that was gone already counts as deleted.\<close>

definition gone :: "error option \<Rightarrow> bool" where
  "gone r = (case r of None \<Rightarrow> True | Some err \<Rightarrow> is_kube_not_found err)"

definition deletion :: "entry \<Rightarrow> bool" where
  "deletion en = (case fst en of DeleteJobSet n \<Rightarrow> gone (snd en) | _ \<Rightarrow> False)"

definition books :: "bridge \<Rightarrow> bool" where
  "books st \<longleftrightarrow>
     counters st ''JobSetsCreatedTotal'' = length (filter creation (trace st))
     \<and> counters st ''JobSetsDeletedTotal'' = length (filter deletion (trace st))
     \<and> (\<forall>m. m \<notin> set bridge_counters \<longrightarrow> counters st m = 0)"

lemma bridge_counters_registered:
  "list_all (\<lambda>m. case map_of k8s_collectors m of None \<Rightarrow> False | Some c \<Rightarrow> m_kind c = Counter \<and> m_labels c = []) bridge_counters"
  by (simp add: bridge_counters_def k8s_collectors_def k8s_collector_defs)

section \<open>Rules\<close>

definition off_books :: "call \<Rightarrow> bool" where
  "off_books c = (case c of CreateJobSet d \<Rightarrow> False | DeleteJobSet n \<Rightarrow> False | _ \<Rightarrow> True)"

lemma books_fields [simp]:
  "books (st\<lparr>commentState := cm\<rparr>) = books st" "books (st\<lparr>seenAt := sm\<rparr>) = books st" "books (st\<lparr>orphanSeen := om\<rparr>) = books st"
  by (simp_all add: books_def)

lemma books_record: "books st \<Longrightarrow> off_books c \<Longrightarrow> books (record_call c r st)"
  by (simp add: books_def creation_def deletion_def off_books_def split: call.splits)

lemma books_perform: "books st \<Longrightarrow> off_books c \<Longrightarrow> books (fst (perform e c st))"
  by (simp add: perform_def Let_def books_record)

lemma books_eventf: "books st \<Longrightarrow> books (eventf e obj ty rs st)"
  by (simp add: eventf_def books_record off_books_def)

lemma books_inc:
  "books st \<Longrightarrow> m \<in> set bridge_counters \<Longrightarrow> m \<noteq> ''JobSetsCreatedTotal'' \<Longrightarrow> m \<noteq> ''JobSetsDeletedTotal'' \<Longrightarrow> books (inc m st)"
  by (auto simp: books_def)

lemma books_create: "books st \<Longrightarrow> books (inc ''JobSetsCreatedTotal'' (record_call (CreateJobSet d) None st))"
  by (simp add: books_def creation_def deletion_def bridge_counters_def)

lemma books_create_failed: "books st \<Longrightarrow> books (record_call (CreateJobSet d) (Some err) st)"
  by (simp add: books_def creation_def deletion_def)

lemma books_delete:
  "books st \<Longrightarrow> gone r \<Longrightarrow> books (inc ''JobSetsDeletedTotal'' (record_call (DeleteJobSet n) r st))"
  "books st \<Longrightarrow> \<not> gone r \<Longrightarrow> books (record_call (DeleteJobSet n) r st)"
  by (simp_all add: books_def creation_def deletion_def bridge_counters_def)

section \<open>Every step keeps the books\<close>

lemma collectJob_books: "books (fst acc) \<Longrightarrow> books (fst (collectJob e c t j acc))"
  by (auto simp: collectJob_def Let_def signalUnmanagedPartition_def perform_def books_record off_books_def
      split: prod.splits option.splits)

lemma collect_books: "books (fst acc) \<Longrightarrow> books (fst (fold (collectJob e c t) jobs acc))"
  by (induction jobs arbitrary: acc) (simp_all add: collectJob_books)

lemma take_snapshot_books: "books st \<Longrightarrow> books (fst (take_snapshot e c st))"
  by (simp add: take_snapshot_def Let_def books_record off_books_def split: sum.split)

lemma identityConflict_books: "books st \<Longrightarrow> books (fst (jobSetIdentityConflict e ex d st))"
  by (simp add: jobSetIdentityConflict_def books_eventf books_inc bridge_counters_def)

lemma ensureJobSet_books:
  assumes "books st" "ensureJobSet e d st = (st', r)"
  shows "if r = Inr True then books (inc ''JobSetsCreatedTotal'' st') else books st'"
  using assms
  by (auto simp: ensureJobSet_def perform_def get_jobset_def Let_def books_create books_create_failed books_record off_books_def
      jobSetIdentityConflict_def books_eventf books_inc bridge_counters_def split: prod.splits option.splits sum.splits if_splits)

lemma prepareJob_books:
  assumes "books st"
  shows "books (fst (prepareJob e c snap j st))"
proof -
  have "books (fst (case ensureJobSet e d st of
      (st1, Inl err) \<Rightarrow> (st1, Prepared j d (Some err))
    | (st1, Inr created) \<Rightarrow>
        (if created then eventf e (js_name d) ''Normal'' ''Created'' (inc ''JobSetsCreatedTotal'' st1) else st1, Prepared j d None)))" for d
    using ensureJobSet_books [OF assms, of e d] by (auto simp: books_eventf split: prod.split sum.split)
  then show ?thesis
    using identityConflict_books [OF assms] assms
    by (auto simp: prepareJob_def books_eventf split: sum.split option.split prod.split) (metis fst_conv)+
qed

lemma phase1_books: "books st \<Longrightarrow> books (fst (phase1 e c snap held order st res))"
proof (induction order arbitrary: st res)
  case (Cons i order)
  then show ?case using prepareJob_books [OF Cons.prems, of e c snap "held ! i"]
    by (cases "prepareJob e c snap (held ! i) st") simp
qed simp

lemma propagateStatus_books: "books st \<Longrightarrow> books (propagateStatus e j wl st)"
  by (auto simp: propagateStatus_def Let_def perform_def books_record off_books_def split: prod.split option.split)

lemma releaseAdmitted_books: "books st \<Longrightarrow> books (releaseAdmitted e j d st)"
  by (auto simp: releaseAdmitted_def Let_def perform_def books_record books_eventf off_books_def split: prod.split option.split)

lemma admitOne_books: "books st \<Longrightarrow> books (admitOne e snap j d st)"
  by (simp add: admitOne_def Let_def propagateStatus_books releaseAdmitted_books)

lemma phase2_books: "books st \<Longrightarrow> books (fst (phase2 e snap ps st errs))"
  by (induction e snap ps st errs rule: phase2.induct) (simp_all add: books_inc bridge_counters_def admitOne_books)

lemma admitHeldJobs_books: "books st \<Longrightarrow> books (fst (admitHeldJobs e c order held snap st))"
  using phase1_books [of st e c snap "sort_key JobID held" order "replicate (length held) Skipped"]
  by (auto simp: admitHeldJobs_def Let_def split: prod.splits) (metis fst_conv phase2_books)

lemma delete_nodes_books: "books st \<Longrightarrow> books (fst (delete_nodes e ns b st))"
  by (induction e ns b st rule: delete_nodes.induct)
    (auto simp: perform_def Let_def books_record off_books_def split: option.splits)

lemma drain_nodes_books: "books st \<Longrightarrow> books (fst (drain_nodes e ns n st))"
  by (induction e ns n st rule: drain_nodes.induct)
    (auto simp: perform_def Let_def books_record off_books_def split: option.splits)

lemma drainPreemptedNodes_books: "books st \<Longrightarrow> books (drainPreemptedNodes e j js st)"
  using drain_nodes_books [of st e "NodeNames (JobID j) (jobSetParallelism js)" 0]
  by (auto simp: drainPreemptedNodes_def books_eventf books_inc bridge_counters_def split: prod.split)

lemma priority_books: "books st \<Longrightarrow> books (applyPriorityDirective e j wl st)" "books st \<Longrightarrow> books (fst (syncPriority e js j wl st))"
  by (auto simp: applyPriorityDirective_def syncPriority_def mirrorToSlurm_def rememberSyncedPriority_def Let_def perform_def
      books_record off_books_def split: prod.split option.split)

lemma maintainLive_books: "books st \<Longrightarrow> books (maintainLive e c snap j js st)"
  by (simp add: maintainLive_def Let_def priority_books drainPreemptedNodes_books)

lemma failJob_books: "books st \<Longrightarrow> books (fst (failJobForDeadJobSet e j js st))"
  by (simp add: failJobForDeadJobSet_def Let_def perform_def books_eventf books_inc books_record bridge_counters_def off_books_def)

lemma stampRetention_books: "books st \<Longrightarrow> books (fst (stampRetention e c js st))"
  by (simp add: stampRetention_def Let_def perform_def books_eventf books_record off_books_def split: option.split)

lemma releaseNodes_books: "books st \<Longrightarrow> books (fst (releaseNodes e i found js st))"
  using delete_nodes_books [of st e "NodeNames i (jobSetParallelism js)" True]
  by (auto simp: releaseNodes_def markNodesReleased_def Let_def perform_def books_record off_books_def split: prod.split option.split)

lemma removeJobSet_books: "books st \<Longrightarrow> books (removeJobSet e i found js st)"
proof -
  assume "books st"
  obtain st1 js1 where r: "releaseNodes e i found js st = (st1, js1)" by (rule prod.exhaust)
  have "books st1" using releaseNodes_books [OF \<open>books st\<close>, of e i found js] by (simp add: r)
  then show ?thesis by (simp add: removeJobSet_def r perform_def Let_def gone_def [symmetric] books_delete)
qed

lemma failDead_books: "books st \<Longrightarrow> books (failDead e c i j js st)"
  using stampRetention_books [of st e c js] failJob_books removeJobSet_books
  by (auto simp: failDead_def split: prod.split) (metis fst_conv)+

lemma cleanupKnown_books: "books st \<Longrightarrow> books (cleanupKnown e c snap i jo js st)"
  by (simp add: cleanupKnown_def removeJobSet_books failDead_books maintainLive_books split: option.split)

lemma cleanupOne_books: "books st \<Longrightarrow> books (fst (cleanupOne e c snap byID js st))"
  by (auto simp: cleanupOne_def get_job_def Let_def cleanupKnown_books books_record off_books_def split: option.split sum.split)

lemma cleanup_loop_books: "books st \<Longrightarrow> books (fst (cleanup_loop e c snap byID jss st errs))"
proof (induction jss arbitrary: st errs)
  case (Cons js jss)
  then show ?case using cleanupOne_books [OF Cons.prems, of e c snap byID js]
    by (cases "cleanupOne e c snap byID js st") (auto split: option.split)
qed simp

lemma cancelOrphan_books: "books st \<Longrightarrow> books (cancelOrphan e c j st)"
  by (auto simp: cancelOrphan_def Let_def perform_def intro!: books_record books_inc delete_nodes_books
      simp: off_books_def bridge_counters_def split: option.split)

lemma cancelOrphans_books: "books st \<Longrightarrow> books (fold (cancelOrphan e c) js st)"
  by (induction js arbitrary: st) (simp_all add: cancelOrphan_books)

lemma cancelOrphanedJobs_books: "books st \<Longrightarrow> books (cancelOrphanedJobs e c snap byID jobs st)"
  by (simp add: cancelOrphanedJobs_eq scanned_def pruneOrphans_def cancelOrphans_books books_inc bridge_counters_def)

lemma cleanup_books: "books st \<Longrightarrow> books (fst (cleanupFinishedJobs e c snap byID jss jobs st))"
  using cleanup_loop_books [of st e c snap byID jss "[]"]
  by (auto simp: cleanupFinishedJobs_def cancelOrphanedJobs_books split: prod.split)

lemma collected_books: "books st \<Longrightarrow> books (collected e st)"
  unfolding collected_def collection_def by (rule collect_books) (simp add: books_record off_books_def)

lemma tick_books:
  assumes "books st"
  shows "books (fst (tick e s st))"
proof -
  obtain st' r where t: "tick e s st = (st', r)" by fastforce
  have snap: "books st2" if "take_snapshot e (live_cfg e (trace st)) (collected e st) = (st2, q)" for st2 q
    using take_snapshot_books [OF collected_books [OF assms, of e], of e "live_cfg e (trace st)"] that by simp
  have pass: "books st3" if "admitHeldJobs e c order held sn st2 = (st3, q)" "books st2" for c order held sn st2 st3 q
    using admitHeldJobs_books [OF that(2), of e c order held sn] that(1) by simp
  from t have "books st'"
  proof (cases rule: tick_cases)
    case (listing err)
    then show ?thesis by (simp add: collected_books assms)
  next
    case (snapshot err)
    then show ?thesis by (intro snap)
  next
    case (admission st2 sn err)
    then show ?thesis using snap pass by blast
  next
    case (complete st2 sn st3 st4)
    then have "books st3" using snap pass by blast
    from cleanup_books [OF this] complete(4) have "books st4" by (metis fst_conv)
    then show ?thesis unfolding complete(5) by (simp add: pruneSeenAt_def pruneCommentState_def)
  qed
  then show ?thesis by (simp add: t)
qed

lemma bridge_run_books: "bridge_run st \<Longrightarrow> books st"
proof (induction rule: bridge_run.induct)
  case start
  then show ?case by (simp add: books_def New_def)
next
  case (step st s e)
  then show ?case by (simp add: tick_books)
qed

section \<open>Properties\<close>

text \<open>C8: the counters tell what was done. In every run of the bridge, whatever the outside answers, the
  JobSets counted as created are the successful creations in its log, those counted as deleted are
  the deletions after which the JobSet was gone, and no counter moves that is not a registered
  counter without labels.\<close>

theorem counters_match_the_log:
  assumes "bridge_run st"
  shows "counters st ''JobSetsCreatedTotal'' = length (filter creation (trace st))
    \<and> counters st ''JobSetsDeletedTotal'' = length (filter deletion (trace st))
    \<and> (counters st m = 0 \<or> (\<exists>c. map_of k8s_collectors m = Some c \<and> m_kind c = Counter \<and> m_labels c = []))"
proof -
  have "\<exists>c. map_of k8s_collectors m = Some c \<and> m_kind c = Counter \<and> m_labels c = []" if "m \<in> set bridge_counters"
    using that bridge_counters_registered by (auto simp: list_all_iff split: option.splits)
  then show ?thesis using bridge_run_books [OF assms] by (auto simp: books_def)
qed

text \<open>\<open>JobsFailedTotal\<close> counts attempts: a job whose cancellation Slurm refuses is counted in every tick.\<close>

lemma refused_cancel_is_counted:
  "ask e ((SetComment (JobID j) (''wm: JobSet failed: '' @ failureReason js), ask e (trace st)
      (SetComment (JobID j) (''wm: JobSet failed: '' @ failureReason js))) # trace st) (CancelSlurm (JobID j)) = Some err \<Longrightarrow>
   counters (fst (failJobForDeadJobSet e j js st)) ''JobsFailedTotal'' = Suc (counters st ''JobsFailedTotal'')
   \<and> \<not> snd (failJobForDeadJobSet e j js st)"
  by (simp add: failJobForDeadJobSet_def perform_def Let_def)

theorem counters_match_the_log_witness:
  "\<exists>st. bridge_run st \<and> trace st \<noteq> [] \<and> counters st ''JobSetsCreatedTotal'' = length (filter creation (trace st))"
proof -
  have run: "bridge_run (fst (tick busy_env all_in_order New))" by (rule bridge_run.step [OF bridge_run.start all_in_order(1)])
  have "trace (fst (tick busy_env all_in_order New)) \<noteq> []"
    using busy_release by (auto simp: logs_def New_def)
  with counters_match_the_log [OF run] run show ?thesis by blast
qed

end
