(* ===== verification/Go_Duration.thy ===== *)
theory Go_Duration imports
  Go_Strings
begin

text \<open>
  \<open>time.ParseDuration\<close>, which reads the durations of a resource's spec: a sign, then numbers with
  units, each with an optional fraction. The sum is a 64-bit word, as in the library; \<open>fl\<close> rounds
  to \<open>float64\<close>, which only a fraction goes through.
\<close>

section \<open>The scanner\<close>

text \<open>\<open>leadingInt\<close>: the digits in front; \<open>None\<close> when the number leaves 63 bits.\<close>

fun leadingInt :: "nat \<Rightarrow> string \<Rightarrow> (nat \<times> string) option" where
  "leadingInt x [] = Some (x, [])"
| "leadingInt x (c # s) =
     (if \<not> is_digit c then Some (x, c # s)
      else if 2 ^ 63 div 10 < x then None
      else if 2 ^ 63 < x * 10 + digit_val c then None
      else leadingInt (x * 10 + digit_val c) s)"

text \<open>\<open>leadingFraction\<close>: digits that no longer fit are skipped.\<close>

fun leadingFraction :: "nat \<Rightarrow> rat \<Rightarrow> bool \<Rightarrow> string \<Rightarrow> nat \<times> rat \<times> string" where
  "leadingFraction x scale overflow [] = (x, scale, [])"
| "leadingFraction x scale overflow (c # s) =
     (if \<not> is_digit c then (x, scale, c # s)
      else if overflow then leadingFraction x scale True s
      else if (2 ^ 63 - 1) div 10 < x then leadingFraction x scale True s
      else if 2 ^ 63 < x * 10 + digit_val c then leadingFraction x scale True s
      else leadingFraction (x * 10 + digit_val c) (scale * 10) False s)"

definition units :: "(string \<times> nat) list" where
  "units = [(''ns'', 1), (''us'', 1000), ([CHR 0xC2, CHR 0xB5, CHR ''s''], 1000), ([CHR 0xCE, CHR 0xBC, CHR ''s''], 1000),
     (''ms'', 1000000), (''s'', 1000000000), (''m'', 60000000000), (''h'', 3600000000000)]"

definition unit_char :: "char \<Rightarrow> bool" where
  "unit_char c \<longleftrightarrow> c \<noteq> CHR ''.'' \<and> \<not> is_digit c"

text \<open>One number with its unit: its nanoseconds and the rest.\<close>

definition parse_segment :: "(rat \<Rightarrow> rat) \<Rightarrow> string \<Rightarrow> (nat \<times> string) option" where
  "parse_segment fl s =
     (if s = [] \<or> \<not> (hd s = CHR ''.'' \<or> is_digit (hd s)) then None
      else case leadingInt 0 s of
        None \<Rightarrow> None
      | Some (v, s1) \<Rightarrow>
          (let pre = (length s1 \<noteq> length s);
               (f, scale, s2, post) =
                 (case s1 of
                    c # s1' \<Rightarrow>
                      if c = CHR ''.'' then
                        (case leadingFraction 0 1 False s1' of (f, scale, s2) \<Rightarrow> (f, scale, s2, length s2 \<noteq> length s1'))
                      else (0, 1, s1, False)
                  | [] \<Rightarrow> (0, 1, s1, False))
           in if \<not> pre \<and> \<not> post then None
              else let u = takeWhile unit_char s2; rest = dropWhile unit_char s2 in
                if u = [] then None
                else case map_of units u of
                  None \<Rightarrow> None
                | Some unit \<Rightarrow>
                    if 2 ^ 63 div unit < v then None
                    else let v1 = v * unit;
                             v2 = (if f > 0 then v1 + nat \<lfloor>fl (of_nat f * fl (of_nat unit / scale))\<rfloor> else v1)
                      in if 2 ^ 63 < v2 then None else Some (v2, rest)))"

lemma leadingInt_length: "leadingInt x s = Some (v, r) \<Longrightarrow> length r \<le> length s"
  by (induction x s rule: leadingInt.induct) (auto split: if_splits)

lemma leadingFraction_length: "leadingFraction x sc ov s = (f, scale, r) \<Longrightarrow> length r \<le> length s"
  by (induction x sc ov s rule: leadingFraction.induct) (auto split: if_splits)

lemma dropWhile_shorter: "takeWhile P s \<noteq> [] \<Longrightarrow> length (dropWhile P s) < length s"
  by (induction s) (auto simp: le_imp_less_Suc length_dropWhile_le split: if_splits)

lemma parse_segment_shorter:
  assumes "parse_segment fl s = Some (v, r)"
  shows "length r < length s"
proof -
  obtain v0 s1 where li: "leadingInt 0 s = Some (v0, s1)"
    using assms by (auto simp: parse_segment_def split: if_splits option.splits)
  define rest where "rest = (case s1 of
      c # s1' \<Rightarrow> if c = CHR ''.'' then snd (snd (leadingFraction 0 1 False s1')) else s1 | [] \<Rightarrow> s1)"
  have "length rest \<le> length s1"
    using leadingFraction_length [of 0 1 False] by (auto simp: rest_def le_Suc_eq split: list.split) (metis prod.collapse)
  moreover have "length s1 \<le> length s" by (rule leadingInt_length [OF li])
  moreover have "takeWhile unit_char rest \<noteq> [] \<and> r = dropWhile unit_char rest"
    using assms
    by (auto simp: parse_segment_def li rest_def Let_def split: if_splits option.splits list.splits prod.splits)
  ultimately show ?thesis using dropWhile_shorter [of unit_char rest] by simp
qed

text \<open>The loop; its sum is \<open>uint64\<close>.\<close>

function parse_segments :: "(rat \<Rightarrow> rat) \<Rightarrow> 64 word \<Rightarrow> string \<Rightarrow> 64 word option" where
  "parse_segments fl d s =
     (if s = [] then Some d
      else case parse_segment fl s of
        None \<Rightarrow> None
      | Some (v, r) \<Rightarrow>
          let d1 = d + of_nat v in if 2 ^ 63 < d1 then None else parse_segments fl d1 r)"
  by pat_completeness auto
termination
  by (relation "measure (\<lambda>(fl, d, s). length s)") (auto simp: parse_segment_shorter)

declare parse_segments.simps [simp del]

definition ParseDuration :: "(rat \<Rightarrow> rat) \<Rightarrow> string \<Rightarrow> int option" where
  "ParseDuration fl s =
     (let neg = (s \<noteq> [] \<and> hd s = CHR ''-'');
          s1 = (if s \<noteq> [] \<and> (hd s = CHR ''-'' \<or> hd s = CHR ''+'') then tl s else s)
      in if s1 = ''0'' then Some 0
         else if s1 = [] then None
         else case parse_segments fl 0 s1 of
           None \<Rightarrow> None
         | Some d \<Rightarrow>
             if neg then Some (sint (- d))
             else if 2 ^ 63 - 1 < d then None else Some (sint d))"

section \<open>Reading printed seconds\<close>

lemma digits_val_ge: "x \<le> digits_val x ds"
proof (induction ds arbitrary: x)
  case (Cons d ds)
  have "x \<le> 10 * x + digit_val d" by simp
  also have "\<dots> \<le> digits_val (10 * x + digit_val d) ds" by (rule Cons.IH)
  finally show ?case by simp
qed simp

lemma leadingInt_digits:
  assumes "list_all is_digit ds" "digits_val x ds \<le> 2 ^ 63" "case rest of [] \<Rightarrow> True | c # s \<Rightarrow> \<not> is_digit c"
  shows "leadingInt x (ds @ rest) = Some (digits_val x ds, rest)"
  using assms
proof (induction ds arbitrary: x)
  case Nil
  then show ?case by (cases rest) simp_all
next
  case (Cons d ds)
  have "10 * x + digit_val d \<le> 2 ^ 63"
    using digits_val_ge [of "10 * x + digit_val d" ds] Cons.prems(2) by simp
  then have "\<not> 2 ^ 63 div 10 < x" "\<not> 2 ^ 63 < x * 10 + digit_val d" by simp_all
  then show ?case using Cons by (simp add: mult.commute)
qed

lemma dec_first_digit: "dec n \<noteq> [] \<and> is_digit (hd (dec n))"
  using dec_digits [of n] dec_not_Nil [of n] by (cases "dec n") auto

text \<open>Whole seconds survive being printed and read, up to the limit of 63 bits of nanoseconds.\<close>

lemma parse_printed_seconds:
  assumes "int n * 1000000000 < 2 ^ 63"
  shows "ParseDuration fl (dec n @ ''s'') = Some (int n * 1000000000)"
proof -
  have "int (n * 1000000000) < int (2 ^ 63)" using assms by simp
  then have n: "n * 1000000000 < 2 ^ 63" by (simp only: of_nat_less_iff)
  have "leadingInt 0 (dec n @ ''s'') = Some (n, ''s'')"
    using leadingInt_digits [OF dec_digits, of 0 n "''s''"] n by (simp add: is_digit_def)
  moreover have "map_of units ''s'' = Some 1000000000" by (simp add: units_def)
  moreover have "unit_char CHR ''s''" by (simp add: unit_char_def is_digit_def)
  ultimately have "parse_segment fl (dec n @ ''s'') = Some (n * 1000000000, [])"
    using dec_first_digit [of n] n by (simp add: parse_segment_def)
  moreover have small: "uint (of_nat (n * 1000000000) :: 64 word) = int (n * 1000000000)"
    using n by (simp only: unsigned_of_nat) (simp add: take_bit_nat_eq_self)
  ultimately have "parse_segments fl 0 (dec n @ ''s'') = Some (of_nat (n * 1000000000))"
    using dec_first_digit [of n] n by (simp add: parse_segments.simps word_less_def)
  moreover have "sint (of_nat (n * 1000000000) :: 64 word) = int (n * 1000000000)"
    using sint_uint_small [of "of_nat (n * 1000000000)"] assms unfolding small by simp
  moreover obtain c cs where "dec n = c # cs" "is_digit c" using dec_first_digit [of n] by (cases "dec n") auto
  moreover from this have "c \<noteq> CHR ''-''" "c \<noteq> CHR ''+''" by (auto simp: is_digit_def)
  moreover have "\<not> 2 ^ 63 - 1 < (of_nat (n * 1000000000) :: 64 word)"
    using small n by (simp add: word_less_def)
  ultimately show ?thesis by (simp add: ParseDuration_def Let_def append_eq_Cons_conv)
qed

end
