(* ===== verification/CR_Config.thy ===== *)
theory CR_Config imports
  Bridge_Config
  Go_Duration
begin

text \<open>
  A WorkloadMixing resource as a configuration source (\<open>FromCR\<close> and \<open>parseCRDuration\<close> of
  \<open>internal/bridge/crdconfig.go\<close>, over the types of \<open>api/v1alpha1/workloadmixing_types.go\<close>). The
  nested types of the API have the fields of the configuration's own and share its records; the
  scalar fields carry the prefix \<open>cr_\<close>.
\<close>

section \<open>The resource\<close>

record wm_spec =
  cr_SlurmRestURL :: string
  cr_AllowInsecureHTTP :: bool
  cr_SlurmCACertFile :: string
  cr_SlurmInsecureSkipTLSVerify :: bool
  cr_SlurmUser :: string
  cr_SlurmTokenFile :: string
  cr_LocalQueue :: string
  cr_PollInterval :: string
  cr_SlurmRequestTimeout :: string
  cr_SlurmRequestsPerSecond :: rat
  cr_EnablePrioritySync :: bool
  cr_MaxUserPriority :: i32
  cr_CreateWorkers :: int
  cr_CancelOrphanedJobs :: bool
  cr_OrphanGraceTicks :: int
  cr_DrainOnPreemption :: bool
  cr_FailedJobSetRetention :: string
  cr_PartitionMappings :: "partition_mapping list"
  cr_Slurmd :: slurmd
  cr_Topology :: topology

record workloadmixing =
  wm_namespace :: string
  wm_name :: string
  wm_generation :: int
  wm_uid :: string
  wm_spec :: wm_spec

section \<open>The conversion\<close>

definition parseCRDuration :: "(rat \<Rightarrow> rat) \<Rightarrow> string \<Rightarrow> string \<Rightarrow> config_error + int" where
  "parseCRDuration fl field value =
     (if value = [] then Inr 0
      else case ParseDuration fl value of None \<Rightarrow> Inl (BadDuration field value) | Some d \<Rightarrow> Inr d)"

text \<open>\<open>fl\<close> rounds to \<open>float64\<close>, \<open>url_scheme\<close> is \<open>net/url\<close>'s parser, as in \<open>Validate\<close>.\<close>

definition FromCR :: "(rat \<Rightarrow> rat) \<Rightarrow> (string \<Rightarrow> string option) \<Rightarrow> workloadmixing \<Rightarrow> config_error + config" where
  "FromCR fl url_scheme wm =
     (let spec = wm_spec wm in
      case parseCRDuration fl ''pollInterval'' (cr_PollInterval spec) of
        Inl err \<Rightarrow> Inl err
      | Inr pollInterval \<Rightarrow>
     (case parseCRDuration fl ''slurmRequestTimeout'' (cr_SlurmRequestTimeout spec) of
        Inl err \<Rightarrow> Inl err
      | Inr slurmRequestTimeout \<Rightarrow>
     (case parseCRDuration fl ''failedJobSetRetention'' (cr_FailedJobSetRetention spec) of
        Inl err \<Rightarrow> Inl err
      | Inr failedJobSetRetention \<Rightarrow>
          let cfg = ApplyDefaults
            \<lparr>SlurmRestURL = cr_SlurmRestURL spec, SlurmTokenFile = cr_SlurmTokenFile spec,
             SlurmUser = cr_SlurmUser spec, AllowInsecureHTTP = cr_AllowInsecureHTTP spec,
             SlurmCACertFile = cr_SlurmCACertFile spec,
             SlurmInsecureSkipTLSVerify = cr_SlurmInsecureSkipTLSVerify spec,
             SlurmRequestTimeout = slurmRequestTimeout,
             SlurmRequestsPerSecond = cr_SlurmRequestsPerSecond spec,
             Namespace = wm_namespace wm, LocalQueue = cr_LocalQueue spec,
             PartitionMappings = cr_PartitionMappings spec, Slurmd = cr_Slurmd spec,
             Topology = cr_Topology spec, PollInterval = pollInterval,
             EnablePrioritySync = cr_EnablePrioritySync spec, MaxUserPriority = cr_MaxUserPriority spec,
             CancelOrphanedJobs = cr_CancelOrphanedJobs spec, OrphanGraceTicks = cr_OrphanGraceTicks spec,
             DrainOnPreemption = cr_DrainOnPreemption spec, FailedJobSetRetention = failedJobSetRetention,
             CreateWorkers = cr_CreateWorkers spec, WorkloadMixingName = []\<rparr>
          in (case Validate url_scheme cfg of
                Some err \<Rightarrow> Inl (InResource (wm_namespace wm) (wm_name wm) err)
              | None \<Rightarrow> Inr cfg))))"

section \<open>Lemmas\<close>

lemma ApplyDefaults_simps [simp]:
  "Namespace (ApplyDefaults c) = Namespace c" "SlurmRestURL (ApplyDefaults c) = SlurmRestURL c"
  "PartitionMappings (ApplyDefaults c) = PartitionMappings c" "SlurmTokenFile (ApplyDefaults c) = SlurmTokenFile c"
  "WorkloadMixingName (ApplyDefaults c) = WorkloadMixingName c"
  by (simp_all add: ApplyDefaults_def Let_def)

lemma FromCR_InrE:
  assumes "FromCR fl url_scheme wm = Inr c"
  obtains "Validate url_scheme c = None" "Namespace c = wm_namespace wm"
    "SlurmRestURL c = cr_SlurmRestURL (wm_spec wm)" "PartitionMappings c = cr_PartitionMappings (wm_spec wm)"
    "WorkloadMixingName c = []"
  using assms
  by (auto simp: FromCR_def Let_def split: sum.splits option.splits)

text \<open>A configuration written as a resource, with its durations printed in seconds.\<close>

definition printed_seconds :: "int \<Rightarrow> string" where
  "printed_seconds d = dec (nat (d div second)) @ ''s''"

definition as_resource :: "string \<Rightarrow> int \<Rightarrow> config \<Rightarrow> workloadmixing" where
  "as_resource name gen c =
     \<lparr>wm_namespace = Namespace c, wm_name = name, wm_generation = gen, wm_uid = [], wm_spec =
       \<lparr>cr_SlurmRestURL = SlurmRestURL c, cr_AllowInsecureHTTP = AllowInsecureHTTP c,
        cr_SlurmCACertFile = SlurmCACertFile c, cr_SlurmInsecureSkipTLSVerify = SlurmInsecureSkipTLSVerify c,
        cr_SlurmUser = SlurmUser c, cr_SlurmTokenFile = SlurmTokenFile c, cr_LocalQueue = LocalQueue c,
        cr_PollInterval = printed_seconds (PollInterval c),
        cr_SlurmRequestTimeout = printed_seconds (SlurmRequestTimeout c),
        cr_SlurmRequestsPerSecond = SlurmRequestsPerSecond c, cr_EnablePrioritySync = EnablePrioritySync c,
        cr_MaxUserPriority = MaxUserPriority c, cr_CreateWorkers = CreateWorkers c,
        cr_CancelOrphanedJobs = CancelOrphanedJobs c, cr_OrphanGraceTicks = OrphanGraceTicks c,
        cr_DrainOnPreemption = DrainOnPreemption c,
        cr_FailedJobSetRetention = printed_seconds (FailedJobSetRetention c),
        cr_PartitionMappings = PartitionMappings c, cr_Slurmd = Slurmd c, cr_Topology = Topology c\<rparr>\<rparr>"

lemma parseCRDuration_printed:
  assumes "0 \<le> d" "d < 2 ^ 63" "second dvd d"
  shows "parseCRDuration fl field (printed_seconds d) = Inr d"
proof -
  have d: "int (nat (d div second)) * 1000000000 = d"
    using assms(1,3) by (simp add: second_def pos_imp_zdiv_nonneg_iff)
  then have "ParseDuration fl (printed_seconds d) = Some d"
    using parse_printed_seconds [of "nat (d div second)" fl] assms(2) by (simp add: printed_seconds_def)
  then show ?thesis using dec_not_Nil by (simp add: parseCRDuration_def printed_seconds_def)
qed

lemma FromCR_as_resource:
  assumes "list_all (\<lambda>d. 0 \<le> d \<and> d < 2 ^ 63 \<and> second dvd d)
      [PollInterval c, SlurmRequestTimeout c, FailedJobSetRetention c]"
    and "WorkloadMixingName c = []"
  shows "FromCR fl url_scheme (as_resource name gen c) =
    (case Validate url_scheme (ApplyDefaults c) of
       Some err \<Rightarrow> Inl (InResource (Namespace c) name err) | None \<Rightarrow> Inr (ApplyDefaults c))"
proof -
  have "c = \<lparr>SlurmRestURL = SlurmRestURL c, SlurmTokenFile = SlurmTokenFile c, SlurmUser = SlurmUser c,
      AllowInsecureHTTP = AllowInsecureHTTP c, SlurmCACertFile = SlurmCACertFile c,
      SlurmInsecureSkipTLSVerify = SlurmInsecureSkipTLSVerify c, SlurmRequestTimeout = SlurmRequestTimeout c,
      SlurmRequestsPerSecond = SlurmRequestsPerSecond c, Namespace = Namespace c, LocalQueue = LocalQueue c,
      PartitionMappings = PartitionMappings c, Slurmd = Slurmd c, Topology = Topology c,
      PollInterval = PollInterval c, EnablePrioritySync = EnablePrioritySync c, MaxUserPriority = MaxUserPriority c,
      CancelOrphanedJobs = CancelOrphanedJobs c, OrphanGraceTicks = OrphanGraceTicks c,
      DrainOnPreemption = DrainOnPreemption c, FailedJobSetRetention = FailedJobSetRetention c,
      CreateWorkers = CreateWorkers c, WorkloadMixingName = []\<rparr>"
    using assms(2) by simp
  then show ?thesis using assms(1)
    by (simp add: FromCR_def as_resource_def parseCRDuration_printed Let_def split: option.split)
qed

text \<open>C39: one source of truth. A configuration that is written as a resource, its durations printed in
  seconds, comes back from \<open>FromCR\<close> as exactly the configuration the file loader makes of it:
  defaults applied, every field in its place, or refused with the same error, under the resource's name.\<close>

theorem resource_roundtrip:
  assumes "list_all (\<lambda>d. 0 \<le> d \<and> d < 2 ^ 63 \<and> second dvd d)
      [PollInterval c, SlurmRequestTimeout c, FailedJobSetRetention c]"
    and "WorkloadMixingName c = []"
  shows "FromCR fl url_scheme (as_resource name gen c) =
    (case Load url_scheme c of Inl err \<Rightarrow> Inl (InResource (Namespace c) name err) | Inr cfg \<Rightarrow> Inr cfg)"
  unfolding FromCR_as_resource [OF assms] Load_def Let_def by (simp split: option.split)

lemma example_valid: "Validate (\<lambda>_. Some ''https'') example_config = None"
  by (auto simp: Validate_def example_config_def check_url_def TrimSpace_graphic graphic_def byte_def second_def sless_sint)

lemma example_defaults: "ApplyDefaults example_config = example_config"
  by (simp add: ApplyDefaults_def example_config_def second_def)

theorem resource_roundtrip_witness:
  "FromCR (\<lambda>x. x) (\<lambda>_. Some ''https'') (as_resource ''mixing'' 1 example_config) = Inr example_config"
proof -
  have "Load (\<lambda>_. Some ''https'') example_config = Inr example_config"
    by (simp add: Load_def Let_def example_valid example_defaults)
  moreover have "list_all (\<lambda>d. 0 \<le> d \<and> d < 2 ^ 63 \<and> second dvd d)
      [PollInterval example_config, SlurmRequestTimeout example_config, FailedJobSetRetention example_config]"
    "WorkloadMixingName example_config = []"
    by (simp_all add: example_config_def second_def)
  ultimately show ?thesis
    using resource_roundtrip [of example_config "\<lambda>x. x" "\<lambda>_. Some ''https''" "''mixing''" 1] by simp
qed

end
