(* ===== verification/Ready_Condition.thy ===== *)
theory Ready_Condition imports
  CR_Config
begin

text \<open>
  The Ready condition of a WorkloadMixing resource and the reload of a single bound resource
  (\<open>UpdateReadyCondition\<close>, \<open>ReadyConditionWriter\<close> and \<open>ConfigReconciler\<close> of
  \<open>internal/bridge/crdconfig.go\<close>). A status write is the pair of calls it makes, recorded newest
  first with their outcomes; the merge into the condition list and the patch itself are the API
  machinery's. The writer's mutex is held across its writes, so its operations do not overlap.
\<close>

section \<open>The world\<close>

type_synonym cr_key = "string \<times> string"

record ready_condition =
  rc_status :: bool
  rc_reason :: string
  rc_message :: string
  rc_observed :: int

datatype cr_call = GetCR cr_key | PatchReady cr_key ready_condition | CREvent cr_key string

type_synonym cr_log = "(cr_call \<times> error option) list"

text \<open>
  \<open>cr_get\<close> and \<open>cr_patch\<close> answer the API calls, \<open>new_client\<close> is the client factory; the texts are
  those of \<open>Error()\<close>, and the last two as in \<open>FromCR\<close>.
\<close>

record cr_env =
  cr_get :: "cr_log \<Rightarrow> cr_key \<Rightarrow> error + workloadmixing"
  cr_patch :: "cr_log \<Rightarrow> cr_key \<Rightarrow> ready_condition \<Rightarrow> error option"
  new_client :: "cr_log \<Rightarrow> config \<Rightarrow> error option"
  cr_recorder :: bool
  err_text :: "error \<Rightarrow> string"
  cfg_text :: "config_error \<Rightarrow> string"
  rounding :: "rat \<Rightarrow> rat"
  scheme_of :: "string \<Rightarrow> string option"

section \<open>Writing the condition\<close>

definition ReasonTickSucceeded :: string where "ReasonTickSucceeded = ''TickSucceeded''"
definition ReasonTickFailed :: string where "ReasonTickFailed = ''TickFailed''"
definition ReasonConflictingSpec :: string where "ReasonConflictingSpec = ''ConflictingSpec''"
definition ReasonInvalidSpec :: string where "ReasonInvalidSpec = ''InvalidSpec''"
definition ReasonStartFailed :: string where "ReasonStartFailed = ''StartFailed''"

definition UpdateReadyConditionReason ::
    "cr_env \<Rightarrow> cr_key \<Rightarrow> bool \<Rightarrow> string \<Rightarrow> string \<Rightarrow> cr_log \<Rightarrow> cr_log \<times> error option" where
  "UpdateReadyConditionReason e key status reason message lg =
     (let msg = (if length message > 256 then take 256 message else message) in
      case cr_get e lg key of
        Inl err \<Rightarrow> ((GetCR key, Some err) # lg, Some (Wrap ''fetching WorkloadMixing for status update'' err))
      | Inr wm \<Rightarrow>
          let lg1 = (GetCR key, None) # lg;
              c = \<lparr>rc_status = status, rc_reason = reason, rc_message = msg, rc_observed = wm_generation wm\<rparr>;
              r = cr_patch e lg1 key c
          in ((PatchReady key c, r) # lg1, map_option (Wrap ''patching WorkloadMixing status'') r))"

definition UpdateReadyCondition :: "cr_env \<Rightarrow> cr_key \<Rightarrow> bool \<Rightarrow> string \<Rightarrow> cr_log \<Rightarrow> cr_log \<times> error option" where
  "UpdateReadyCondition e key ready message lg =
     (if ready then UpdateReadyConditionReason e key True ReasonTickSucceeded message lg
      else UpdateReadyConditionReason e key False ReasonTickFailed message lg)"

section \<open>The writer\<close>

record writer =
  rejected :: bool
  lastTickState :: string

definition new_writer :: writer where
  "new_writer = \<lparr>rejected = False, lastTickState = []\<rparr>"

definition ReportTick :: "cr_env \<Rightarrow> cr_key \<Rightarrow> error option \<Rightarrow> writer \<times> cr_log \<Rightarrow> writer \<times> cr_log" where
  "ReportTick e key tickErr wl =
     (case wl of (w, lg) \<Rightarrow>
        let (state, msg) = (case tickErr of None \<Rightarrow> (''ok'', ''reconcile loop healthy'')
              | Some err \<Rightarrow> (''fail'', err_text e err))
        in if rejected w \<or> state = lastTickState w then (w, lg)
           else (case UpdateReadyCondition e key (tickErr = None) msg lg of
               (lg1, None) \<Rightarrow> (w\<lparr>lastTickState := state\<rparr>, lg1)
             | (lg1, Some err) \<Rightarrow> (w, lg1)))"

definition ReportRejection :: "cr_env \<Rightarrow> cr_key \<Rightarrow> string \<Rightarrow> string \<Rightarrow> writer \<times> cr_log \<Rightarrow> (writer \<times> cr_log) \<times> error option" where
  "ReportRejection e key reason message wl =
     (case wl of (w, lg) \<Rightarrow>
        case UpdateReadyConditionReason e key False reason message lg of
          (lg1, r) \<Rightarrow> ((w\<lparr>rejected := True\<rparr>, lg1), r))"

definition ClearRejection :: "writer \<Rightarrow> writer" where
  "ClearRejection w = w\<lparr>rejected := False, lastTickState := []\<rparr>"

section \<open>Reloading a single bound resource\<close>

text \<open>The bridge's live configuration and the resource's writer, if the reconciler was given one.\<close>

record reload_state =
  rl_cfg :: config
  rl_writer :: "writer option"
  rl_log :: cr_log

datatype load_error = FetchFailed error | BadSpec config_error

definition LoadConfigFromCR :: "cr_env \<Rightarrow> cr_key \<Rightarrow> cr_log \<Rightarrow> cr_log \<times> (load_error + config)" where
  "LoadConfigFromCR e key lg =
     (case cr_get e lg key of
        Inl err \<Rightarrow> ((GetCR key, Some err) # lg, Inl (FetchFailed (Wrap ''fetching WorkloadMixing'' err)))
      | Inr wm \<Rightarrow>
          ((GetCR key, None) # lg,
           case FromCR (rounding e) (scheme_of e) wm of Inl err \<Rightarrow> Inl (BadSpec err) | Inr cfg \<Rightarrow> Inr cfg))"

definition load_text :: "cr_env \<Rightarrow> load_error \<Rightarrow> string" where
  "load_text e err = (case err of FetchFailed er \<Rightarrow> err_text e er | BadSpec ce \<Rightarrow> cfg_text e ce)"

text \<open>\<open>own\<close> is the bound resource; the result is the error handed to the work queue.\<close>

definition Reload :: "cr_env \<Rightarrow> cr_key \<Rightarrow> cr_key \<Rightarrow> reload_state \<Rightarrow> reload_state \<times> error option" where
  "Reload e own req st =
     (if req \<noteq> own then (st, None)
      else case LoadConfigFromCR e own (rl_log st) of
        (lg1, Inl err) \<Rightarrow>
          let msg = ''hot-reload failed, keeping previous config: '' @ load_text e err in
          (case (case rl_writer st of
               None \<Rightarrow> (case UpdateReadyCondition e own False msg lg1 of (lg2, uerr) \<Rightarrow> ((None, lg2), uerr))
             | Some w \<Rightarrow> (case ReportRejection e own ReasonTickFailed msg (w, lg1) of
                   ((w1, lg2), uerr) \<Rightarrow> ((Some w1, lg2), uerr))) of
             ((w1, lg2), uerr) \<Rightarrow>
               (st\<lparr>rl_writer := w1, rl_log := lg2\<rparr>, map_option (Wrap (msg @ '' (also failed to report status)'')) uerr))
      | (lg1, Inr cfg) \<Rightarrow>
          (st\<lparr>rl_cfg := cfg, rl_writer := map_option ClearRejection (rl_writer st), rl_log := lg1\<rparr>, None))"

section \<open>What the operations write\<close>

definition patches_of :: "cr_log \<Rightarrow> ready_condition list" where
  "patches_of lg = List.map_filter (\<lambda>en. case fst en of PatchReady k c \<Rightarrow> Some c | _ \<Rightarrow> None) lg"

lemma patches_of_simps [simp]:
  "patches_of [] = []"
  "patches_of ((GetCR k, r) # lg) = patches_of lg"
  "patches_of ((CREvent k s, r) # lg) = patches_of lg"
  "patches_of ((PatchReady k c, r) # lg) = c # patches_of lg"
  "patches_of (xs @ ys) = patches_of xs @ patches_of ys"
  by (simp_all add: patches_of_def List.map_filter_def)

lemma UpdateReadyConditionReason_log:
  "\<exists>new. fst (UpdateReadyConditionReason e key status reason message lg) = new @ lg
     \<and> list_all (\<lambda>c. rc_status c = status \<and> rc_reason c = reason) (patches_of new)"
  by (auto simp: UpdateReadyConditionReason_def Let_def split: sum.split
      intro: exI [of _ "[(GetCR key, Some err)]" for err] exI [of _ "[(PatchReady key c, r), (GetCR key, None)]" for c r])

lemma ReportRejection_writer: "fst (fst (ReportRejection e key reason msg (w, lg))) = w\<lparr>rejected := True\<rparr>"
  by (simp add: ReportRejection_def split: prod.split)

lemma ReportRejection_log:
  "\<exists>new. snd (fst (ReportRejection e key reason msg (w, lg))) = new @ lg
     \<and> list_all (\<lambda>c. \<not> rc_status c) (patches_of new)"
  using UpdateReadyConditionReason_log [of e key False reason msg lg]
  by (auto simp: ReportRejection_def list_all_iff split: prod.split)

lemma ReportTick_rejected: "rejected w \<Longrightarrow> ReportTick e key err (w, lg) = (w, lg)"
  by (simp add: ReportTick_def split: option.split)

section \<open>Properties\<close>

text \<open>The two writers of the condition, in any order: tick reports, rejections, and their end.\<close>

datatype writer_op = Report "error option" | Reject string string | Clear

definition writer_step :: "cr_env \<Rightarrow> cr_key \<Rightarrow> writer_op \<Rightarrow> writer \<times> cr_log \<Rightarrow> writer \<times> cr_log" where
  "writer_step e key op wl =
     (case op of
        Report err \<Rightarrow> ReportTick e key err wl
      | Reject reason msg \<Rightarrow> fst (ReportRejection e key reason msg wl)
      | Clear \<Rightarrow> (ClearRejection (fst wl), snd wl))"

lemma rejected_step:
  assumes "rejected (fst wl)" "op \<noteq> Clear"
  shows "rejected (fst (writer_step e key op wl))
    \<and> (\<exists>new. snd (writer_step e key op wl) = new @ snd wl \<and> list_all (\<lambda>c. \<not> rc_status c) (patches_of new))"
proof (cases op)
  case (Report err)
  then show ?thesis using assms(1) by (cases wl) (simp add: writer_step_def ReportTick_rejected)
next
  case (Reject reason msg)
  then show ?thesis
    using ReportRejection_writer [of e key reason msg "fst wl" "snd wl"]
      ReportRejection_log [of e key reason msg "fst wl" "snd wl"]
    by (simp add: writer_step_def)
qed (use assms(2) in simp)

lemma rejected_steps:
  assumes "rejected (fst wl)" "list_all (\<lambda>op. op \<noteq> Clear) ops"
  shows "\<exists>new. snd (fold (writer_step e key) ops wl) = new @ snd wl \<and> list_all (\<lambda>c. \<not> rc_status c) (patches_of new)"
  using assms
proof (induction ops arbitrary: wl)
  case (Cons op ops)
  obtain n1 where n1: "snd (writer_step e key op wl) = n1 @ snd wl" "list_all (\<lambda>c. \<not> rc_status c) (patches_of n1)"
    and "rejected (fst (writer_step e key op wl))"
    using rejected_step [of wl op e key] Cons.prems by auto
  then obtain n2 where "snd (fold (writer_step e key) ops (writer_step e key op wl)) = n2 @ snd (writer_step e key op wl)"
    "list_all (\<lambda>c. \<not> rc_status c) (patches_of n2)"
    using Cons.IH [of "writer_step e key op wl"] Cons.prems(2) by fastforce
  with n1 show ?case by (intro exI [of _ "n2 @ n1"]) simp
qed simp

text \<open>C18: a rejected spec overrides tick health. From the report of a rejection on, and until the
  rejection is cleared, no write sets the condition to ready, however many ticks succeed meanwhile
  and whether the rejection's own write succeeded or not: the resource never claims that a refused
  generation is healthy.\<close>

theorem rejection_overrides_ticks:
  assumes "list_all (\<lambda>op. op \<noteq> Clear) ops"
  shows "\<exists>new. snd (fold (writer_step e key) (Reject reason msg # ops) (w, lg)) = new @ lg
    \<and> list_all (\<lambda>c. \<not> rc_status c) (patches_of new)"
proof -
  let ?wl = "fst (ReportRejection e key reason msg (w, lg))"
  obtain n1 where "snd ?wl = n1 @ lg" "list_all (\<lambda>c. \<not> rc_status c) (patches_of n1)"
    using ReportRejection_log by blast
  moreover have "rejected (fst ?wl)" by (simp add: ReportRejection_writer)
  then obtain n2 where "snd (fold (writer_step e key) ops ?wl) = n2 @ snd ?wl"
    "list_all (\<lambda>c. \<not> rc_status c) (patches_of n2)"
    using rejected_steps [OF _ assms] by blast
  ultimately show ?thesis by (intro exI [of _ "n2 @ n1"]) (simp add: writer_step_def)
qed

definition calm_cr :: cr_env where
  "calm_cr = \<lparr>cr_get = (\<lambda>_ _. Inr (as_resource ''mixing'' 4 example_config)), cr_patch = (\<lambda>_ _ _. None),
     new_client = (\<lambda>_ _. None), cr_recorder = True, err_text = (\<lambda>_. ''error''), cfg_text = (\<lambda>_. ''invalid''),
     rounding = (\<lambda>x. x), scheme_of = (\<lambda>_. Some ''https'')\<rparr>"

theorem rejection_overrides_ticks_witness:
  "list_all (\<lambda>c. \<not> rc_status c) (patches_of
     (snd (fold (writer_step calm_cr (''ns'', ''mixing'')) [Reject ReasonInvalidSpec ''bad'', Report None, Report None] (new_writer, []))))"
  using rejection_overrides_ticks [of "[Report None, Report None]" calm_cr "(''ns'', ''mixing'')" ReasonInvalidSpec "''bad''" new_writer "[]"]
  by auto

text \<open>Health comes back after a fix. Once a rejection is cleared the very next successful tick
  writes the condition as ready, for the generation it reads, even if the ticks before the
  rejection had already reported the same.\<close>

lemma fixed_spec_is_reported_ready:
  assumes "cr_get e lg key = Inr wm"
  shows "\<exists>c r. snd (fold (writer_step e key) [Clear, Report None] (w, lg)) = (PatchReady key c, r) # (GetCR key, None) # lg
    \<and> rc_status c \<and> rc_observed c = wm_generation wm"
  using assms
  by (simp add: writer_step_def ClearRejection_def ReportTick_def UpdateReadyCondition_def
      UpdateReadyConditionReason_def Let_def split: option.split)

text \<open>A bad edit never reaches the bridge. Whatever requests arrive and whatever the API server
  answers, the configuration of a bound bridge stays one that \<open>Validate\<close> accepts.\<close>

lemma reload_keeps_the_last_good_config:
  assumes "Validate (scheme_of e) (rl_cfg st) = None"
  shows "Validate (scheme_of e) (rl_cfg (fold (\<lambda>req s. fst (Reload e own req s)) reqs st)) = None"
  using assms
proof (induction reqs arbitrary: st)
  case (Cons req reqs)
  have "Validate (scheme_of e) (rl_cfg (fst (Reload e own req st))) = None"
    using Cons.prems by (auto simp: Reload_def LoadConfigFromCR_def Let_def elim: FromCR_InrE
        split: sum.split prod.split option.split)
  then show ?case using Cons.IH by simp
qed simp

end
