(* ===== verification/Run_Loop.thy ===== *)
theory Run_Loop imports
  Bridge_Tick
begin

text \<open>
  The poll loop around the ticks (\<open>Run\<close>, \<open>Nudge\<close> and the backoff of
  \<open>internal/bridge/reconciler.go\<close>) and the health state it feeds (\<open>internal/bridge/health.go\<close>).
  The loop is a state machine: it ticks, then waits for the timer, a nudge or the end of its
  context; a nudge may have to sit out the damping interval first. Waits are 64-bit words, as the
  source multiplies them by a shifted 1; instants are unbounded nanoseconds.
\<close>

section \<open>Waits\<close>

definition maxBackoffMultiple :: i64 where
  "maxBackoffMultiple = 6"

definition minNudgeInterval :: int where
  "minNudgeInterval = 1 * second"

definition nudgeDamping :: "int \<Rightarrow> int \<Rightarrow> int" where
  "nudgeDamping minInterval sinceLastTick =
     (let remaining = minInterval - sinceLastTick in if remaining > 0 then remaining else 0)"

text \<open>
  \<open>fl\<close> rounds a real result to the nearest \<open>float64\<close>, \<open>r\<close> is the random number in [0, 1). The
  conversion back to an integer cuts off towards zero.
\<close>

definition go_trunc :: "rat \<Rightarrow> i64" where
  "go_trunc x = word_of_int (if x < 0 then \<lceil>x\<rceil> else \<lfloor>x\<rfloor>)"

definition jitteredInterval :: "(rat \<Rightarrow> rat) \<Rightarrow> rat \<Rightarrow> i64 \<Rightarrow> i64" where
  "jitteredInterval fl r base =
     (if base \<le>s 0 then base
      else let b = fl (of_int (sint base));
               span = fl (b * fl (1 / 10));
               delta = fl (fl (fl (r * 2) - 1) * span)
           in go_trunc (fl (b + delta)))"

definition nextBackoff :: "(rat \<Rightarrow> rat) \<Rightarrow> rat \<Rightarrow> i64 \<Rightarrow> i64 \<Rightarrow> i64" where
  "nextBackoff fl r base consecutiveFailures =
     (if consecutiveFailures \<le>s 0 then jitteredInterval fl r base
      else let shifted = push_bit (unat consecutiveFailures) 1;
               multiple = (if maxBackoffMultiple <s shifted then maxBackoffMultiple else shifted)
           in jitteredInterval fl r (base * multiple))"

section \<open>The state of the loop\<close>

text \<open>
  \<open>Waiting s f\<close>: in the select, the last tick began at \<open>s\<close>, the timer fires at \<open>f\<close>.
  \<open>Damping u\<close>: a nudge has been consumed, its tick begins at \<open>u\<close>.
\<close>

datatype phase = Ticking string | Waiting int int | Damping int | Stopped

record loop =
  phase :: phase
  consecutiveFailures :: i64
  nudge :: bool
  ctx_done :: bool
  now :: int
  bridge_of :: bridge
  startedAt :: int
  lastTickAt :: "int option"
  lastTickErr :: "error option"
  lastSuccessAt :: "int option"
  starts :: "(int \<times> string) list"
  outcomes :: "(int \<times> error option) list"

text \<open>\<open>starts\<close> and \<open>outcomes\<close> record the begin and the end of every tick, newest first; no operation reads them.\<close>

definition start_loop :: "int \<Rightarrow> loop" where
  "start_loop t = \<lparr>phase = Ticking ''timer'', consecutiveFailures = 0, nudge = False, ctx_done = False, now = t,
     bridge_of = New, startedAt = t, lastTickAt = None, lastTickErr = None, lastSuccessAt = None,
     starts = [], outcomes = []\<rparr>"

definition Nudge :: "loop \<Rightarrow> loop" where
  "Nudge st = (if nudge st then st else st\<lparr>nudge := True\<rparr>)"

definition recordTickOutcome :: "error option \<Rightarrow> loop \<Rightarrow> loop" where
  "recordTickOutcome err st =
     (let st1 = st\<lparr>lastTickAt := Some (now st), lastTickErr := err, outcomes := (now st, err) # outcomes st\<rparr>
      in if err = None then st1\<lparr>lastSuccessAt := Some (now st)\<rparr> else st1)"

text \<open>One iteration up to the select: a tick that takes \<open>d\<close>, its outcome, and the next wait.\<close>

definition runTick :: "(rat \<Rightarrow> rat) \<Rightarrow> rat \<Rightarrow> env \<Rightarrow> schedule \<Rightarrow> int \<Rightarrow> string \<Rightarrow> loop \<Rightarrow> loop" where
  "runTick fl r e sch d trigger st =
     (case tick e sch (bridge_of st) of
        (b, err) \<Rightarrow>
          let start = now st;
              st1 = recordTickOutcome err (st\<lparr>bridge_of := b, now := start + d, starts := (start, trigger) # starts st\<rparr>);
              fails = (if err \<noteq> None then consecutiveFailures st + 1 else 0);
              wait = nextBackoff fl r (of_int (PollInterval (live_cfg e (trace b)))) fails
          in st1\<lparr>consecutiveFailures := fails, phase := Waiting start (now st1 + sint wait)\<rparr>)"

definition consumeNudge :: "int \<Rightarrow> loop \<Rightarrow> loop" where
  "consumeNudge start st =
     (let delay = nudgeDamping minNudgeInterval (now st - start);
          st1 = st\<lparr>nudge := False\<rparr>
      in if delay > 0 then st1\<lparr>phase := Damping (now st + delay)\<rparr> else st1\<lparr>phase := Ticking ''watch''\<rparr>)"

section \<open>Steps and runs\<close>

text \<open>
  The loop's own moves: a tick, the branches of the two \<open>select\<close>s, the return. The world's: a watch event,
  time that passes, the end of the context.
\<close>

inductive own_step :: "loop \<Rightarrow> loop \<Rightarrow> bool" where
  tick: "phase st = Ticking trigger \<Longrightarrow> wf_schedule sch \<Longrightarrow> 0 \<le> d \<Longrightarrow> own_step st (runTick fl r e sch d trigger st)"
| timer: "phase st = Waiting s f \<Longrightarrow> f \<le> now st \<Longrightarrow> own_step st (st\<lparr>phase := Ticking ''timer''\<rparr>)"
| nudged: "phase st = Waiting s f \<Longrightarrow> nudge st \<Longrightarrow> own_step st (consumeNudge s st)"
| damped: "phase st = Damping u \<Longrightarrow> u \<le> now st \<Longrightarrow> own_step st (st\<lparr>phase := Ticking ''watch''\<rparr>)"
| finish: "ctx_done st \<Longrightarrow> phase st = Waiting s f \<or> phase st = Damping u \<Longrightarrow> own_step st (st\<lparr>phase := Stopped\<rparr>)"

inductive loop_step :: "loop \<Rightarrow> loop \<Rightarrow> bool" where
  own: "own_step st st' \<Longrightarrow> loop_step st st'"
| event: "loop_step st (Nudge st)"
| elapse: "0 \<le> d \<Longrightarrow> loop_step st (st\<lparr>now := now st + d\<rparr>)"
| cancel: "loop_step st (st\<lparr>ctx_done := True\<rparr>)"

inductive loop_run :: "loop \<Rightarrow> bool" where
  begin_run: "loop_run (start_loop t)"
| next_step: "loop_run st \<Longrightarrow> loop_step st st' \<Longrightarrow> loop_run st'"

section \<open>Health\<close>

definition Healthy :: "loop \<Rightarrow> bool" where
  "Healthy st = (case lastTickAt st of None \<Rightarrow> True | Some t \<Rightarrow> True)"

datatype readiness = ReadyAfter int | WithinGrace | NoSuccessYet | Stale "error option"

definition Ready :: "config \<Rightarrow> loop \<Rightarrow> readiness" where
  "Ready c st =
     (let poll = (if PollInterval c \<le> 0 then 10 * second else PollInterval c)
      in case lastSuccessAt st of
           None \<Rightarrow> if now st - startedAt st \<le> poll * 3 then WithinGrace else NoSuccessYet
         | Some t \<Rightarrow>
             let maxAge = poll * 3; age = now st - t
             in if age > maxAge then Stale (lastTickErr st) else ReadyAfter age)"

definition is_ready :: "readiness \<Rightarrow> bool" where
  "is_ready r \<longleftrightarrow> (case r of ReadyAfter age \<Rightarrow> True | _ \<Rightarrow> False)"

text \<open>A probe's answer: the HTTP status and the status of the body; the message is the verdict's.\<close>

definition probe_result :: "bool \<Rightarrow> nat \<times> string" where
  "probe_result ok = (if ok then (200, ''ok'') else (503, ''unavailable''))"

definition HealthzHandler :: "loop \<Rightarrow> nat \<times> string" where
  "HealthzHandler st = probe_result (Healthy st)"

definition ReadyzHandler :: "config \<Rightarrow> loop \<Rightarrow> nat \<times> string" where
  "ReadyzHandler c st = probe_result (is_ready (Ready c st))"

section \<open>Bounds of the wait\<close>

text \<open>The documented error of IEEE double rounding, for results in range.\<close>

definition ieee :: "(rat \<Rightarrow> rat) \<Rightarrow> bool" where
  "ieee fl \<longleftrightarrow> (\<forall>x. \<bar>fl x - x\<bar> \<le> \<bar>x\<bar> / 2 ^ 53)"

lemma ieeeD:
  assumes "ieee fl"
  shows "x - \<bar>x\<bar> / 100000 \<le> fl x" "fl x \<le> x + \<bar>x\<bar> / 100000"
proof -
  have "\<bar>fl x - x\<bar> \<le> \<bar>x\<bar> / 2 ^ 53" using assms by (simp add: ieee_def)
  also have "\<dots> \<le> \<bar>x\<bar> / 100000" by (intro divide_left_mono) simp_all
  finally show "x - \<bar>x\<bar> / 100000 \<le> fl x" "fl x \<le> x + \<bar>x\<bar> / 100000"
    unfolding abs_le_iff by linarith+
qed

lemma ieee_up: "ieee fl \<Longrightarrow> 0 \<le> x \<Longrightarrow> x \<le> y \<Longrightarrow> 0 \<le> fl x \<and> fl x \<le> y * (100001 / 100000)"
  using ieeeD [of fl x] by simp

lemma ieee_down: "ieee fl \<Longrightarrow> 0 \<le> y \<Longrightarrow> y \<le> x \<Longrightarrow> y * (99999 / 100000) \<le> fl x"
  using ieeeD [of fl x] by simp

lemma ieee_abs: "ieee fl \<Longrightarrow> \<bar>x\<bar> \<le> y \<Longrightarrow> \<bar>fl x\<bar> \<le> y * (100001 / 100000)"
  using ieeeD [of fl x] unfolding abs_le_iff by linarith

lemma jitter_range:
  fixes d :: rat
  assumes "ieee fl" "0 \<le> r" "r < 1" "0 \<le> d"
  defines "b \<equiv> fl d"
  shows "89 / 100 * d \<le> fl (b + fl (fl (fl (r * 2) - 1) * fl (b * fl (1 / 10))))
    \<and> fl (b + fl (fl (fl (r * 2) - 1) * fl (b * fl (1 / 10)))) \<le> 111 / 100 * d"
proof -
  note fl = assms(1)
  have b: "0 \<le> b" "b \<le> d * (100001 / 100000)" "d * (99999 / 100000) \<le> b"
    using ieee_up [OF fl assms(4), of d] ieee_down [OF fl assms(4), of d] by (simp_all add: b_def)
  have tenth: "0 \<le> fl (1 / 10)" "fl (1 / 10) \<le> 100001 / 1000000"
    using ieee_up [OF fl, of "1 / 10" "1 / 10"] by simp_all
  have "b * fl (1 / 10) \<le> (d * (100001 / 100000)) * (100001 / 1000000)"
    using b tenth assms(4) by (intro mult_mono) simp_all
  then have "b * fl (1 / 10) \<le> d * (10001 / 100000)" using assms(4) by (simp add: field_simps)
  then have span: "0 \<le> fl (b * fl (1 / 10))" "fl (b * fl (1 / 10)) \<le> d * (1001 / 10000)"
    using ieee_up [OF fl, of "b * fl (1 / 10)" "d * (10001 / 100000)"] b tenth assms(4)
    by (simp_all add: field_simps)
  have "0 \<le> fl (r * 2)" "fl (r * 2) \<le> 2 * (100001 / 100000)"
    using ieee_up [OF fl, of "r * 2" 2] assms(2,3) by simp_all
  then have "\<bar>fl (r * 2) - 1\<bar> \<le> 10001 / 10000" unfolding abs_le_iff by linarith
  then have q: "\<bar>fl (fl (r * 2) - 1)\<bar> \<le> 1001 / 1000"
    using ieee_abs [OF fl, of "fl (r * 2) - 1" "10001 / 10000"] by simp
  have "\<bar>fl (fl (r * 2) - 1) * fl (b * fl (1 / 10))\<bar> \<le> (1001 / 1000) * (d * (1001 / 10000))"
    using q span assms(4) unfolding abs_mult by (intro mult_mono) simp_all
  then have "\<bar>fl (fl (r * 2) - 1) * fl (b * fl (1 / 10))\<bar> \<le> d * (1004 / 10000)"
    using assms(4) by (simp add: field_simps)
  then have delta: "\<bar>fl (fl (fl (r * 2) - 1) * fl (b * fl (1 / 10)))\<bar> \<le> d * (1005 / 10000)"
    using ieee_abs [OF fl, of _ "d * (1004 / 10000)"] assms(4) by (force intro: order_trans)
  let ?t = "b + fl (fl (fl (r * 2) - 1) * fl (b * fl (1 / 10)))"
  have t: "d * (8994 / 10000) \<le> ?t" "?t \<le> d * (11006 / 10000)"
    using b delta assms(4) by (simp_all add: abs_le_iff field_simps)
  have "0 \<le> d * (8994 / 10000)" using assms(4) by simp
  from ieee_up [OF fl order_trans [OF this t(1)] t(2)] ieee_down [OF fl this t(1)] show ?thesis
    using assms(4) by (simp add: field_simps)
qed

lemma jittered_bounds:
  assumes "ieee fl" "0 \<le> r" "r < 1" "0 < sint base" "111 * sint base < 100 * 2 ^ 63"
  shows "89 * sint base - 100 \<le> 100 * sint (jitteredInterval fl r base)
    \<and> 100 * sint (jitteredInterval fl r base) \<le> 111 * sint base"
proof -
  define B where "B = sint base"
  define x where "x = fl (fl (of_int B) + fl (fl (fl (r * 2) - 1) * fl (fl (of_int B) * fl (1 / 10))))"
  have B: "0 < B" "111 * B < 100 * 2 ^ 63" using assms(4,5) by (simp_all add: B_def)
  have x: "89 / 100 * of_int B \<le> x" "x \<le> 111 / 100 * of_int B"
    using jitter_range [OF assms(1-3), of "of_int B"] B(1) by (simp_all add: x_def)
  have "0 \<le> 89 / 100 * (of_int B :: rat)" using B(1) by simp
  then have pos: "0 \<le> x" using x(1) by (rule order_trans)
  have "of_int (100 * \<lfloor>x\<rfloor>) \<le> (of_int (111 * B) :: rat)"
    using x(2) of_int_floor_le [of x] unfolding of_int_mult of_int_numeral by linarith
  then have hi: "100 * \<lfloor>x\<rfloor> \<le> 111 * B" by (simp only: of_int_le_iff)
  have "of_int (89 * B - 100) < (of_int (100 * \<lfloor>x\<rfloor>) :: rat)"
    using x(1) floor_correct [of x] unfolding of_int_mult of_int_numeral of_int_diff of_int_add of_int_1
    by linarith
  then have lo: "89 * B - 100 < 100 * \<lfloor>x\<rfloor>" by (simp only: of_int_less_iff)
  have "\<not> base \<le>s 0" using assms(4) by (simp add: sle_sint)
  then have "jitteredInterval fl r base = go_trunc x"
    unfolding jitteredInterval_def Let_def B_def [symmetric] x_def by simp
  then have "jitteredInterval fl r base = word_of_int \<lfloor>x\<rfloor>" using pos by (simp add: go_trunc_def)
  moreover have "0 \<le> \<lfloor>x\<rfloor>" using pos by simp
  then have "- (2 ^ 63) \<le> \<lfloor>x\<rfloor>" "\<lfloor>x\<rfloor> < 2 ^ 63" using hi B(2) by linarith+
  then have "sint (word_of_int \<lfloor>x\<rfloor> :: i64) = \<lfloor>x\<rfloor>" by (rule sint_word_of_int64)
  ultimately show ?thesis using hi lo by (simp add: B_def)
qed

definition backoff_multiple :: "i64 \<Rightarrow> int" where
  "backoff_multiple n = (if sint n \<le> 0 then 1 else min (2 ^ nat (sint n)) 6)"

lemma shifted_one:
  fixes n :: i64
  assumes "0 < sint n" "sint n < 63"
  shows "sint (push_bit (unat n) 1 :: i64) = 2 ^ nat (sint n)"
proof -
  have n: "unat n = nat (sint n)" using assms(1) uint_sint_nonneg [of n] by (simp add: unat_eq_nat_uint)
  have "nat (sint n) \<le> 62" using assms(2) by simp
  then have "(2 :: int) ^ nat (sint n) \<le> 2 ^ 62" by (intro power_increasing) simp_all
  then have "(2 :: int) ^ nat (sint n) < 2 ^ 63" by simp
  moreover have "- (2 ^ 63) \<le> (0 :: int)" "(0 :: int) \<le> 2 ^ nat (sint n)" by simp_all
  then have "- (2 ^ 63) \<le> (2 :: int) ^ nat (sint n)" by (rule order_trans)
  ultimately have "sint (word_of_int (2 ^ nat (sint n)) :: i64) = 2 ^ nat (sint n)"
    by (intro sint_word_of_int64)
  then show ?thesis by (simp add: n push_bit_of_1)
qed

lemma backoff_bounds:
  assumes "ieee fl" "0 \<le> r" "r < 1"
    and "0 < sint base" "7 * sint base < 2 ^ 63" "sint n < 63"
  shows "89 * (backoff_multiple n * sint base) - 100 \<le> 100 * sint (nextBackoff fl r base n)
    \<and> 100 * sint (nextBackoff fl r base n) \<le> 111 * (backoff_multiple n * sint base)"
proof (cases "sint n \<le> 0")
  case True
  then show ?thesis using jittered_bounds [OF assms(1-4)] assms(4,5)
    by (simp add: nextBackoff_def backoff_multiple_def sle_sint)
next
  case False
  define m where "m = (if maxBackoffMultiple <s push_bit (unat n) 1 then maxBackoffMultiple
    else push_bit (unat n) 1 :: i64)"
  have m: "sint m = backoff_multiple n"
    using shifted_one [of n] False assms(6)
    by (simp add: m_def sless_sint maxBackoffMultiple_def backoff_multiple_def min_def)
  have range: "0 < backoff_multiple n" "backoff_multiple n \<le> 6"
    by (simp_all add: backoff_multiple_def)
  have prod: "0 < backoff_multiple n * sint base" "backoff_multiple n * sint base \<le> 6 * sint base"
    using range assms(4) by simp_all
  then have small: "- (2 ^ 63) \<le> sint base * sint m" "sint base * sint m < 2 ^ 63"
    using assms(5) by (simp_all only: m mult.commute [of "sint base"])
  have "sint (base * m) = backoff_multiple n * sint base"
    unfolding sint_mult64 [OF small] by (simp add: m mult.commute)
  moreover have "nextBackoff fl r base n = jitteredInterval fl r (base * m)"
    using False by (simp only: nextBackoff_def m_def Let_def sle_sint) simp
  ultimately show ?thesis
    using jittered_bounds [OF assms(1-3), of "base * m"] prod assms(5) by simp
qed

text \<open>C37: the wait is bounded, for up to 62 failures in a row and a poll interval of which seven fit into 63
  bits. It is then the poll interval times 2, 4 or 6 (1 after a success), give or take
  eleven percent, whatever the random number and the rounding: it neither wraps nor drifts.\<close>

theorem backoff_is_bounded:
  assumes "ieee fl" "0 \<le> r" "r < 1"
    and "0 < sint base" "7 * sint base < 2 ^ 63" "sint n < 63"
  shows "89 * (backoff_multiple n * sint base) - 100 \<le> 100 * sint (nextBackoff fl r base n)
    \<and> 100 * sint (nextBackoff fl r base n) \<le> 111 * (backoff_multiple n * sint base)"
  using assms by (rule backoff_bounds)

theorem backoff_is_bounded_witness:
  "100 * sint (nextBackoff (\<lambda>x. x) (1 / 4) 10000000000 2) \<le> 111 * (4 * 10000000000)"
proof -
  have "backoff_multiple 2 = 4" by (simp add: backoff_multiple_def)
  then show ?thesis
    using backoff_is_bounded [of "\<lambda>x. x" "1 / 4" 10000000000 2] by (simp add: ieee_def)
qed

text \<open>C38: the cap does not hold for ever. From the 63rd failure in a row on the shifted multiple is
  negative or zero, slips under the cap, and there is no wait at all: after an outage of about an
  hour at the default poll interval, the loop that was to spare slurmrestd ticks without a pause.\<close>

theorem long_outage_removes_the_backoff:
  assumes "63 \<le> sint n"
  shows "sint (nextBackoff fl r base n) \<le> 0"
proof -
  have n: "63 \<le> unat n" using assms uint_sint_nonneg [of n] by (simp add: unat_eq_nat_uint)
  have shifted: "push_bit (unat n) 1 = (if unat n = 63 then 2 ^ 63 else 0 :: i64)"
    using n by (auto simp: push_bit_of_1)
  have bits: "base * 2 ^ 63 = push_bit 63 base" by (simp add: push_bit_eq_mult)
  have "sint (push_bit 63 base) \<le> 0"
  proof -
    have "\<not> 0 < sint (push_bit 63 base)"
    proof
      assume "0 < sint (push_bit 63 base)"
      then have "uint (push_bit 63 base) = sint (push_bit 63 base)" by (simp add: uint_sint_nonneg)
      moreover have "uint (push_bit 63 base) = take_bit 64 (uint base * 2 ^ 63)"
        unfolding unsigned_push_bit_eq by (simp add: push_bit_eq_mult)
      moreover have "(2 :: int) ^ 63 dvd take_bit 64 (uint base * 2 ^ 63)"
        by (simp add: take_bit_eq_mod dvd_mod_iff)
      ultimately show False
        using \<open>0 < sint (push_bit 63 base)\<close> sint_lt64 [of "push_bit 63 base"] zdvd_imp_le by fastforce
    qed
    then show ?thesis by simp
  qed
  then have "sint (base * push_bit (unat n) 1) \<le> 0"
    unfolding shifted by (simp add: bits [simplified])
  moreover have "\<not> maxBackoffMultiple <s push_bit (unat n) 1"
    unfolding shifted by (simp add: sless_sint maxBackoffMultiple_def)
  ultimately show ?thesis
    using assms by (simp only: nextBackoff_def sle_sint Let_def jitteredInterval_def) simp
qed

theorem long_outage_removes_the_backoff_witness:
  "nextBackoff (\<lambda>x. x) (1 / 4) 10000000000 70 = 0 \<and> sint (nextBackoff (\<lambda>x. x) (1 / 4) 10000000000 70) \<le> 0"
  using long_outage_removes_the_backoff [of 70 "\<lambda>x. x" "1 / 4" 10000000000]
  by (simp add: nextBackoff_def sle_sint sless_sint maxBackoffMultiple_def jitteredInterval_def)

section \<open>Runs of the loop\<close>

text \<open>Every watch-triggered tick keeps the distance to the tick before it.\<close>

fun damped_starts :: "(int \<times> string) list \<Rightarrow> bool" where
  "damped_starts ((t2, trig2) # (t1, trig1) # rest) \<longleftrightarrow>
     (trig2 = ''watch'' \<longrightarrow> t1 + minNudgeInterval \<le> t2) \<and> damped_starts ((t1, trig1) # rest)"
| "damped_starts _ \<longleftrightarrow> True"

definition after_start :: "int \<Rightarrow> loop \<Rightarrow> bool" where
  "after_start t st \<longleftrightarrow> (case starts st of [] \<Rightarrow> False | (s, trig) # rest \<Rightarrow> s + minNudgeInterval \<le> t)"

definition loop_inv :: "loop \<Rightarrow> bool" where
  "loop_inv st \<longleftrightarrow> damped_starts (starts st)
     \<and> (case phase st of
          Ticking trig \<Rightarrow> trig = ''watch'' \<longrightarrow> after_start (now st) st
        | Waiting s f \<Rightarrow> (case starts st of [] \<Rightarrow> False | (t, trig) # rest \<Rightarrow> t = s)
        | Damping u \<Rightarrow> after_start u st
        | Stopped \<Rightarrow> ctx_done st)"

lemma recordTickOutcome_simps [simp]:
  "phase (recordTickOutcome err st) = phase st" "now (recordTickOutcome err st) = now st"
  "starts (recordTickOutcome err st) = starts st" "ctx_done (recordTickOutcome err st) = ctx_done st"
  "nudge (recordTickOutcome err st) = nudge st" "startedAt (recordTickOutcome err st) = startedAt st"
  "lastTickErr (recordTickOutcome err st) = err" "lastTickAt (recordTickOutcome err st) = Some (now st)"
  "lastSuccessAt (recordTickOutcome err st) = (if err = None then Some (now st) else lastSuccessAt st)"
  "outcomes (recordTickOutcome err st) = (now st, err) # outcomes st"
  by (simp_all add: recordTickOutcome_def Let_def)

lemma runTick_simps [simp]:
  "starts (runTick fl r e sch d trig st) = (now st, trig) # starts st"
  "now (runTick fl r e sch d trig st) = now st + d"
  "ctx_done (runTick fl r e sch d trig st) = ctx_done st"
  "\<exists>f. phase (runTick fl r e sch d trig st) = Waiting (now st) f"
  by (simp_all add: runTick_def Let_def split: prod.split)

lemma Nudge_simps [simp]:
  "phase (Nudge st) = phase st" "starts (Nudge st) = starts st" "now (Nudge st) = now st"
  "ctx_done (Nudge st) = ctx_done st" "nudge (Nudge st)" "lastSuccessAt (Nudge st) = lastSuccessAt st"
  "outcomes (Nudge st) = outcomes st"
  by (simp_all add: Nudge_def)

lemma damped_starts_Cons:
  "damped_starts ((t, trig) # ss) \<longleftrightarrow>
     damped_starts ss \<and> (case ss of [] \<Rightarrow> True | (s, tr) # rest \<Rightarrow> trig = ''watch'' \<longrightarrow> s + minNudgeInterval \<le> t)"
  by (cases ss) auto

lemma own_step_inv:
  assumes "own_step st st'" "loop_inv st"
  shows "loop_inv st'"
  using assms
proof (cases rule: own_step.cases)
  case (tick trig sch d fl r e)
  obtain f where "phase st' = Waiting (now st) f" unfolding tick(1) using runTick_simps(4) by blast
  moreover have "starts st' = (now st, trig) # starts st" by (simp add: tick(1))
  ultimately show ?thesis using assms(2) tick(2)
    by (auto simp: loop_inv_def damped_starts_Cons after_start_def split: list.splits prod.splits)
next
  case (nudged s f)
  obtain t tr rest where s: "starts st = (t, tr) # rest" "t = s"
    using assms(2) nudged(2) by (auto simp: loop_inv_def split: list.splits)
  then show ?thesis using assms(2) nudged(1)
    by (auto simp: loop_inv_def consumeNudge_def Let_def after_start_def nudgeDamping_def)
qed (auto simp: loop_inv_def after_start_def split: phase.splits list.splits)

lemma loop_inv_step: "loop_step st st' \<Longrightarrow> loop_inv st \<Longrightarrow> loop_inv st'"
proof (induction rule: loop_step.induct)
  case (own st st')
  then show ?case by (rule own_step_inv)
qed (auto simp: loop_inv_def after_start_def split: phase.splits list.splits)

lemma loop_run_inv: "loop_run st \<Longrightarrow> loop_inv st"
proof (induction rule: loop_run.induct)
  case (begin_run t)
  then show ?case by (simp add: loop_inv_def start_loop_def)
next
  case (next_step st st')
  then show ?case by (blast intro: loop_inv_step)
qed

lemma damped_starts_at:
  "damped_starts (later @ (t2, ''watch'') # (t1, trig) # earlier) \<Longrightarrow> t1 + minNudgeInterval \<le> t2"
proof (induction later)
  case (Cons x later)
  then show ?case by (cases x) (simp add: damped_starts_Cons)
qed simp

text \<open>C36: watch events cannot turn into continuous polling. In every run of the loop, however many
  nudges arrive and whenever, a watch-triggered tick begins at least \<open>minNudgeInterval\<close> after the
  begin of the tick before it.\<close>

theorem watch_ticks_are_damped:
  assumes "loop_run st" "starts st = later @ (t2, ''watch'') # (t1, trig) # earlier"
  shows "t1 + minNudgeInterval \<le> t2"
  using loop_run_inv [OF assms(1)] unfolding loop_inv_def assms(2) by (blast intro: damped_starts_at)

text \<open>When the loop is to move: in a tick, after its wait, on a nudge, after the damping.\<close>

definition due :: "loop \<Rightarrow> bool" where
  "due st \<longleftrightarrow> (case phase st of
      Ticking trig \<Rightarrow> True | Waiting s f \<Rightarrow> f \<le> now st \<or> nudge st | Damping u \<Rightarrow> u \<le> now st | Stopped \<Rightarrow> False)"

lemma due_moves:
  assumes "\<not> ctx_done st"
  shows "(\<exists>st'. own_step st st') \<longleftrightarrow> due st"
proof
  assume "\<exists>st'. own_step st st'"
  then show "due st" using assms by (auto simp: due_def elim: own_step.cases)
next
  assume due: "due st"
  show "\<exists>st'. own_step st st'"
  proof (cases "phase st")
    case (Ticking trig)
    then show ?thesis using own_step.tick [OF Ticking all_in_order(1) order_refl] by blast
  next
    case (Waiting s f)
    then show ?thesis using due own_step.timer [OF Waiting] own_step.nudged [OF Waiting] by (auto simp: due_def)
  next
    case (Damping u)
    then show ?thesis using due own_step.damped [OF Damping] by (auto simp: due_def)
  qed (use due in \<open>simp add: due_def\<close>)
qed

text \<open>Where a move of a loop whose context lives leads, by the phase it is in.\<close>

definition goes_on :: "loop \<Rightarrow> loop \<Rightarrow> bool" where
  "goes_on st st' \<longleftrightarrow> (case phase st of
      Ticking trig \<Rightarrow> starts st' = (now st, trig) # starts st \<and> (\<exists>f. phase st' = Waiting (now st) f)
    | Waiting s f \<Rightarrow> starts st' = starts st
        \<and> (f \<le> now st \<and> phase st' = Ticking ''timer''
           \<or> nudge st \<and> \<not> nudge st' \<and> (phase st' = Ticking ''watch'' \<or> phase st' = Damping (s + minNudgeInterval)))
    | Damping u \<Rightarrow> starts st' = starts st \<and> phase st' = Ticking ''watch''
    | Stopped \<Rightarrow> False)"

lemma own_step_goes_on:
  assumes "own_step st st'" "\<not> ctx_done st"
  shows "goes_on st st' \<and> \<not> ctx_done st'"
  using assms(1)
proof (cases rule: own_step.cases)
  case (tick trig sch d fl r e)
  then show ?thesis using assms(2) by (simp add: goes_on_def)
qed (use assms(2) in \<open>auto simp: goes_on_def consumeNudge_def nudgeDamping_def Let_def\<close>)

text \<open>C16: the loop never dies and never sleeps through. As long as its context lives, whatever ticks have
  returned and whichever events came, it has not stopped, and it can move by itself exactly when it is due:
  in a tick, when its wait is over, on a nudge, when the damping is over. Every such move goes on: a tick,
  with whatever result, into a wait; a wait that is over into a tick; a nudge into a tick, or into a damping
  that is over a second after the begin of the last tick; a damping into a tick.\<close>

theorem loop_keeps_ticking:
  assumes "loop_run st" "\<not> ctx_done st"
  shows "phase st \<noteq> Stopped \<and> ((\<exists>st'. own_step st st') \<longleftrightarrow> due st)
    \<and> (\<forall>st'. own_step st st' \<longrightarrow> goes_on st st' \<and> \<not> ctx_done st')"
proof -
  have "phase st \<noteq> Stopped" using loop_run_inv [OF assms(1)] assms(2) by (auto simp: loop_inv_def)
  then show ?thesis using due_moves [OF assms(2)] own_step_goes_on assms(2) by blast
qed

text \<open>A run with a nudge right after the first tick: its tick waits out the second.\<close>

lemma nudged_run: "\<exists>st. loop_run st \<and> \<not> ctx_done st \<and> starts st = [(second, ''watch''), (0, ''timer'')]"
proof -
  let ?tick = "runTick (\<lambda>x. x) 0 calm_env all_in_order 0"
  define st1 where "st1 = ?tick ''timer'' (start_loop 0)"
  define st2 where "st2 = Nudge st1"
  define st3 where "st3 = consumeNudge 0 st2"
  define st4 where "st4 = st3\<lparr>now := now st3 + second\<rparr>"
  define st5 where "st5 = st4\<lparr>phase := Ticking ''watch''\<rparr>"
  define st6 where "st6 = ?tick ''watch'' st5"
  obtain f where f: "phase st1 = Waiting 0 f" "now st1 = 0" "starts st1 = [(0, ''timer'')]" "\<not> ctx_done st1"
    using runTick_simps(4) [of "\<lambda>x. x" 0 calm_env all_in_order 0 "''timer''" "start_loop 0"]
    by (auto simp: st1_def start_loop_def)
  have d: "phase st3 = Damping second" "now st3 = 0" "starts st3 = [(0, ''timer'')]" "\<not> ctx_done st3"
    using f by (simp_all add: st3_def st2_def consumeNudge_def nudgeDamping_def minNudgeInterval_def second_def Let_def)
  have "loop_run (start_loop 0)" by (rule loop_run.begin_run)
  then have "loop_run st1" unfolding st1_def
    by (rule loop_run.next_step [OF _ loop_step.own, OF _ own_step.tick [OF _ all_in_order(1)]]) (simp_all add: start_loop_def)
  then have "loop_run st2" unfolding st2_def by (rule loop_run.next_step [OF _ loop_step.event])
  then have "loop_run st3" unfolding st3_def
    by (rule loop_run.next_step [OF _ loop_step.own, OF _ own_step.nudged]) (use f in \<open>simp_all add: st2_def\<close>)
  then have "loop_run st4" unfolding st4_def
    by (rule loop_run.next_step [OF _ loop_step.elapse]) (simp add: second_def)
  then have "loop_run st5" unfolding st5_def
    by (rule loop_run.next_step [OF _ loop_step.own, OF _ own_step.damped [of _ second]]) (use d in \<open>simp_all add: st4_def\<close>)
  then have "loop_run st6" unfolding st6_def
    by (rule loop_run.next_step [OF _ loop_step.own, OF _ own_step.tick [OF _ all_in_order(1)]]) (simp_all add: st5_def)
  moreover have "starts st6 = [(second, ''watch''), (0, ''timer'')]" "\<not> ctx_done st6"
    using d by (simp_all add: st6_def st5_def st4_def)
  ultimately show ?thesis by blast
qed

theorem watch_ticks_are_damped_witness:
  "\<exists>st t1 t2. loop_run st \<and> starts st = [(t2, ''watch''), (t1, ''timer'')] \<and> t1 + minNudgeInterval \<le> t2"
proof -
  obtain st where st: "loop_run st" "starts st = [] @ (second, ''watch'') # (0, ''timer'') # []"
    using nudged_run by auto
  from watch_ticks_are_damped [OF this] st show ?thesis by auto
qed

text \<open>A loop whose first wait is over.\<close>

theorem loop_keeps_ticking_witness:
  "\<exists>st st'. starts st = [(0, ''timer'')] \<and> own_step st st' \<and> phase st' = Ticking ''timer''"
proof -
  define st1 where "st1 = runTick (\<lambda>x. x) 0 calm_env all_in_order 0 ''timer'' (start_loop 0)"
  obtain f where f: "phase st1 = Waiting 0 f" "starts st1 = [(0, ''timer'')]" "\<not> ctx_done st1" "\<not> nudge st1"
    using runTick_simps(4) [of "\<lambda>x. x" 0 calm_env all_in_order 0 "''timer''" "start_loop 0"]
    by (auto simp: st1_def start_loop_def runTick_def Let_def recordTickOutcome_def split: prod.splits)
  let ?st = "st1\<lparr>now := now st1 + \<bar>f - now st1\<bar>\<rparr>"
  have "loop_run st1" unfolding st1_def
    by (rule loop_run.next_step [OF loop_run.begin_run loop_step.own, OF own_step.tick [OF _ all_in_order(1)]])
      (simp_all add: start_loop_def)
  then have "loop_run ?st" by (rule loop_run.next_step [OF _ loop_step.elapse]) simp
  from loop_keeps_ticking [OF this] f obtain st' where "own_step ?st st'" "goes_on ?st st'"
    by (auto simp: due_def)
  then show ?thesis using f by (intro exI [of _ ?st] exI [of _ st']) (auto simp: goes_on_def)
qed

section \<open>Readiness\<close>

definition health_inv :: "loop \<Rightarrow> bool" where
  "health_inv st \<longleftrightarrow> sorted_wrt (\<lambda>a b. fst b \<le> fst a) (outcomes st) \<and> list_all (\<lambda>a. fst a \<le> now st) (outcomes st)
     \<and> lastSuccessAt st = map_option fst (find (\<lambda>a. snd a = None) (outcomes st))
     \<and> lastTickErr st = (case outcomes st of [] \<Rightarrow> None | a # as \<Rightarrow> snd a)"

lemma runTick_health:
  assumes "health_inv st" "0 \<le> d"
  shows "health_inv (runTick fl r e sch d trig st)"
proof -
  obtain b err where t: "tick e sch (bridge_of st) = (b, err)" by (rule prod.exhaust)
  have "list_all (\<lambda>a. fst a \<le> now st + d) (outcomes st)"
    using assms by (force simp: health_inv_def list_all_iff)
  then show ?thesis using assms
    by (simp add: runTick_def t Let_def health_inv_def recordTickOutcome_def list_all_iff)
qed

lemma own_step_health: "own_step st st' \<Longrightarrow> health_inv st \<Longrightarrow> health_inv st'"
proof (induction rule: own_step.induct)
  case (tick st trig sch d fl r e)
  then show ?case by (blast intro: runTick_health)
qed (simp_all add: consumeNudge_def Let_def health_inv_def)

lemma loop_run_health: "loop_run st \<Longrightarrow> health_inv st"
proof (induction rule: loop_run.induct)
  case (begin_run t)
  then show ?case by (simp add: health_inv_def start_loop_def)
next
  case (next_step st st')
  from next_step(2) show ?case
  proof (cases rule: loop_step.cases)
    case own
    then show ?thesis using next_step(3) by (rule own_step_health)
  next
    case event
    then show ?thesis using next_step(3) by (simp add: Nudge_def health_inv_def)
  next
    case (elapse d)
    then show ?thesis using next_step(3) by (force simp: health_inv_def list_all_iff)
  next
    case cancel
    then show ?thesis using next_step(3) by (simp add: health_inv_def)
  qed
qed

lemma newest_success:
  fixes T :: int
  assumes "sorted_wrt (\<lambda>a b. fst b \<le> fst a) os"
  shows "(case find (\<lambda>a. snd a = None) os of None \<Rightarrow> False | Some a \<Rightarrow> T \<le> fst a)
    \<longleftrightarrow> list_ex (\<lambda>a. snd a = None \<and> T \<le> fst a) os"
  using assms
proof (induction os)
  case (Cons a os)
  show ?case
  proof (cases "snd a = None")
    case True
    have "list_ex (\<lambda>b. snd b = None \<and> T \<le> fst b) os \<Longrightarrow> T \<le> fst a"
      using Cons.prems by (auto simp: list_ex_iff intro: order_trans)
    then show ?thesis using True by auto
  qed (use Cons in auto)
qed simp

text \<open>Readiness tells the truth. In every run, whatever the configuration is at the moment of the
  probe, the bridge reports ready exactly when some tick of the run ended without an error at most
  three poll intervals ago.\<close>

lemma ready_iff_recent_success:
  assumes "loop_run st" "0 < PollInterval c"
  shows "is_ready (Ready c st) \<longleftrightarrow>
    list_ex (\<lambda>(t, err). err = None \<and> now st - t \<le> 3 * PollInterval c) (outcomes st)"
proof -
  have h: "health_inv st" by (rule loop_run_health [OF assms(1)])
  have "is_ready (Ready c st) \<longleftrightarrow>
      (case find (\<lambda>a. snd a = None) (outcomes st) of None \<Rightarrow> False | Some a \<Rightarrow> now st - 3 * PollInterval c \<le> fst a)"
    using h assms(2) by (auto simp: Ready_def Let_def is_ready_def health_inv_def split: option.split)
  also have "\<dots> \<longleftrightarrow> list_ex (\<lambda>a. snd a = None \<and> now st - 3 * PollInterval c \<le> fst a) (outcomes st)"
    using h by (intro newest_success) (simp add: health_inv_def)
  also have "\<dots> \<longleftrightarrow> list_ex (\<lambda>(t, err). err = None \<and> now st - t \<le> 3 * PollInterval c) (outcomes st)"
    by (simp add: case_prod_unfold algebra_simps)
  finally show ?thesis .
qed

text \<open>A single failure withdraws readiness. After a success at \<open>t\<close> and a wait that jitter did not
  shorten, one failed tick is enough: when the timer of its retry fires (with jitter in the upper
  half, rounding left out), the success is older than three poll intervals, so the bridge has been
  reported not ready before it could try again.\<close>

lemma one_failure_withdraws_readiness:
  assumes "tick e sch (bridge_of st) = (b, Some err)" "0 < d" "consecutiveFailures st = 0"
    and "lastSuccessAt st = Some t" "t + P \<le> now st"
    and "PollInterval (live_cfg e (trace b)) = P" "PollInterval c = P" "0 < P" "7 * P < 2 ^ 63"
    and "1 / 2 \<le> r" "r < 1"
    and "phase (runTick (\<lambda>x. x) r e sch d trig st) = Waiting s f" "f \<le> later"
  shows "Ready c ((runTick (\<lambda>x. x) r e sch d trig st)\<lparr>now := later\<rparr>) = Stale (Some err)"
proof -
  let ?st = "runTick (\<lambda>x. x) r e sch d trig st"
  have P: "sint (of_int P :: i64) = P" using assms(8,9) by (intro sint_word_of_int64) simp_all
  have "sint (of_int P * 2 :: i64) = 2 * P"
    using sint_mult64 [of "of_int P" 2] assms(8,9) by (simp add: P)
  moreover have "nextBackoff (\<lambda>x. x) r (of_int P) 1 = jitteredInterval (\<lambda>x. x) r (of_int P * 2)"
    by (simp add: nextBackoff_def sle_sint Let_def sless_sint maxBackoffMultiple_def)
  moreover define x where "x = of_int (2 * P) + (r * 2 - 1) * (of_int (2 * P) * (1 / 10))"
  ultimately have w: "nextBackoff (\<lambda>x. x) r (of_int P) 1 = go_trunc x"
    using assms(8) by (simp only: jitteredInterval_def sle_sint Let_def) simp
  have "0 \<le> (r * 2 - 1) * (of_int (2 * P) * (1 / 10))" using assms(8,10) by simp
  then have lo: "of_int (2 * P) \<le> x" by (simp add: x_def)
  have "(r * 2 - 1) * (of_int (2 * P) * (1 / 10)) \<le> 1 * (of_int (2 * P) * (1 / 10))"
    using assms(8,11) by (intro mult_right_mono) simp_all
  then have hi: "x \<le> of_int (3 * P)" using assms(8) by (simp add: x_def)
  have fl: "2 * P \<le> \<lfloor>x\<rfloor>" "\<lfloor>x\<rfloor> \<le> 3 * P" using lo hi by (simp_all only: le_floor_iff floor_le_iff)
  have "0 \<le> x" using lo assms(8) by (simp add: order_trans [OF _ lo])
  then have "sint (go_trunc x) = \<lfloor>x\<rfloor>"
    using fl assms(8,9) unfolding go_trunc_def by (simp only: not_less [symmetric] if_False) (intro sint_word_of_int64; linarith)
  then have wait: "2 * P \<le> sint (nextBackoff (\<lambda>x. x) r (of_int P) 1)" using fl by (simp add: w)
  have "f = now st + d + sint (nextBackoff (\<lambda>x. x) r (of_int P) 1)"
    using assms(1,3,6,12) by (simp add: runTick_def Let_def)
  then have "3 * P < later - t" using wait assms(2,5,13) by linarith
  moreover have "lastSuccessAt ?st = Some t" "lastTickErr ?st = Some err"
    using assms(1,4) by (simp_all add: runTick_def Let_def)
  ultimately show ?thesis using assms(7,8) by (simp add: Ready_def Let_def)
qed

end
