(* ===== verification/Supervisor.thy ===== *)
theory Supervisor imports
  Ready_Condition
  Run_Loop
begin

text \<open>
  The supervisor of all WorkloadMixing resources of a namespace (\<open>internal/bridge/supervisor.go\<close>):
  which bridge runs for which resource, with which configuration, and what it tells the resources
  it refuses. Reconciles are serialized, so \<open>Reconcile\<close> is one step; waiting for a stopped loop to
  return is part of it. A running bridge is its configuration here; its ticks reach the supervisor
  as reports to the resource's writer.
\<close>

section \<open>Identities\<close>

record endpointIdentity =
  ei_url :: string
  ei_user :: string
  ei_tokenFile :: string
  ei_caCertFile :: string
  ei_insecureSkipVerify :: bool
  ei_requestTimeout :: int
  ei_requestsPerSecond :: rat

definition endpointIdentityFor :: "config \<Rightarrow> endpointIdentity" where
  "endpointIdentityFor cfg =
     \<lparr>ei_url = SlurmRestURL cfg, ei_user = SlurmUser cfg, ei_tokenFile = SlurmTokenFile cfg,
      ei_caCertFile = SlurmCACertFile cfg, ei_insecureSkipVerify = SlurmInsecureSkipTLSVerify cfg,
      ei_requestTimeout = SlurmRequestTimeout cfg, ei_requestsPerSecond = SlurmRequestsPerSecond cfg\<rparr>"

text \<open>The set of partitions is a list whose order and repetitions nothing looks at.\<close>

record bridgeIdentity =
  bi_endpoint :: endpointIdentity
  bi_partitions :: "string list"

definition identityFor :: "config \<Rightarrow> bridgeIdentity" where
  "identityFor cfg = \<lparr>bi_endpoint = endpointIdentityFor cfg, bi_partitions = map PartitionName (PartitionMappings cfg)\<rparr>"

definition conflictsWith :: "bridgeIdentity \<Rightarrow> bridgeIdentity \<Rightarrow> bool" where
  "conflictsWith a b \<longleftrightarrow>
     (if ei_url (bi_endpoint a) \<noteq> ei_url (bi_endpoint b) then False
      else list_ex (List.member (bi_partitions b)) (bi_partitions a))"

section \<open>The state\<close>

record running_bridge =
  rb_cfg :: config
  rb_identity :: bridgeIdentity
  rb_generation :: int

record sv_options =
  sv_namespace :: string
  AllowedSlurmdImages :: "string list"
  AllowInsecureTLS :: bool
  AllowedTokenPaths :: "string list"
  ConflictRetryInterval :: int

record supervisor =
  sv_started :: bool
  running :: "(cr_key \<times> running_bridge) list"
  blocked :: "(cr_key \<times> string) list"
  writers :: "cr_key \<rightharpoonup> writer"
  sv_log :: cr_log

definition idle_supervisor :: supervisor where
  "idle_supervisor = \<lparr>sv_started = False, running = [], blocked = [], writers = Map.empty, sv_log = []\<rparr>"

definition Start :: "supervisor \<Rightarrow> supervisor" where
  "Start st = st\<lparr>sv_started := True\<rparr>"

datatype reconcile_result = Done | RequeueAfter int | Failed error

definition defaultConflictRetryInterval :: int where "defaultConflictRetryInterval = 10 * second"

definition startupRetryInterval :: int where "startupRetryInterval = 200000000"

definition retryInterval :: "sv_options \<Rightarrow> int" where
  "retryInterval opts = (if ConflictRetryInterval opts > 0 then ConflictRetryInterval opts else defaultConflictRetryInterval)"

definition writerFor :: "cr_key \<Rightarrow> supervisor \<Rightarrow> writer" where
  "writerFor key st = (case writers st key of Some w \<Rightarrow> w | None \<Rightarrow> new_writer)"

definition setBlocked :: "cr_key \<Rightarrow> string \<Rightarrow> supervisor \<Rightarrow> supervisor" where
  "setBlocked key note st = st\<lparr>blocked := AList.update key note (blocked st)\<rparr>"

definition sv_eventf :: "cr_env \<Rightarrow> cr_key \<Rightarrow> string \<Rightarrow> supervisor \<Rightarrow> supervisor" where
  "sv_eventf e key reason st = (if cr_recorder e then st\<lparr>sv_log := (CREvent key reason, None) # sv_log st\<rparr> else st)"

text \<open>\<open>ReportRejection\<close> and \<open>ClearRejection\<close> on the resource's writer.\<close>

definition reject :: "cr_env \<Rightarrow> cr_key \<Rightarrow> string \<Rightarrow> string \<Rightarrow> supervisor \<Rightarrow> supervisor \<times> error option" where
  "reject e key reason msg st =
     (case ReportRejection e key reason msg (writerFor key st, sv_log st) of
        ((w, lg), r) \<Rightarrow> (st\<lparr>writers := (writers st)(key \<mapsto> w), sv_log := lg\<rparr>, r))"

definition accept :: "cr_key \<Rightarrow> supervisor \<Rightarrow> supervisor" where
  "accept key st = st\<lparr>writers := (writers st)(key \<mapsto> ClearRejection (writerFor key st))\<rparr>"

section \<open>Vetting\<close>

fun check_paths :: "string list \<Rightarrow> (string \<times> string) list \<Rightarrow> config_error option" where
  "check_paths allowed [] = None"
| "check_paths allowed ((field, path) # fs) =
     (if path = [] then check_paths allowed fs
      else case ValidateFilePathAllowed field path allowed of
        Some err \<Rightarrow> Some err | None \<Rightarrow> check_paths allowed fs)"

definition buildConfig :: "sv_options \<Rightarrow> cr_env \<Rightarrow> workloadmixing \<Rightarrow> config_error + config" where
  "buildConfig opts e wm =
     (case FromCR (rounding e) (scheme_of e) wm of
        Inl err \<Rightarrow> Inl err
      | Inr cfg \<Rightarrow>
     (case (if AllowedSlurmdImages opts \<noteq> [] then ValidateImageAllowed (Image (Slurmd cfg)) (AllowedSlurmdImages opts) else None) of
        Some err \<Rightarrow> Inl err
      | None \<Rightarrow>
     (case (if AllowedTokenPaths opts \<noteq> []
            then check_paths (AllowedTokenPaths opts)
              [(''slurmTokenFile'', SlurmTokenFile cfg), (''slurmCACertFile'', SlurmCACertFile cfg)]
            else None) of
        Some err \<Rightarrow> Inl err
      | None \<Rightarrow>
          if SlurmInsecureSkipTLSVerify cfg \<and> \<not> AllowInsecureTLS opts then Inl InsecureTLSRefused
          else Inr (cfg\<lparr>WorkloadMixingName := wm_name wm\<rparr>))))"

section \<open>Starting, stopping, refusing\<close>

definition wm_key :: "workloadmixing \<Rightarrow> cr_key" where
  "wm_key wm = (wm_namespace wm, wm_name wm)"

definition key_string :: "cr_key \<Rightarrow> string" where
  "key_string k = fst k @ ''/'' @ snd k"

definition findConflict :: "bridgeIdentity \<Rightarrow> cr_key \<Rightarrow> supervisor \<Rightarrow> cr_key option" where
  "findConflict i self st =
     find (\<lambda>k. case map_of (running st) k of Some rb \<Rightarrow> conflictsWith i (rb_identity rb) | None \<Rightarrow> False)
       (sort_key key_string (filter (\<lambda>k. k \<noteq> self) (map fst (running st))))"

definition stop :: "cr_key \<Rightarrow> supervisor \<Rightarrow> supervisor" where
  "stop key st =
     st\<lparr>running := AList.delete key (running st), blocked := AList.delete key (blocked st),
        writers := (writers st)(key := None)\<rparr>"

definition start :: "sv_options \<Rightarrow> cr_env \<Rightarrow> workloadmixing \<Rightarrow> config \<Rightarrow> bridgeIdentity \<Rightarrow> supervisor \<Rightarrow>
    supervisor \<times> reconcile_result" where
  "start opts e wm cfg i st =
     (let key = wm_key wm in
      case new_client e (sv_log st) cfg of
        Some err \<Rightarrow>
          let msg = ''creating slurm client: '' @ err_text e err;
              st1 = sv_eventf e key ReasonStartFailed (setBlocked key (ReasonStartFailed @ '': '' @ msg) st)
          in (case reject e key ReasonStartFailed msg st1 of
                (st2, Some uerr) \<Rightarrow> (st2, Failed uerr)
              | (st2, None) \<Rightarrow> (st2, RequeueAfter (retryInterval opts)))
      | None \<Rightarrow>
          let st1 = accept key st;
              entry = \<lparr>rb_cfg = cfg, rb_identity = i, rb_generation = wm_generation wm\<rparr>
          in (st1\<lparr>running := AList.update key entry (running st1), blocked := AList.delete key (blocked st1)\<rparr>, Done))"

text \<open>The bytes of U+2014.\<close>

definition em_dash :: string where "em_dash = [CHR 0xE2, CHR 0x80, CHR 0x94]"

definition refuseConflict :: "sv_options \<Rightarrow> cr_env \<Rightarrow> workloadmixing \<Rightarrow> cr_key \<Rightarrow> supervisor \<Rightarrow>
    supervisor \<times> reconcile_result" where
  "refuseConflict opts e wm conflictKey st =
     (let key = wm_key wm;
          msg = ''refusing to start: same slurmRestURL and overlapping partition(s) as running WorkloadMixing ''
                @ key_string conflictKey @ '' '' @ em_dash @ '' starting would double-manage its jobs; delete or change one of the two specs'';
          st1 = sv_eventf e key ReasonConflictingSpec
            (setBlocked key (ReasonConflictingSpec @ '': conflicts with '' @ key_string conflictKey) st)
      in (case reject e key ReasonConflictingSpec msg st1 of
            (st2, Some uerr) \<Rightarrow> (st2, Failed uerr)
          | (st2, None) \<Rightarrow> (st2, RequeueAfter (retryInterval opts))))"

definition refuseInvalid :: "cr_env \<Rightarrow> workloadmixing \<Rightarrow> config_error \<Rightarrow> supervisor \<Rightarrow> supervisor \<times> reconcile_result" where
  "refuseInvalid e wm cause st =
     (let key = wm_key wm;
          isRunning = (map_of (running st) key \<noteq> None);
          msg = (if isRunning then ''hot-reload failed, keeping previous config: '' else ''spec invalid: '') @ cfg_text e cause;
          st1 = (if isRunning then st else setBlocked key (ReasonInvalidSpec @ '': '' @ cfg_text e cause) st);
          st2 = sv_eventf e key ReasonInvalidSpec st1
      in (case reject e key ReasonInvalidSpec msg st2 of
            (st3, Some uerr) \<Rightarrow> (st3, Failed uerr)
          | (st3, None) \<Rightarrow> (st3, Done)))"

section \<open>Reconcile\<close>

definition startUnlessConflict :: "sv_options \<Rightarrow> cr_env \<Rightarrow> cr_key \<Rightarrow> workloadmixing \<Rightarrow> config \<Rightarrow> bridgeIdentity \<Rightarrow>
    supervisor \<Rightarrow> supervisor \<times> reconcile_result" where
  "startUnlessConflict opts e key wm cfg i st =
     (case findConflict i key st of
        Some conflictKey \<Rightarrow> refuseConflict opts e wm conflictKey st
      | None \<Rightarrow> start opts e wm cfg i st)"

definition hotReload :: "cr_key \<Rightarrow> workloadmixing \<Rightarrow> config \<Rightarrow> bridgeIdentity \<Rightarrow> supervisor \<Rightarrow> supervisor" where
  "hotReload key wm cfg i st =
     accept key (st\<lparr>running := AList.update key \<lparr>rb_cfg = cfg, rb_identity = i, rb_generation = wm_generation wm\<rparr> (running st),
        blocked := AList.delete key (blocked st)\<rparr>)"

definition Reconcile :: "sv_options \<Rightarrow> cr_env \<Rightarrow> cr_key \<Rightarrow> supervisor \<Rightarrow> supervisor \<times> reconcile_result" where
  "Reconcile opts e key st =
     (if fst key \<noteq> sv_namespace opts then (st, Done)
      else if \<not> sv_started st then (st, RequeueAfter startupRetryInterval)
      else case cr_get e (sv_log st) key of
        Inl err \<Rightarrow>
          let st1 = st\<lparr>sv_log := (GetCR key, Some err) # sv_log st\<rparr> in
          if is_kube_not_found err then (stop key st1, Done)
          else (st1, Failed (Wrap ''fetching WorkloadMixing'' err))
      | Inr wm \<Rightarrow>
          let st1 = st\<lparr>sv_log := (GetCR key, None) # sv_log st\<rparr> in
          (case buildConfig opts e wm of
             Inl err \<Rightarrow> refuseInvalid e wm err st1
           | Inr cfg \<Rightarrow>
               let i = identityFor cfg in
               (case map_of (running st1) key of
                  None \<Rightarrow> startUnlessConflict opts e key wm cfg i st1
                | Some entry \<Rightarrow>
                    if wm_generation wm = rb_generation entry then (st1, Done)
                    else if bi_endpoint (rb_identity entry) = bi_endpoint i then
                      (case findConflict i key st1 of
                         Some conflictKey \<Rightarrow> refuseConflict opts e wm conflictKey (stop key st1)
                       | None \<Rightarrow> (hotReload key wm cfg i st1, Done))
                    else startUnlessConflict opts e key wm cfg i (stop key st1))))"

text \<open>The tick of a running bridge reports to the resource's writer.\<close>

definition tickReport :: "cr_env \<Rightarrow> cr_key \<Rightarrow> error option \<Rightarrow> supervisor \<Rightarrow> supervisor" where
  "tickReport e key err st =
     (if map_of (running st) key = None then st
      else case ReportTick e key err (writerFor key st, sv_log st) of
        (w, lg) \<Rightarrow> st\<lparr>writers := (writers st)(key \<mapsto> w), sv_log := lg\<rparr>)"

section \<open>Aggregate readiness\<close>

text \<open>
  \<open>ready\<close> is each bridge's own verdict and its message. An answer is the HTTP status and the body; \<open>%q\<close>
  adds quotes, as a namespace has nothing to escape.
\<close>

record bridgeReadiness =
  br_Ready :: bool
  br_Message :: string

record supervisorReadyz =
  rz_Status :: string
  rz_Message :: string
  rz_Bridges :: "(string \<times> bridgeReadiness) list"
  rz_Blocked :: "(string \<times> string) list"

definition sv_Healthz :: "supervisor \<Rightarrow> (nat \<times> string) \<times> string" where
  "sv_Healthz st = (probe_result True,
     ''supervisor process alive; '' @ dec (length (running st)) @ '' bridge loop(s) running'')"

definition Readyz :: "(cr_key \<Rightarrow> bool \<times> string) \<Rightarrow> sv_options \<Rightarrow> supervisor \<Rightarrow> nat \<times> supervisorReadyz" where
  "Readyz ready opts st =
     (let bridges = map fst (running st);
          refused = map (\<lambda>(k, note). (key_string k, note)) (blocked st);
          (ok, message, shown) =
            (if \<not> sv_started st then
               (False, ''supervisor not started: this replica has not won leader election (standby readiness is 503 by design; see docs/operations.md)'', [])
             else if bridges = [] \<and> refused = [] then
               (True, ''no WorkloadMixing objects in namespace \"'' @ sv_namespace opts
                  @ ''\"; nothing to bridge (an empty namespace is not a failure)'', [])
             else
               (list_all (\<lambda>k. fst (ready k)) bridges,
                dec (length (filter (\<lambda>k. fst (ready k)) bridges)) @ ''/'' @ dec (length bridges)
                  @ '' running bridge(s) ready; '' @ dec (length refused) @ '' blocked'',
                map (\<lambda>k. (key_string k, \<lparr>br_Ready = fst (ready k), br_Message = snd (ready k)\<rparr>)) bridges))
      in (fst (probe_result ok),
          \<lparr>rz_Status = snd (probe_result ok), rz_Message = message, rz_Bridges = shown, rz_Blocked = refused\<rparr>))"

text \<open>
  The probe succeeds exactly on a leader all of whose running bridges are ready: a refused resource is
  shown but takes no other out of service, and the body's verdicts are the ones that were counted.
\<close>

lemma readyz_verdict:
  "fst (Readyz ready opts st) = 200 \<longleftrightarrow> sv_started st \<and> list_all (\<lambda>k. fst (ready k)) (map fst (running st))"
  "fst (Readyz ready opts st) = 200 \<longleftrightarrow> rz_Status (snd (Readyz ready opts st)) = ''ok''"
  by (auto simp: Readyz_def probe_result_def Let_def list_all_iff)

lemma readyz_body:
  assumes "sv_started st" "map_of (running st) k = Some rb"
  shows "(key_string k, \<lparr>br_Ready = fst (ready k), br_Message = snd (ready k)\<rparr>) \<in> set (rz_Bridges (snd (Readyz ready opts st)))"
proof -
  have "k \<in> set (map fst (running st))" using map_of_SomeD [OF assms(2)] by force
  then have "running st \<noteq> []" "k \<in> fst ` set (running st)" by auto
  then show ?thesis using assms(1) by (auto simp: Readyz_def Let_def)
qed

lemma standby_is_unready: "\<not> sv_started st \<Longrightarrow> fst (Readyz ready opts st) = 503"
  by (simp add: Readyz_def probe_result_def Let_def)

section \<open>What the steps leave running\<close>

lemma running_simps [simp]:
  "running (setBlocked key note st) = running st"
  "running (sv_eventf e key reason st) = running st"
  "running (fst (reject e key reason msg st)) = running st"
  "running (accept key st) = running st"
  "map_of (running (stop key st)) = (map_of (running st))(key := None)"
  "sv_started (stop key st) = sv_started st"
  "running (tickReport e key err st) = running st"
  by (auto simp: setBlocked_def sv_eventf_def reject_def accept_def stop_def tickReport_def delete_conv'
      split: prod.split)

lemma refuse_running [simp]:
  "running (fst (refuseConflict opts e wm ck st)) = running st"
  "running (fst (refuseInvalid e wm err st)) = running st"
proof -
  have reject: "running st' = running st0" if "reject e key reason msg st0 = (st', r)" for key reason msg st0 st' r
    using running_simps(3) [of e key reason msg st0] that by simp
  show "running (fst (refuseConflict opts e wm ck st)) = running st"
    by (auto simp: refuseConflict_def Let_def dest!: reject split: prod.split option.split)
  show "running (fst (refuseInvalid e wm err st)) = running st"
    by (auto simp: refuseInvalid_def Let_def dest!: reject split: prod.split option.split)
qed

text \<open>The entry a resource gets.\<close>

definition entry_for :: "config \<Rightarrow> workloadmixing \<Rightarrow> running_bridge" where
  "entry_for cfg wm = \<lparr>rb_cfg = cfg, rb_identity = identityFor cfg, rb_generation = wm_generation wm\<rparr>"

lemma start_running:
  "map_of (running (fst (start opts e wm cfg (identityFor cfg) st))) =
     (if new_client e (sv_log st) cfg = None then (map_of (running st))(wm_key wm \<mapsto> entry_for cfg wm) else map_of (running st))"
proof (cases "new_client e (sv_log st) cfg")
  case (Some err)
  have reject: "running st' = running st0" if "reject e key reason msg st0 = (st', r)" for key reason msg st0 st' r
    using running_simps(3) [of e key reason msg st0] that by simp
  show ?thesis by (auto simp: start_def Some Let_def dest!: reject split: prod.split option.split)
qed (simp add: start_def Let_def update_conv' entry_for_def)

lemma hotReload_running:
  "map_of (running (hotReload key wm cfg (identityFor cfg) st)) = (map_of (running st))(key \<mapsto> entry_for cfg wm)"
  by (simp add: hotReload_def update_conv' entry_for_def)

text \<open>The outcomes of a reconcile for what runs: nothing changes, the bridge stops, or it runs what was built.\<close>

definition faithful :: "cr_env \<Rightarrow> bool" where
  "faithful e \<longleftrightarrow> (\<forall>lg key wm. cr_get e lg key = Inr wm \<longrightarrow> wm_key wm = key)"

definition no_conflict :: "bridgeIdentity \<Rightarrow> cr_key \<Rightarrow> supervisor \<Rightarrow> bool" where
  "no_conflict i key st \<longleftrightarrow>
     (\<forall>k rb. k \<noteq> key \<longrightarrow> map_of (running st) k = Some rb \<longrightarrow> \<not> conflictsWith i (rb_identity rb))"

lemma findConflict_None: "findConflict i key st = None \<longleftrightarrow> no_conflict i key st"
proof -
  have "k \<in> set (map fst (running st))" if "map_of (running st) k = Some rb" for k rb
    using that by (force dest: map_of_SomeD)
  then show ?thesis
    by (fastforce simp: findConflict_def find_None_iff no_conflict_def split: option.splits)
qed

lemma no_conflict_stop: "no_conflict i key (stop key st) \<longleftrightarrow> no_conflict i key st"
  by (auto simp: no_conflict_def)

lemma no_conflict_logged [simp]: "no_conflict i key (st\<lparr>sv_log := lg\<rparr>) \<longleftrightarrow> no_conflict i key st"
  by (simp add: no_conflict_def)

lemma startUnlessConflict_running:
  assumes "wm_key wm = key"
  shows "map_of (running (fst (startUnlessConflict opts e key wm cfg (identityFor cfg) st))) = map_of (running st)
    \<or> no_conflict (identityFor cfg) key st
      \<and> map_of (running (fst (startUnlessConflict opts e key wm cfg (identityFor cfg) st)))
        = (map_of (running st))(key \<mapsto> entry_for cfg wm)"
  using assms by (auto simp: startUnlessConflict_def start_running findConflict_None [symmetric] split: option.split)

definition running_change :: "sv_options \<Rightarrow> cr_env \<Rightarrow> cr_key \<Rightarrow> supervisor \<Rightarrow> supervisor \<Rightarrow> bool" where
  "running_change opts e key st st' \<longleftrightarrow>
     map_of (running st') = map_of (running st)
     \<or> map_of (running st') = (map_of (running st))(key := None)
     \<or> (\<exists>wm cfg. buildConfig opts e wm = Inr cfg \<and> wm_key wm = key \<and> fst key = sv_namespace opts
          \<and> no_conflict (identityFor cfg) key st
          \<and> map_of (running st') = (map_of (running st))(key \<mapsto> entry_for cfg wm))"

lemma Reconcile_current:
  assumes "faithful e" "fst key = sv_namespace opts" "sv_started st" "cr_get e (sv_log st) key = Inr wm"
    "buildConfig opts e wm = Inr cfg"
  shows "running_change opts e key st (fst (Reconcile opts e key st))"
proof -
  have key: "wm_key wm = key" using assms(1,4) unfolding faithful_def by blast
  let ?i = "identityFor cfg"
  let ?st1 = "st\<lparr>sv_log := (GetCR key, None) # sv_log st\<rparr>"
  have launch: "running_change opts e key st (fst (startUnlessConflict opts e key wm cfg ?i s))"
    if "map_of (running s) = map_of (running st) \<or> map_of (running s) = (map_of (running st))(key := None)"
      "no_conflict ?i key s \<longleftrightarrow> no_conflict ?i key st" for s
    using startUnlessConflict_running [OF key, of opts e cfg s] that assms(2,5) key
    unfolding running_change_def by (smt (verit) fun_upd_upd)
  show ?thesis
  proof (cases "map_of (running st) key")
    case None
    then have "fst (Reconcile opts e key st) = fst (startUnlessConflict opts e key wm cfg ?i ?st1)"
      using assms by (simp add: Reconcile_def Let_def)
    then show ?thesis using launch [of ?st1] by simp
  next
    case (Some entry)
    consider (same) "wm_generation wm = rb_generation entry"
      | (reload) "wm_generation wm \<noteq> rb_generation entry" "bi_endpoint (rb_identity entry) = bi_endpoint ?i"
      | (restart) "wm_generation wm \<noteq> rb_generation entry" "bi_endpoint (rb_identity entry) \<noteq> bi_endpoint ?i" by blast
    then show ?thesis
    proof cases
      case same
      then show ?thesis using assms Some by (simp add: Reconcile_def Let_def running_change_def)
    next
      case reload
      show ?thesis
      proof (cases "findConflict ?i key ?st1")
        case None
        then have "no_conflict ?i key st" using findConflict_None [of ?i key ?st1] by simp
        moreover have "map_of (running (fst (Reconcile opts e key st))) = (map_of (running st))(key \<mapsto> entry_for cfg wm)"
          using None reload assms Some by (simp add: Reconcile_def Let_def hotReload_running)
        ultimately show ?thesis using assms(2,5) key unfolding running_change_def by blast
      next
        case (Some ck)
        then show ?thesis using reload assms \<open>map_of (running st) key = Some entry\<close>
          by (simp add: Reconcile_def Let_def running_change_def)
      qed
    next
      case restart
      then have "fst (Reconcile opts e key st) = fst (startUnlessConflict opts e key wm cfg ?i (stop key ?st1))"
        using assms Some by (simp add: Reconcile_def Let_def)
      then show ?thesis using launch [of "stop key ?st1"] by (simp add: no_conflict_stop)
    qed
  qed
qed

lemma Reconcile_change:
  assumes "faithful e"
  shows "running_change opts e key st (fst (Reconcile opts e key st))"
proof -
  consider (skip) "fst (Reconcile opts e key st) = st"
    | (fetch) err where "fst key = sv_namespace opts" "sv_started st" "cr_get e (sv_log st) key = Inl err"
    | (read) wm where "fst key = sv_namespace opts" "sv_started st" "cr_get e (sv_log st) key = Inr wm"
    by (cases "cr_get e (sv_log st) key"; cases "fst key = sv_namespace opts"; cases "sv_started st")
      (auto simp: Reconcile_def)
  then show ?thesis
  proof cases
    case skip
    then show ?thesis by (simp add: running_change_def)
  next
    case (fetch err)
    then show ?thesis
      by (cases "is_kube_not_found err") (simp_all add: Reconcile_def Let_def running_change_def)
  next
    case (read wm)
    then show ?thesis
    proof (cases "buildConfig opts e wm")
      case (Inl err)
      then show ?thesis using read by (simp add: Reconcile_def Let_def running_change_def)
    qed (use Reconcile_current [OF assms read] in simp)
  qed
qed

section \<open>The specification: exclusive claims\<close>

text \<open>
  What the supervisor promises is a table of claims: each resource holds a set of (endpoint,
  partition) pairs, and a set is granted only if it meets no other resource's. The table stays
  exclusive; every step of the supervisor is a step, or a few, of the table.
\<close>

type_synonym ('k, 'c) claims = "'k \<rightharpoonup> 'c set"

definition claims_of :: "bridgeIdentity \<Rightarrow> (string \<times> string) set" where
  "claims_of i = Pair (ei_url (bi_endpoint i)) ` set (bi_partitions i)"

definition exclusive :: "('k, 'c) claims \<Rightarrow> bool" where
  "exclusive C \<longleftrightarrow> (\<forall>k1 k2 X Y. k1 \<noteq> k2 \<longrightarrow> C k1 = Some X \<longrightarrow> C k2 = Some Y \<longrightarrow> X \<inter> Y = {})"

inductive claim_step :: "('k, 'c) claims \<Rightarrow> ('k, 'c) claims \<Rightarrow> bool" where
  keep: "claim_step C C"
| drop: "claim_step C (C(k := None))"
| grant: "(\<And>k' Y. k' \<noteq> k \<Longrightarrow> C k' = Some Y \<Longrightarrow> X \<inter> Y = {}) \<Longrightarrow> claim_step C (C(k \<mapsto> X))"

lemma claim_step_exclusive: "claim_step C C' \<Longrightarrow> exclusive C \<Longrightarrow> exclusive C'"
proof (induction rule: claim_step.induct)
  case (grant k C X)
  have "A \<inter> B = {}" if "k1 \<noteq> k2" "(C(k \<mapsto> X)) k1 = Some A" "(C(k \<mapsto> X)) k2 = Some B" for k1 k2 A B
  proof -
    have old: "C k1 = Some A \<Longrightarrow> C k2 = Some B \<Longrightarrow> A \<inter> B = {}"
      using grant(2) that(1) unfolding exclusive_def by blast
    show ?thesis using grant(1) [of k1 A] grant(1) [of k2 B] that old
      by (cases "k1 = k"; cases "k2 = k") (simp_all add: Int_commute)
  qed
  then show ?case unfolding exclusive_def by blast
qed (auto simp: exclusive_def)

lemma conflictsWith_claims: "conflictsWith a b \<longleftrightarrow> claims_of a \<inter> claims_of b \<noteq> {}"
  by (auto simp: conflictsWith_def claims_of_def list_ex_iff)

definition claims :: "supervisor \<Rightarrow> (cr_key, string \<times> string) claims" where
  "claims st = (\<lambda>k. map_option (\<lambda>rb. claims_of (rb_identity rb)) (map_of (running st) k))"

lemma claims_refined:
  assumes "running_change opts e key st st'"
  shows "claim_step (claims st) (claims st')"
proof -
  consider (keep) "map_of (running st') = map_of (running st)"
    | (drop) "map_of (running st') = (map_of (running st))(key := None)"
    | (grant) wm cfg where "no_conflict (identityFor cfg) key st"
        "map_of (running st') = (map_of (running st))(key \<mapsto> entry_for cfg wm)"
    using assms unfolding running_change_def by blast
  then show ?thesis
  proof cases
    case keep
    then show ?thesis by (simp add: claims_def claim_step.keep)
  next
    case drop
    then have "claims st' = (claims st)(key := None)" by (auto simp: claims_def)
    then show ?thesis by (simp add: claim_step.drop)
  next
    case grant
    have "claim_step (claims st) ((claims st)(key \<mapsto> claims_of (identityFor cfg)))"
      using grant(1) by (intro claim_step.grant) (auto simp: claims_def no_conflict_def conflictsWith_claims)
    moreover have "claims st' = (claims st)(key \<mapsto> claims_of (identityFor cfg))"
      using grant(2) by (auto simp: claims_def entry_for_def)
    ultimately show ?thesis by simp
  qed
qed

section \<open>Runs\<close>

inductive sv_run :: "sv_options \<Rightarrow> supervisor \<Rightarrow> bool" for opts where
  initial: "sv_run opts idle_supervisor"
| leader: "sv_run opts st \<Longrightarrow> sv_run opts (Start st)"
| request: "sv_run opts st \<Longrightarrow> faithful e \<Longrightarrow> sv_run opts (fst (Reconcile opts e key st))"
| report: "sv_run opts st \<Longrightarrow> sv_run opts (tickReport e key err st)"

text \<open>What the vetting of \<open>buildConfig\<close> establishes.\<close>

definition path_confined :: "sv_options \<Rightarrow> string \<Rightarrow> bool" where
  "path_confined opts p \<longleftrightarrow>
     p = [] \<or> (IsAbs p \<and> list_ex (under_prefix (Clean p)) (AllowedTokenPaths opts))"

definition vetted :: "sv_options \<Rightarrow> cr_key \<Rightarrow> config \<Rightarrow> bool" where
  "vetted opts key c \<longleftrightarrow>
     (if AllowedSlurmdImages opts = [] then True else list_ex (HasPrefix (Image (Slurmd c))) (AllowedSlurmdImages opts))
     \<and> (if AllowedTokenPaths opts = [] then True
        else path_confined opts (SlurmTokenFile c) \<and> path_confined opts (SlurmCACertFile c))
     \<and> (if SlurmInsecureSkipTLSVerify c then AllowInsecureTLS opts else True)
     \<and> Namespace c = fst key \<and> WorkloadMixingName c = snd key"

lemma check_paths_None:
  "check_paths allowed fs = None \<longleftrightarrow>
     list_all (\<lambda>(f, p). p = [] \<or> (IsAbs p \<and> list_ex (under_prefix (Clean p)) allowed)) fs"
  by (induction allowed fs rule: check_paths.induct) (auto simp: ValidateFilePathAllowed_def)

lemma buildConfig_vetted:
  assumes "buildConfig opts e wm = Inr c"
  shows "vetted opts (wm_key wm) c"
proof -
  obtain c0 where c0: "FromCR (rounding e) (scheme_of e) wm = Inr c0" "c = c0\<lparr>WorkloadMixingName := wm_name wm\<rparr>"
    and "(if AllowedSlurmdImages opts \<noteq> [] then ValidateImageAllowed (Image (Slurmd c0)) (AllowedSlurmdImages opts) else None) = None"
    and "(if AllowedTokenPaths opts \<noteq> [] then check_paths (AllowedTokenPaths opts)
        [(''slurmTokenFile'', SlurmTokenFile c0), (''slurmCACertFile'', SlurmCACertFile c0)] else None) = None"
    and "\<not> (SlurmInsecureSkipTLSVerify c0 \<and> \<not> AllowInsecureTLS opts)"
    using assms unfolding buildConfig_def by (auto split: sum.splits option.splits if_splits)
  moreover have "Namespace c0 = wm_namespace wm" using c0(1) by (auto elim: FromCR_InrE)
  ultimately show ?thesis
    by (auto simp: vetted_def path_confined_def check_paths_None ValidateImageAllowed_def wm_key_def
        simp del: check_paths.simps split: if_splits)
qed

definition sound_entry :: "sv_options \<Rightarrow> cr_key \<Rightarrow> running_bridge \<Rightarrow> bool" where
  "sound_entry opts k rb \<longleftrightarrow> vetted opts k (rb_cfg rb) \<and> rb_identity rb = identityFor (rb_cfg rb) \<and> fst k = sv_namespace opts"

definition sv_inv :: "sv_options \<Rightarrow> supervisor \<Rightarrow> bool" where
  "sv_inv opts st \<longleftrightarrow> exclusive (claims st)
     \<and> (\<forall>k rb. map_of (running st) k = Some rb \<longrightarrow> sound_entry opts k rb)"

lemma sv_run_inv: "sv_run opts st \<Longrightarrow> sv_inv opts st"
proof (induction rule: sv_run.induct)
  case initial
  then show ?case by (simp add: sv_inv_def idle_supervisor_def claims_def exclusive_def)
next
  case (leader st)
  then show ?case by (simp add: sv_inv_def Start_def claims_def)
next
  case (request st e key)
  let ?st' = "fst (Reconcile opts e key st)"
  have c: "running_change opts e key st ?st'" by (rule Reconcile_change [OF request(2)])
  have "exclusive (claims ?st')"
    using claim_step_exclusive [OF claims_refined [OF c]] request(3) by (simp add: sv_inv_def)
  moreover have "sound_entry opts k rb" if "map_of (running ?st') k = Some rb" for k rb
  proof -
    have old: "sound_entry opts k rb" if "map_of (running st) k = Some rb"
      using request(3) that unfolding sv_inv_def by blast
    from c that show ?thesis unfolding running_change_def
    proof (elim disjE exE conjE)
      fix wm cfg
      assume new: "buildConfig opts e wm = Inr cfg" "wm_key wm = key" "fst key = sv_namespace opts"
        "map_of (running ?st') = (map_of (running st))(key \<mapsto> entry_for cfg wm)"
      then show ?thesis using that old buildConfig_vetted [OF new(1)]
        by (cases "k = key") (auto simp: sound_entry_def entry_for_def)
    qed (use old in \<open>simp_all split: if_splits\<close>)
  qed
  ultimately show ?case unfolding sv_inv_def by blast
next
  case (report st e key err)
  then show ?case by (simp add: sv_inv_def claims_def)
qed

section \<open>An example\<close>

text \<open>Three resources of one namespace, on one Slurm endpoint: two share a partition.\<close>

definition gpu_config :: config where
  "gpu_config = example_config\<lparr>PartitionMappings := [\<lparr>PartitionName = ''gpu'', WorkloadPriorityClass = ''low'', PartitionQueue = []\<rparr>]\<rparr>"

definition three_resources :: cr_env where
  "three_resources = calm_cr\<lparr>cr_get := (\<lambda>_ key.
     if key = (''slurm-jobs'', ''mixing'') then Inr (as_resource ''mixing'' 1 example_config)
     else if key = (''slurm-jobs'', ''gpu'') then Inr (as_resource ''gpu'' 1 gpu_config)
     else if key = (''slurm-jobs'', ''twin'') then Inr (as_resource ''twin'' 1 example_config)
     else Inl NotFound)\<rparr>"

definition strict_options :: sv_options where
  "strict_options = \<lparr>sv_namespace = ''slurm-jobs'', AllowedSlurmdImages = [''ghcr.io/''], AllowInsecureTLS = False,
     AllowedTokenPaths = [''/var/run/secrets/slurm''], ConflictRetryInterval = 0\<rparr>"

definition after_requests :: "string list \<Rightarrow> supervisor" where
  "after_requests names =
     fold (\<lambda>n st. fst (Reconcile strict_options three_resources (''slurm-jobs'', n) st)) names (Start idle_supervisor)"

lemma faithful_three: "faithful three_resources"
  by (auto simp: faithful_def three_resources_def wm_key_def as_resource_def example_config_def gpu_config_def
      split: if_splits)

lemma gpu_config_accepted: "ApplyDefaults gpu_config = gpu_config" "Validate (\<lambda>_. Some ''https'') gpu_config = None"
  by (simp_all add: gpu_config_def ApplyDefaults_def example_config_def second_def)
    (auto simp: Validate_def check_url_def TrimSpace_graphic graphic_def byte_def second_def sless_sint)

lemma example_vetting:
  "ValidateImageAllowed ''ghcr.io/slurmd'' [''ghcr.io/''] = None"
  "ValidateFilePathAllowed ''slurmTokenFile'' ''/var/run/secrets/slurm/token'' [''/var/run/secrets/slurm''] = None"
  by code_simp+

lemma example_build:
  assumes "c = example_config \<or> c = gpu_config"
  shows "buildConfig strict_options three_resources (as_resource n 1 c) = Inr (c\<lparr>WorkloadMixingName := n\<rparr>)"
proof -
  have durations: "PollInterval c = 10 * second" "SlurmRequestTimeout c = 30 * second" "FailedJobSetRetention c = 0"
    and name: "WorkloadMixingName c = []"
    and files: "Image (Slurmd c) = ''ghcr.io/slurmd''" "SlurmTokenFile c = ''/var/run/secrets/slurm/token''"
      "SlurmCACertFile c = []" "\<not> SlurmInsecureSkipTLSVerify c"
    using assms by (auto simp: example_config_def gpu_config_def)
  have ok: "ApplyDefaults c = c" "Validate (\<lambda>_. Some ''https'') c = None"
    using assms gpu_config_accepted example_valid example_defaults by blast+
  have "FromCR (\<lambda>x. x) (\<lambda>_. Some ''https'') (as_resource n 1 c) = Inr c"
    using FromCR_as_resource [of c "\<lambda>x. x" "\<lambda>_. Some ''https''" n 1] name
    by (simp add: durations ok) (simp add: second_def)
  moreover have "rounding three_resources = (\<lambda>x. x)" "scheme_of three_resources = (\<lambda>_. Some ''https'')"
    by (simp_all add: three_resources_def calm_cr_def)
  moreover have "wm_name (as_resource n 1 c) = n" by (simp add: as_resource_def)
  ultimately show ?thesis using example_vetting files
    by (simp add: buildConfig_def strict_options_def)
qed

lemma example_reconcile:
  assumes "sv_started st" "map_of (running st) (''slurm-jobs'', n) = None"
    and "(n, c) \<in> {(''mixing'', example_config), (''gpu'', gpu_config), (''twin'', example_config)}"
  shows "Reconcile strict_options three_resources (''slurm-jobs'', n) st =
    startUnlessConflict strict_options three_resources (''slurm-jobs'', n) (as_resource n 1 c)
      (c\<lparr>WorkloadMixingName := n\<rparr>) (identityFor (c\<lparr>WorkloadMixingName := n\<rparr>))
      (st\<lparr>sv_log := (GetCR (''slurm-jobs'', n), None) # sv_log st\<rparr>)"
proof -
  have "cr_get three_resources (sv_log st) (''slurm-jobs'', n) = Inr (as_resource n 1 c)"
    using assms(3) by (auto simp: three_resources_def)
  moreover have "buildConfig strict_options three_resources (as_resource n 1 c) = Inr (c\<lparr>WorkloadMixingName := n\<rparr>)"
    using assms(3) by (intro example_build) blast
  moreover have "sv_namespace strict_options = ''slurm-jobs''" by (simp add: strict_options_def)
  ultimately show ?thesis using assms(1,2) by (simp add: Reconcile_def Let_def)
qed

lemma after_requests_run: "sv_run strict_options (after_requests names)"
proof -
  have "sv_run strict_options (fold (\<lambda>n st. fst (Reconcile strict_options three_resources (''slurm-jobs'', n) st)) names st)"
    if "sv_run strict_options st" for st
    using that by (induction names arbitrary: st) (simp_all add: sv_run.request faithful_three)
  then show ?thesis by (simp add: after_requests_def sv_run.leader sv_run.initial)
qed

lemma identityFor_name [simp]: "identityFor (c\<lparr>WorkloadMixingName := n\<rparr>) = identityFor c"
  by (simp add: identityFor_def endpointIdentityFor_def)

lemma example_conflict:
  "\<not> conflictsWith (identityFor gpu_config) (identityFor example_config)"
  "conflictsWith (identityFor example_config) (identityFor example_config)"
  by (simp_all add: conflictsWith_def identityFor_def endpointIdentityFor_def gpu_config_def example_config_def)

definition mixing_entry :: running_bridge where
  "mixing_entry = entry_for (example_config\<lparr>WorkloadMixingName := ''mixing''\<rparr>) (as_resource ''mixing'' 1 example_config)"

definition gpu_entry :: running_bridge where
  "gpu_entry = entry_for (gpu_config\<lparr>WorkloadMixingName := ''gpu''\<rparr>) (as_resource ''gpu'' 1 gpu_config)"

lemma example_start:
  assumes "sv_started st" "map_of (running st) (''slurm-jobs'', n) = None"
    and "(n, c) \<in> {(''mixing'', example_config), (''gpu'', gpu_config), (''twin'', example_config)}"
    and "findConflict (identityFor c) (''slurm-jobs'', n) st = None"
  shows "map_of (running (fst (Reconcile strict_options three_resources (''slurm-jobs'', n) st))) =
      (map_of (running st))((''slurm-jobs'', n) \<mapsto> entry_for (c\<lparr>WorkloadMixingName := n\<rparr>) (as_resource n 1 c))"
    and "sv_started (fst (Reconcile strict_options three_resources (''slurm-jobs'', n) st))"
proof -
  let ?st1 = "st\<lparr>sv_log := (GetCR (''slurm-jobs'', n), None) # sv_log st\<rparr>"
  let ?c = "c\<lparr>WorkloadMixingName := n\<rparr>"
  have free: "findConflict (identityFor ?c) (''slurm-jobs'', n) ?st1 = None"
    using assms(4) by (simp add: findConflict_def)
  have eq: "Reconcile strict_options three_resources (''slurm-jobs'', n) st =
      start strict_options three_resources (as_resource n 1 c) ?c (identityFor ?c) ?st1"
    unfolding example_reconcile [OF assms(1-3)] startUnlessConflict_def by (simp only: free option.case)
  have cl: "new_client three_resources lg d = None" for lg d by (simp add: three_resources_def calm_cr_def)
  have key: "wm_key (as_resource n 1 c) = (''slurm-jobs'', n)"
    using assms(3) by (auto simp: wm_key_def as_resource_def example_config_def gpu_config_def)
  show "map_of (running (fst (Reconcile strict_options three_resources (''slurm-jobs'', n) st))) =
      (map_of (running st))((''slurm-jobs'', n) \<mapsto> entry_for ?c (as_resource n 1 c))"
    unfolding eq start_running by (simp add: cl key)
  show "sv_started (fst (Reconcile strict_options three_resources (''slurm-jobs'', n) st))"
    unfolding eq using assms(1) by (simp add: start_def cl Let_def accept_def)
qed

lemma example_mixing:
  "map_of (running (after_requests [''mixing''])) = [(''slurm-jobs'', ''mixing'') \<mapsto> mixing_entry]"
  "sv_started (after_requests [''mixing''])"
  using example_start [of "Start idle_supervisor" "''mixing''" example_config]
  by (simp_all add: after_requests_def Start_def idle_supervisor_def mixing_entry_def findConflict_def)

lemma gpu_is_free: "findConflict (identityFor gpu_config) (''slurm-jobs'', ''gpu'') (after_requests [''mixing'']) = None"
  unfolding findConflict_None no_conflict_def example_mixing
  by (auto simp: example_conflict mixing_entry_def entry_for_def)

lemma example_both:
  "map_of (running (after_requests [''mixing'', ''gpu''])) =
     [(''slurm-jobs'', ''mixing'') \<mapsto> mixing_entry, (''slurm-jobs'', ''gpu'') \<mapsto> gpu_entry]"
  using example_start(1) [of "after_requests [''mixing'']" "''gpu''" gpu_config] example_mixing gpu_is_free
  by (simp add: gpu_entry_def) (simp add: after_requests_def)

section \<open>Properties\<close>

lemma disjoint_partitions:
  assumes "sv_run opts st"
    and "map_of (running st) k1 = Some rb1" "map_of (running st) k2 = Some rb2" "k1 \<noteq> k2"
    and "SlurmRestURL (rb_cfg rb1) = SlurmRestURL (rb_cfg rb2)" "PriorityClassFor (rb_cfg rb1) p \<noteq> None"
  shows "PriorityClassFor (rb_cfg rb2) p = None"
proof (rule ccontr)
  assume both: "PriorityClassFor (rb_cfg rb2) p \<noteq> None"
  have inv: "sv_inv opts st" by (rule sv_run_inv [OF assms(1)])
  have ids: "rb_identity rb1 = identityFor (rb_cfg rb1)" "rb_identity rb2 = identityFor (rb_cfg rb2)"
    using inv assms(2,3) unfolding sv_inv_def sound_entry_def by blast+
  have "claims_of (rb_identity rb1) \<inter> claims_of (rb_identity rb2) = {}"
  proof -
    have "claims st k1 = Some (claims_of (rb_identity rb1))" "claims st k2 = Some (claims_of (rb_identity rb2))"
      using assms(2,3) by (simp_all add: claims_def)
    then show ?thesis using inv assms(4) unfolding sv_inv_def exclusive_def by blast
  qed
  moreover have "(SlurmRestURL (rb_cfg rb1), p) \<in> claims_of (rb_identity rb1) \<inter> claims_of (rb_identity rb2)"
    using assms(5,6) both
    by (auto simp: ids claims_of_def identityFor_def endpointIdentityFor_def PriorityClassFor_def
        partitions.lookup_mapped_iff simp del: not_None_eq)
  ultimately show False by blast
qed

lemma running_sound: "sv_run opts st \<Longrightarrow> map_of (running st) k = Some rb \<Longrightarrow> sound_entry opts k rb"
  using sv_run_inv unfolding sv_inv_def by blast

text \<open>C17: the deploy-time trust anchors hold for whatever runs. Every bridge a supervisor runs, after any
  history of edits, has an image with an allowed prefix, reads token and CA files only below an
  allowed path, skips TLS verification only if the operator permitted it, works in the
  supervisor's own namespace, and selects the JobSets of its own resource.\<close>

theorem running_configs_are_vetted:
  assumes "sv_run opts st" "map_of (running st) k = Some rb"
  shows "vetted opts k (rb_cfg rb) \<and> fst k = sv_namespace opts"
  using running_sound [OF assms] by (simp add: sound_entry_def)

theorem running_configs_are_vetted_witness: "vetted strict_options (''slurm-jobs'', ''gpu'') (rb_cfg gpu_entry)"
  by (rule running_configs_are_vetted [of strict_options "after_requests [''mixing'', ''gpu'']" "(''slurm-jobs'', ''gpu'')"
        gpu_entry, THEN conjunct1]) (simp_all add: after_requests_run example_both)

text \<open>C6: the supervisor implements exclusive claims. Each reconcile, whatever it reads and whichever of
  its branches it takes, is one step of the table of claims: nothing changes, one resource's
  claim is dropped, or it is replaced by one that meets no other resource's claim.\<close>

theorem reconcile_refines_claims:
  assumes "faithful e"
  shows "claim_step (claims st) (claims (fst (Reconcile opts e key st)))"
  by (rule claims_refined [OF Reconcile_change [OF assms]])

theorem reconcile_refines_claims_witness:
  "claim_step (claims (after_requests [''mixing'', ''gpu'']))
     (claims (fst (Reconcile strict_options three_resources (''slurm-jobs'', ''twin'') (after_requests [''mixing'', ''gpu'']))))"
  by (rule reconcile_refines_claims [OF faithful_three])

text \<open>C19: a good resource gets its bridge. When the supervisor has started, the resource is in its namespace,
  is read and has another generation than the one that runs under its name, if any does, its spec is
  accepted, no running bridge conflicts with it and its Slurm client can be built, then one reconcile makes
  it run with exactly the configuration built from that spec, whether it was new, edited, or had to be
  restarted; nothing else changes, it is no longer listed as blocked, and its condition is left to the
  ticks again. (A recreated resource that has the generation of the one it replaces is not adopted; see
  \<open>recreated_resource_is_ignored\<close>.)\<close>

theorem good_resource_runs:
  assumes "sv_started st" "fst key = sv_namespace opts"
    and "cr_get e (sv_log st) key = Inr wm" "wm_key wm = key" "buildConfig opts e wm = Inr cfg"
    and "case map_of (running st) key of None \<Rightarrow> True | Some rb \<Rightarrow> rb_generation rb \<noteq> wm_generation wm"
    and "findConflict (identityFor cfg) key st = None" "\<And>lg. new_client e lg cfg = None"
  shows "map_of (running (fst (Reconcile opts e key st))) = (map_of (running st))(key \<mapsto> entry_for cfg wm)
    \<and> map_of (blocked (fst (Reconcile opts e key st))) key = None
    \<and> \<not> rejected (writerFor key (fst (Reconcile opts e key st)))
    \<and> snd (Reconcile opts e key st) = Done"
proof -
  let ?i = "identityFor cfg"
  let ?st1 = "st\<lparr>sv_log := (GetCR key, None) # sv_log st\<rparr>"
  have free: "findConflict ?i key s = None" if "s = ?st1 \<or> s = stop key ?st1" for s
    using assms(7) that unfolding findConflict_None by (auto simp: no_conflict_stop)
  have run: "map_of (running (fst (start opts e wm cfg ?i s))) = (map_of (running s))(key \<mapsto> entry_for cfg wm)
      \<and> map_of (blocked (fst (start opts e wm cfg ?i s))) key = None \<and> \<not> rejected (writerFor key (fst (start opts e wm cfg ?i s)))
      \<and> snd (start opts e wm cfg ?i s) = Done" for s
    using assms(4,8) start_running [of opts e wm cfg s]
    by (simp add: start_def Let_def accept_def writerFor_def ClearRejection_def delete_conv')
  have hot: "map_of (blocked (hotReload key wm cfg ?i s)) key = None \<and> \<not> rejected (writerFor key (hotReload key wm cfg ?i s))" for s
    by (simp add: hotReload_def accept_def writerFor_def ClearRejection_def delete_conv')
  show ?thesis
  proof (cases "map_of (running st) key")
    case None
    then have "Reconcile opts e key st = start opts e wm cfg ?i ?st1"
      using assms(1-3,5) free [of ?st1] by (simp add: Reconcile_def Let_def startUnlessConflict_def)
    then show ?thesis using run [of ?st1] by simp
  next
    case (Some rb)
    then have gen: "wm_generation wm \<noteq> rb_generation rb" using assms(6) by simp
    show ?thesis
    proof (cases "bi_endpoint (rb_identity rb) = bi_endpoint ?i")
      case True
      then have "Reconcile opts e key st = (hotReload key wm cfg ?i ?st1, Done)"
        using assms(1-3,5) free [of ?st1] gen Some by (simp add: Reconcile_def Let_def)
      then show ?thesis using hot [of ?st1] by (simp add: hotReload_running)
    next
      case False
      then have "Reconcile opts e key st = start opts e wm cfg ?i (stop key ?st1)"
        using assms(1-3,5) free [of "stop key ?st1"] gen Some
        by (simp add: Reconcile_def Let_def startUnlessConflict_def)
      then show ?thesis using run [of "stop key ?st1"] by simp
    qed
  qed
qed

theorem good_resource_runs_witness:
  "map_of (running (fst (Reconcile strict_options three_resources (''slurm-jobs'', ''gpu'') (after_requests [''mixing''])))) =
     [(''slurm-jobs'', ''mixing'') \<mapsto> mixing_entry, (''slurm-jobs'', ''gpu'') \<mapsto> gpu_entry]"
proof -
  have "buildConfig strict_options three_resources (as_resource ''gpu'' 1 gpu_config) = Inr (gpu_config\<lparr>WorkloadMixingName := ''gpu''\<rparr>)"
    by (rule example_build) simp
  then show ?thesis
    using good_resource_runs [of "after_requests [''mixing'']" "(''slurm-jobs'', ''gpu'')" strict_options three_resources
        "as_resource ''gpu'' 1 gpu_config" "gpu_config\<lparr>WorkloadMixingName := ''gpu''\<rparr>"] example_mixing gpu_is_free
    by (simp add: strict_options_def three_resources_def calm_cr_def wm_key_def as_resource_def gpu_entry_def)
      (simp add: gpu_config_def example_config_def)
qed

text \<open>A recreated resource is not noticed. The generation of a resource starts again at 1 when it is
  deleted and created anew. If the work queue merges the two events, the reconcile finds the
  generation it already runs and keeps the old configuration, although another spec, with another
  identity, has been accepted.\<close>

lemma recreated_resource_is_ignored:
  assumes "map_of (running st) key = Some rb" "wm_generation wm = rb_generation rb"
    and "cr_get e (sv_log st) key = Inr wm" "buildConfig opts e wm = Inr cfg"
  shows "running (fst (Reconcile opts e key st)) = running st \<and> writers (fst (Reconcile opts e key st)) = writers st"
  using assms by (simp add: Reconcile_def Let_def)

end
