(* ===== verification/Bridge_Fleet.thy ===== *)
theory Bridge_Fleet imports
  Supervisor
begin

text \<open>
  The bridges of one supervisor together: what the ticks of two of them may do to one Slurm job. A
  tick drives a job when it creates a JobSet under the job's name, pins the job or releases it.
\<close>

section \<open>Driving a job\<close>

definition drives :: "u64 \<Rightarrow> entry \<Rightarrow> bool" where
  "drives i en \<longleftrightarrow>
     (case fst en of
        Release k \<Rightarrow> k = i | SetFeatures k f \<Rightarrow> k = i | CreateJobSet d \<Rightarrow> js_name d = JobSetName i | _ \<Rightarrow> False)"

lemma looking_drives: "looking_entry en \<Longrightarrow> \<not> drives i en"
  by (auto simp: looking_entry_def signal_entry_def is_listing_def drives_def split: call.splits)

lemma cleanup_drives: "cleanup_entry en \<Longrightarrow> \<not> drives i en"
  by (auto simp: cleanup_entry_def drives_def split: call.splits)

lemma admission_drives:
  assumes "admission_entry c snap held en" "drives i en"
  shows "\<exists>j \<in> set held. JobID j = i"
proof -
  have "js_name d = JobSetName (JobID j)" if "ToJobSet j c = Inr d" for j d
    using that by (auto elim: ToJobSet_InrE)
  then show ?thesis using assms
    by (auto simp: admission_entry_def drives_def list_ex_iff jobset_name.name_eq_iff split: call.splits)
qed

lemma held_jobs_sound:
  assumes "j \<in> set (held_jobs e st)"
  shows "j \<in> set (fst (ask_jobs e (trace st))) \<and> IsPending j \<and> IsHeld j
    \<and> PriorityClassFor (live_cfg e (trace st)) (Partition j) \<noteq> None"
proof -
  have one: "j \<in> set (snd (snd acc)) \<or> (j = k \<and> IsPending j \<and> IsHeld j \<and> PriorityClassFor c (Partition j) \<noteq> None)"
    if "j \<in> set (snd (snd (collectJob e c t k acc)))" for c t k acc
    using that by (auto simp: collectJob_def Let_def split: prod.splits if_splits)
  have "j \<in> set (snd (snd acc)) \<or> (j \<in> set js \<and> IsPending j \<and> IsHeld j \<and> PriorityClassFor c (Partition j) \<noteq> None)"
    if "j \<in> set (snd (snd (fold (collectJob e c t) js acc)))" for c t js acc
    using that
  proof (induction js arbitrary: acc)
    case (Cons k ks)
    from Cons.IH [of "collectJob e c t k acc"] Cons.prems show ?case using one [of c t k acc] by fastforce
  qed simp
  then show ?thesis using assms by (fastforce simp: held_jobs_def collection_def)
qed

lemma tick_drives:
  assumes "wf_schedule s" "logs en st (fst (tick e s st))" "drives i en"
  shows "\<exists>j \<in> set (held_jobs e st). JobID j = i"
proof -
  let ?c = "live_cfg e (trace st)"
  let ?P = "\<lambda>en. drives i en \<longrightarrow> (\<exists>j \<in> set (held_jobs e st). JobID j = i)"
  obtain st' r where t: "tick e s st = (st', r)" by fastforce
  have look: "adds ?P st st2" if "take_snapshot e ?c (collected e st) = (st2, q)" for st2 q
    by (rule adds_mono [OF looking_tick [OF that, THEN conjunct1]]) (use looking_drives in blast)
  have pass: "adds ?P st2 st3" if "admitHeldJobs e ?c (workers s (length (held_jobs e st))) (held_jobs e st) snap st2 = (st3, q)"
    for snap st2 st3 q
    using adds_mono [OF admitHeldJobs_adds [OF held_order [OF assms(1)], of ?c snap e st st2 e], of ?P] admission_drives that
    by fastforce
  have "adds ?P st st'"
    using t
  proof (cases rule: tick_cases)
    case (listing err)
    have "adds looking_entry st (collected e st)"
      by (rule collected_adds) (simp_all add: looking_entry_def is_listing_def)
    then show ?thesis unfolding listing(2) by (rule adds_mono) (use looking_drives in blast)
  next
    case (snapshot err)
    then show ?thesis by (intro look)
  next
    case (admission st2 snap err)
    show ?thesis by (rule adds_trans [OF look [OF admission(2)] pass [OF admission(3)]])
  next
    case (complete st2 snap st3 st4)
    have "adds ?P st3 (fst (st4, r))" unfolding complete(4) [symmetric]
      by (rule adds_mono [OF cleanupFinishedJobs_adds]) (use cleanup_drives in blast)
    then have "adds ?P st st4"
      using adds_trans [OF adds_trans [OF look [OF complete(2)] pass [OF complete(3)]]] by simp
    then show ?thesis by (simp add: complete(5) adds_def)
  qed
  from logs_adds [OF this] assms(2,3) show ?thesis by (simp add: t)
qed

section \<open>Properties\<close>

text \<open>C4: no job is driven twice. Take any moment of a supervisor's life and any two of the bridges it then
  runs against one Slurm endpoint, whatever their histories, schedules and answers. If each
  tick reads the partitions its bridge runs with, and their listings agree on the partitions of the
  jobs, then no job is given a JobSet, pinned or released by the next
  tick of the one and by the next tick of the other.\<close>

theorem no_job_is_driven_twice:
  assumes "sv_run opts sv"
    and "map_of (running sv) k1 = Some rb1" "map_of (running sv) k2 = Some rb2" "k1 \<noteq> k2"
    and "SlurmRestURL (rb_cfg rb1) = SlurmRestURL (rb_cfg rb2)"
    and "PartitionMappings (live_cfg e1 (trace b1)) = PartitionMappings (rb_cfg rb1)"
    and "PartitionMappings (live_cfg e2 (trace b2)) = PartitionMappings (rb_cfg rb2)"
    and "\<And>j1 j2. List.member (fst (ask_jobs e1 (trace b1))) j1 \<Longrightarrow> List.member (fst (ask_jobs e2 (trace b2))) j2 \<Longrightarrow>
          JobID j1 = JobID j2 \<Longrightarrow> Partition j1 = Partition j2"
    and "wf_schedule s1" "wf_schedule s2"
    and "logs en1 b1 (fst (tick e1 s1 b1))" "drives i en1"
    and "logs en2 b2 (fst (tick e2 s2 b2))"
  shows "\<not> drives i en2"
proof
  assume "drives i en2"
  then obtain j2 where j2: "j2 \<in> set (held_jobs e2 b2)" "JobID j2 = i" using tick_drives assms(10,13) by blast
  obtain j1 where j1: "j1 \<in> set (held_jobs e1 b1)" "JobID j1 = i" using tick_drives assms(9,11,12) by blast
  have "Partition j1 = Partition j2"
    using assms(8) [of j1 j2] held_jobs_sound [OF j1(1)] held_jobs_sound [OF j2(1)] j1(2) j2(2)
    by simp
  then have "PriorityClassFor (rb_cfg rb1) (Partition j1) \<noteq> None" "PriorityClassFor (rb_cfg rb2) (Partition j1) \<noteq> None"
    using held_jobs_sound [OF j1(1)] held_jobs_sound [OF j2(1)] assms(6,7) by (simp_all add: PriorityClassFor_def)
  then show False using disjoint_partitions [OF assms(1-5)] by simp
qed

theorem no_job_is_driven_twice_witness:
  "list_all (\<lambda>en. \<not> drives 42 en)
     (trace (fst (tick (busy_env\<lparr>live_cfg := (\<lambda>_. rb_cfg gpu_entry)\<rparr>) all_in_order New)))"
proof -
  have "\<not> drives 42 en" if "logs en New (fst (tick (busy_env\<lparr>live_cfg := (\<lambda>_. rb_cfg gpu_entry)\<rparr>) all_in_order New))" for en
    by (rule no_job_is_driven_twice [OF after_requests_run [of "[''mixing'', ''gpu'']"], where ?k1.0 = "(''slurm-jobs'', ''mixing'')"
          and ?rb1.0 = mixing_entry and ?rb2.0 = gpu_entry and ?k2.0 = "(''slurm-jobs'', ''gpu'')"
          and ?e1.0 = busy_env and ?b1.0 = New and ?b2.0 = New
          and ?en1.0 = "(Release (JobID example_job), None)", OF _ _ _ _ _ _ _ all_in_order(1) all_in_order(1) busy_release _ that])
      (simp_all add: example_both busy_config, simp_all add: mixing_entry_def gpu_entry_def entry_for_def gpu_config_def
        busy_env_def calm_env_def drives_def example_job_simps)
  then show ?thesis by (simp add: logs_def New_def list_all_iff)
qed

end
