(* ===== verification/Bridge_Steady.thy ===== *)
theory Bridge_Steady imports
  Bridge_Fleet
begin

text \<open>
  The steady state: what a tick does when the queue and the cluster already are as the bridge wants
  them. It looks, and writes nothing.
\<close>

section \<open>Settled objects\<close>

text \<open>A held job that waits: its JobSet is there, its Workload is not admitted, its comment says so.\<close>

definition settled_held :: "config \<Rightarrow> snapshot \<Rightarrow> job \<Rightarrow> bool" where
  "settled_held c snap j \<longleftrightarrow>
     (case ToJobSet j c of
        Inl err \<Rightarrow> False
      | Inr d \<Rightarrow>
     (case map_of (ownedJobSets snap) (js_name d) of
        None \<Rightarrow> False
      | Some ex \<Rightarrow> jobSetIdentityMatches ex d \<and> \<not> IsAdmitted (workloadsByJobSet snap (js_name d))
          \<and> Comment j = fst (admissionStatus (workloadsByJobSet snap (js_name d)))))"

text \<open>What is listed: a job that is not held and pending needs nothing; one of an unmanaged partition knows it.\<close>

definition settled_job :: "config \<Rightarrow> snapshot \<Rightarrow> job \<Rightarrow> bool" where
  "settled_job c snap j \<longleftrightarrow>
     (if \<not> IsPending j \<or> \<not> IsHeld j then True
      else if PriorityClassFor c (Partition j) = None then Comment j = unmanagedPartitionComment
      else settled_held c snap j)"

text \<open>Both sides hold the priority that was synchronised last; a held job's priority is not Slurm's to say.\<close>

definition settled_priority :: "jobset \<Rightarrow> job \<Rightarrow> workload option \<Rightarrow> bool" where
  "settled_priority js j wl \<longleftrightarrow>
     (case wl of
        None \<Rightarrow> True
      | Some w \<Rightarrow>
     (case wl_priority w of
        None \<Rightarrow> True
      | Some p \<Rightarrow> map_of (js_annotations js) syncedPriorityAnnotation = Some (dec_i64 p)
          \<and> (dec_i64 (slurmPriority j) = dec_i64 p \<or> IsHeld j)))"

definition settled_jobset :: "config \<Rightarrow> snapshot \<Rightarrow> (u64 \<rightharpoonup> job) \<Rightarrow> jobset \<Rightarrow> bool" where
  "settled_jobset c snap byID js \<longleftrightarrow>
     (case ParseUint (label_of js SlurmJobIDLabel) 64 of
        None \<Rightarrow> True
      | Some n \<Rightarrow>
     (case byID (of_nat n) of
        None \<Rightarrow> False
      | Some j \<Rightarrow>
          let wl = workloadsByJobSet snap (js_name js) in
          \<not> IsTerminal j \<and> \<not> jobSetFailed js \<and> \<not> jobSetCompleted js
          \<and> \<not> drain_allowed c snap j js
          \<and> \<not> HasPrefix (AdminComment j) directivePrefix
          \<and> (if EnablePrioritySync c then settled_priority js j wl else True)))"

definition settled :: "config \<Rightarrow> snapshot \<Rightarrow> job list \<Rightarrow> bool" where
  "settled c snap jobs \<longleftrightarrow>
     list_all (settled_job c snap) jobs
     \<and> list_all (settled_jobset c snap (map_of (by_id jobs))) (map snd (ownedJobSets snap))
     \<and> (if CancelOrphanedJobs c then list_all (\<lambda>j. in_scope c j \<longrightarrow> has_jobset snap j) jobs else True)"

section \<open>Each step is silent\<close>

lemma collect_silent:
  assumes "list_all (\<lambda>j. if IsPending j \<and> IsHeld j \<and> PriorityClassFor c (Partition j) = None
      then Comment j = unmanagedPartitionComment else True) jobs"
  shows "trace (fst (fold (collectJob e c t) jobs acc)) = trace (fst acc)
    \<and> counters (fst (fold (collectJob e c t) jobs acc)) = counters (fst acc)"
  using assms
proof (induction jobs arbitrary: acc)
  case (Cons j jobs)
  then have "trace (fst (collectJob e c t j acc)) = trace (fst acc)
      \<and> counters (fst (collectJob e c t j acc)) = counters (fst acc)"
    by (auto simp: collectJob_def Let_def signalUnmanagedPartition_def split: prod.split)
  then show ?case using Cons by simp
qed simp

lemma prepareJob_silent:
  assumes "settled_held c snap j"
  shows "\<exists>d. prepareJob e c snap j st = (st, Prepared j d None) \<and> (\<forall>e st. admitOne e snap j d st = st)"
proof -
  from assms obtain d ex where "ToJobSet j c = Inr d" "map_of (ownedJobSets snap) (js_name d) = Some ex"
    "jobSetIdentityMatches ex d" "\<not> IsAdmitted (workloadsByJobSet snap (js_name d))"
    "Comment j = fst (admissionStatus (workloadsByJobSet snap (js_name d)))"
    by (auto simp: settled_held_def split: sum.splits option.splits)
  then show ?thesis
    by (auto simp: prepareJob_def admitOne_def Let_def propagateStatus_def split: prod.split)
qed

definition silent_slot :: "snapshot \<Rightarrow> prepared \<Rightarrow> bool" where
  "silent_slot snap p \<longleftrightarrow> (case p of Skipped \<Rightarrow> True | Prepared j d err \<Rightarrow> err = None \<and> (\<forall>e st. admitOne e snap j d st = st))"

lemma phase1_silent:
  assumes "list_all (settled_held c snap) held" "list_all (\<lambda>i. i < length held) order" "list_all (silent_slot snap) res"
  shows "\<exists>res'. phase1 e c snap held order st res = (st, res') \<and> list_all (silent_slot snap) res'"
  using assms(2,3)
proof (induction order arbitrary: res)
  case (Cons i order)
  then have "i < length held" by simp
  then have "settled_held c snap (held ! i)" using assms(1) by (simp add: list_all_iff)
  from prepareJob_silent [OF this] obtain d where
    d: "prepareJob e c snap (held ! i) st = (st, Prepared (held ! i) d None)" "\<forall>e st. admitOne e snap (held ! i) d st = st" by blast
  then have "list_all (silent_slot snap) (res[i := Prepared (held ! i) d None])"
    using Cons.prems(2) set_update_subset_insert [of res i "Prepared (held ! i) d None"]
    by (auto simp: list_all_iff silent_slot_def)
  with Cons d(1) show ?case by simp
qed simp

lemma phase2_silent: "list_all (silent_slot snap) ps \<Longrightarrow> phase2 e snap ps st errs = (st, errs)"
  by (induction e snap ps st errs rule: phase2.induct) (auto simp: silent_slot_def)

lemma admitHeldJobs_silent:
  assumes "list_all (settled_held c snap) held" "list_all (\<lambda>i. i < length held) order"
  shows "admitHeldJobs e c order held snap st = (st, None)"
proof -
  let ?h = "sort_key JobID held"
  have "list_all (settled_held c snap) ?h" "list_all (\<lambda>i. i < length ?h) order"
    using assms by (simp_all add: list_all_iff)
  moreover have "list_all (silent_slot snap) (replicate (length ?h) Skipped)"
    by (simp add: list_all_iff silent_slot_def)
  ultimately obtain res where "phase1 e c snap ?h order st (replicate (length ?h) Skipped) = (st, res)"
    "list_all (silent_slot snap) res" using phase1_silent by blast
  then show ?thesis by (simp add: admitHeldJobs_def Let_def phase2_silent)
qed

lemma syncPriority_silent:
  assumes "settled_priority js j wl"
  shows "syncPriority e js j wl st = (st, js)"
proof (cases wl)
  case (Some w)
  then show ?thesis using assms
    by (cases "wl_priority w") (auto simp: settled_priority_def syncPriority_def)
qed (simp add: syncPriority_def)

lemma no_directive_silent:
  "\<not> HasPrefix (AdminComment j) directivePrefix \<Longrightarrow> applyPriorityDirective e j wl st = st"
  by (simp add: applyPriorityDirective_def split: option.split)

lemma maintainLive_silent:
  assumes "\<not> drain_allowed c snap j js" "\<not> HasPrefix (AdminComment j) directivePrefix"
    "if EnablePrioritySync c then settled_priority js j (workloadsByJobSet snap (js_name js)) else True"
  shows "maintainLive e c snap j js st = st"
  using assms by (auto simp: maintainLive_def Let_def no_directive_silent syncPriority_silent drain_allowed_def)

lemma cleanupOne_silent:
  assumes "settled_jobset c snap byID js"
  shows "cleanupOne e c snap byID js st = (st, None)"
proof (cases "ParseUint (label_of js SlurmJobIDLabel) 64")
  case (Some n)
  with assms obtain j where j: "byID (of_nat n) = Some j" "\<not> IsTerminal j" "\<not> jobSetFailed js" "\<not> jobSetCompleted js"
    and m: "maintainLive e c snap j js st = st"
    by (auto simp: settled_jobset_def Let_def intro!: maintainLive_silent split: option.splits)
  show ?thesis by (simp only: cleanupOne_def cleanupKnown_def Some j m option.case prod.case if_False simp_thms)
qed (simp add: cleanupOne_def)

lemma cleanup_loop_silent: "list_all (settled_jobset c snap byID) jss \<Longrightarrow> cleanup_loop e c snap byID jss st errs = (st, errs)"
  by (induction jss) (simp_all add: cleanupOne_silent)

lemma orphans_silent:
  assumes "if CancelOrphanedJobs c then list_all (\<lambda>j. in_scope c j \<longrightarrow> has_jobset snap j) jobs else True"
  shows "trace (cancelOrphanedJobs e c snap byID jobs st) = trace st \<and> counters (cancelOrphanedJobs e c snap byID jobs st) = counters st"
proof (cases "CancelOrphanedJobs c")
  case True
  then have "candidates c snap jobs = []" using assms by (auto simp: candidates_def list_all_iff filter_empty_conv)
  then show ?thesis by (simp add: cancelOrphanedJobs_eq pass_allowed_def scanned_def pruneOrphans_def)
qed (simp add: cancelOrphanedJobs_eq pruneOrphans_def)

section \<open>A settled tick\<close>

lemma settled_collection:
  assumes "list_all (settled_job (live_cfg e (trace st)) snap) (fst (ask_jobs e (trace st)))"
  shows "trace (collected e st) = (ListJobs, snd (ask_jobs e (trace st))) # trace st"
    and "counters (collected e st) = counters st"
    and "list_all (settled_held (live_cfg e (trace st)) snap) (held_jobs e st)"
proof -
  let ?c = "live_cfg e (trace st)"
  have "list_all (\<lambda>j. if IsPending j \<and> IsHeld j \<and> PriorityClassFor ?c (Partition j) = None
      then Comment j = unmanagedPartitionComment else True) (fst (ask_jobs e (trace st)))"
    using assms by (auto simp: list_all_iff settled_job_def)
  from collect_silent [OF this, of e "clock e (trace st)" "(record_call ListJobs (snd (ask_jobs e (trace st))) st, [], [])"]
  show "trace (collected e st) = (ListJobs, snd (ask_jobs e (trace st))) # trace st"
    and "counters (collected e st) = counters st"
    by (simp_all add: collected_def collection_def)
  show "list_all (settled_held ?c snap) (held_jobs e st)"
    using assms held_jobs_sound [of _ e st] by (fastforce simp: list_all_iff settled_job_def)
qed

text \<open>A map built by inserting the elements of a list holds only these.\<close>

lemma set_updates: "set (map snd (fold (\<lambda>x m. AList.update (f x) x m) xs m)) \<subseteq> set xs \<union> set (map snd m)"
proof (induction xs arbitrary: m)
  case (Cons x xs)
  have "set (map snd (AList.update k x m)) \<subseteq> insert x (set (map snd m))" for k
    by (induction m) auto
  from subset_trans [OF Cons.IH Un_mono [OF subset_refl this]] show ?case by simp
qed simp

lemma set_by_id: "set (map snd (by_id jobs)) \<subseteq> set jobs"
  unfolding by_id_def using set_updates [of JobID jobs "[]"] by simp

lemma settled_cleanup:
  assumes "list_all (settled_jobset c snap byID) jss" "mset jss' = mset jss"
    "if CancelOrphanedJobs c then list_all (\<lambda>j. in_scope c j \<longrightarrow> has_jobset snap j) jobs else True"
    "set jobs' \<subseteq> set jobs"
    "cleanupFinishedJobs e c snap byID jss' jobs' st = (st', r)"
  shows "trace st' = trace st \<and> counters st' = counters st \<and> r = None"
proof -
  have "list_all (settled_jobset c snap byID) jss'"
    using assms(1) mset_eq_setD [OF assms(2)] by (simp add: list_all_iff)
  moreover have "if CancelOrphanedJobs c then list_all (\<lambda>j. in_scope c j \<longrightarrow> has_jobset snap j) jobs' else True"
    using assms(3,4) by (auto simp: list_all_iff)
  ultimately show ?thesis
    using assms(5) orphans_silent [of c snap jobs' e byID st]
    by (auto simp: cleanupFinishedJobs_def cleanup_loop_silent)
qed

text \<open>C13: a settled queue is left alone. When every listed held job has its own JobSet, is not admitted
  and carries the comment that says so, every owned JobSet belongs to a live job whose priority is
  already synchronised, and no job has lost its JobSet, a tick that can list adds its three listings to
  the log and nothing else, counts nothing, and reports no error, in whatever order the workers and the
  map iterations run.\<close>

theorem settled_queue_is_left_alone:
  assumes "wf_schedule s" "ask_jobs e (trace st) = (jobs, None)"
    and "take_snapshot e (live_cfg e (trace st)) (collected e st) = (st2, Inr snap)"
    and "settled (live_cfg e (trace st)) snap jobs"
  shows "snd (tick e s st) = None
    \<and> trace (fst (tick e s st)) = [(ListWorkloads, None), (ListJobSets, None), (ListJobs, None)] @ trace st
    \<and> counters (fst (tick e s st)) = counters st"
proof -
  let ?c = "live_cfg e (trace st)"
  note coll = settled_collection [of e st snap]
  have s: "list_all (settled_job ?c snap) (fst (ask_jobs e (trace st)))"
    using assms(2,4) by (simp add: settled_def)
  have look: "trace st2 = [(ListWorkloads, None), (ListJobSets, None), (ListJobs, None)] @ trace st
      \<and> counters st2 = counters st"
    using assms(2,3) coll(1,2) [OF s] by (auto simp: take_snapshot_def Let_def split: sum.splits)
  have quiet: "admitHeldJobs e ?c (workers s (length (held_jobs e st))) (held_jobs e st) snap st2 = (st2, None)"
    by (rule admitHeldJobs_silent [OF coll(3) [OF s] held_order [OF assms(1)]])
  obtain st' r where t: "tick e s st = (st', r)" by fastforce
  then show ?thesis
  proof (cases rule: tick_cases)
    case (complete st2' snap' st3 st4)
    have "set (job_order s (map snd (listed e st))) = set (map snd (listed e st))"
      using assms(1) mset_eq_setD unfolding wf_schedule_def by blast
    then have jobs: "set (job_order s (map snd (listed e st))) \<subseteq> set jobs"
      using set_by_id [of jobs] by (simp add: listed_def assms(2))
    have order: "mset (js_order s (map snd (ownedJobSets snap))) = mset (map snd (ownedJobSets snap))"
      using assms(1) unfolding wf_schedule_def by blast
    have same: "st2' = st2" "snap' = snap" using complete(2) assms(3) by simp_all
    then have "st3 = st2" using complete(3) quiet by simp
    then have clean: "cleanupFinishedJobs e ?c snap (map_of (listed e st)) (js_order s (map snd (ownedJobSets snap)))
        (job_order s (map snd (listed e st))) st2 = (st4, r)"
      using complete(4) same by simp
    have idx: "listed e st = by_id jobs" by (simp add: listed_def assms(2))
    have sets: "list_all (settled_jobset ?c snap (map_of (listed e st))) (map snd (ownedJobSets snap))"
      and orph: "if CancelOrphanedJobs ?c then list_all (\<lambda>j. in_scope ?c j \<longrightarrow> has_jobset snap j) jobs else True"
      using assms(4) unfolding settled_def idx by blast+
    have "trace st4 = trace st2 \<and> counters st4 = counters st2 \<and> r = None"
      by (rule settled_cleanup [OF sets order orph jobs clean])
    then show ?thesis using look by (simp add: t complete(5) pruneSeenAt_def pruneCommentState_def)
  qed (use assms(2,3) quiet in auto)
qed

definition waiting_job :: job where
  "waiting_job = example_job\<lparr>Comment := ''wm: creating capacity request''\<rparr>"

text \<open>The job waits, its JobSet is there, Kueue has not made the Workload yet.\<close>

definition waiting_env :: env where
  "waiting_env = calm_env\<lparr>ask_jobs := (\<lambda>_. ([waiting_job], None)), ask_jobsets := (\<lambda>_. Inr [example_jobset])\<rparr>"

lemma waiting_jobset:
  obtains d where "ToJobSet waiting_job example_config = Inr d" "js_name d = ''slurm-job-42''"
    "js_annotations d = js_annotations example_jobset"
proof -
  obtain d where d: "ToJobSet waiting_job example_config = Inr d"
    by (simp add: ToJobSet_def PriorityClassFor_def example_config_def example_job_simps waiting_job_def)
  have "js_name d = js_name example_jobset \<and> js_annotations d = js_annotations example_jobset"
    by (rule ToJobSet_InrE [OF d]; rule ToJobSet_InrE [OF example_jobset])
      (simp add: waiting_job_def submitTimeAnnotation_def)
  then show thesis using that d by (simp add: example_name)
qed

theorem settled_queue_is_left_alone_witness:
  "trace (fst (tick waiting_env all_in_order New))
     = [(ListWorkloads, None), (ListJobSets, None), (ListJobs, None)] @ trace New"
proof -
  let ?snap = "\<lparr>ownedJobSets = [(''slurm-job-42'', example_jobset)], workloadsByJobSet = Map.empty\<rparr>"
  obtain d where d: "ToJobSet waiting_job example_config = Inr d" "js_name d = ''slurm-job-42''"
    "js_annotations d = js_annotations example_jobset" by (rule waiting_jobset)
  have label: "ParseUint (label_of example_jobset SlurmJobIDLabel) 64 = Some 42" "js_conditions example_jobset = []"
    by (rule ToJobSet_InrE [OF example_jobset];
        simp add: label_of_def map_of_jobSetLabels example_job_simps;
        simp add: label_names ParseUint_dec_u64 [of 42, simplified] dec_u64_def)+
  have job: "IsPending waiting_job" "IsHeld waiting_job" "\<not> IsTerminal waiting_job" "AdminComment waiting_job = []"
    "JobID waiting_job = 42" "Comment waiting_job = ''wm: creating capacity request''"
    by (simp_all add: waiting_job_def IsPending_def IsHeld_def HasPrefix_def IsTerminal_def terminal_states_def example_job_simps)
  have part: "PriorityClassFor example_config (Partition waiting_job) \<noteq> None"
    using example_held(3) by (simp add: waiting_job_def)
  have held: "settled_held example_config ?snap waiting_job"
    by (simp add: settled_held_def d jobSetIdentityMatches_def annotation_of_def IsAdmitted_def admissionStatus_def job
        split: option.split)
  have live: "settled_jobset example_config ?snap [42 \<mapsto> waiting_job] example_jobset"
    by (simp add: settled_jobset_def label job Let_def jobSetFailed_def jobSetCompleted_def condition_true_def
        drain_allowed_def HasPrefix_def directivePrefix_def settled_priority_def)
  have near: "has_jobset ?snap waiting_job"
    using d ToJobSet_InrE [OF d(1)] by (simp add: has_jobset_def) metis
  have "settled (live_cfg waiting_env (trace New)) ?snap [waiting_job]"
    using held live part near by (auto simp: settled_def settled_job_def by_id_def job waiting_env_def calm_env_def)
  moreover have "take_snapshot waiting_env (live_cfg waiting_env (trace New)) (collected waiting_env New)
      = (record_call ListWorkloads None (record_call ListJobSets None (collected waiting_env New)), Inr ?snap)"
    by (simp add: take_snapshot_def waiting_env_def calm_env_def Let_def example_selected index_jobsets_def
        index_workloads_def example_name)
  moreover have "ask_jobs waiting_env (trace New) = ([waiting_job], None)" by (simp add: waiting_env_def)
  ultimately show ?thesis
    using settled_queue_is_left_alone [OF all_in_order(1), of waiting_env New] by blast
qed

end
