(* ===== verification/Bridge_Service.thy ===== *)
theory Bridge_Service imports
  Bridge_Steady
begin

text \<open>
  Service: from a held job in the queue to its release. What Kubernetes, Kueue and Slurm do is one
  named hypothesis over all histories of calls (\<open>serving\<close>), and the bridge may tick in any order of
  its workers and map iterations.
\<close>

section \<open>A cluster that serves a job\<close>








section \<open>What keeps a JobSet\<close>












section \<open>Creating\<close>








section \<open>The indices of the JobSets and of the jobs\<close>







section \<open>What a serving cluster shows\<close>










section \<open>A run of ticks\<close>











end
