(* ===== verification/Bridge_Protocol.thy ===== *)
theory Bridge_Protocol imports
  Bridge_Tick
begin

text \<open>
  The bridge as an abstract machine: the stages of a tick and the calls each of them may make, with no
  configuration, no objects and no schedule. The ticks of the model are shown to run on this machine,
  and what holds of every run of the machine holds of the bridge.
\<close>

section \<open>The machine\<close>

text \<open>
  \<open>Signalling\<close> keeps whether the queue was listed in full; \<open>Blind\<close> is a listing that failed; the flag
  of the admission stages is whether a creation was refused; \<open>Pinned\<close> knows the job that was just
  pinned.
\<close>

datatype stage = Resting | Signalling bool | Indexing | Blind | Creating bool | Admitting bool | Pinned u64 bool | Cleaning

definition admission_flag :: "stage \<Rightarrow> bool option" where
  "admission_flag g = (case g of Creating f \<Rightarrow> Some f | Admitting f \<Rightarrow> Some f | Pinned i f \<Rightarrow> Some f | _ \<Rightarrow> None)"

definition may_clean :: "stage \<Rightarrow> bool" where
  "may_clean g \<longleftrightarrow> g = Cleaning \<or> admission_flag g = Some False"

text \<open>The next stage; \<open>None\<close> is a call that the stage does not allow. Every tick begins with the listing.\<close>

definition protocol :: "stage \<Rightarrow> entry \<Rightarrow> stage option" where
  "protocol g en =
     (case fst en of
        ListJobs \<Rightarrow> Some (Signalling (snd en = None))
      | ListJobSets \<Rightarrow> if g = Signalling True then Some (if snd en = None then Indexing else Blind) else None
      | ListWorkloads \<Rightarrow> if g = Indexing then Some (if snd en = None then Creating False else Blind) else None
      | CreateJobSet d \<Rightarrow> (case g of Creating f \<Rightarrow> Some (Creating (f \<or> create_failed en)) | _ \<Rightarrow> None)
      | SetFeatures i ft \<Rightarrow>
          (case admission_flag g of
             Some f \<Rightarrow> if ft = NodeFeature i then Some (if snd en = None then Pinned i f else Admitting f) else None
           | None \<Rightarrow> None)
      | Release i \<Rightarrow> (case g of Pinned k f \<Rightarrow> if k = i then Some (Admitting f) else None | _ \<Rightarrow> None)
      | SetComment i s \<Rightarrow>
          (case g of Signalling ok \<Rightarrow> if s = unmanagedPartitionComment then Some g else None
           | Cleaning \<Rightarrow> Some Cleaning | _ \<Rightarrow> map_option Admitting (admission_flag g))
      | Emit n ty rs \<Rightarrow>
          (case g of Creating f \<Rightarrow> Some g | Cleaning \<Rightarrow> Some Cleaning | _ \<Rightarrow> map_option Admitting (admission_flag g))
      | GetJobSet n \<Rightarrow> (case g of Creating f \<Rightarrow> Some g | _ \<Rightarrow> if may_clean g then Some Cleaning else None)
      | _ \<Rightarrow> if may_clean g then Some Cleaning else None)"

fun stage_of :: "history \<Rightarrow> stage option" where
  "stage_of [] = Some Resting"
| "stage_of (en # h) = (case stage_of h of None \<Rightarrow> None | Some g \<Rightarrow> protocol g en)"

section \<open>What holds of the machine\<close>

lemma protocol_release:
  "protocol g (Release i, r) = Some g' \<Longrightarrow> \<exists>f. g = Pinned i f"
  by (auto simp: protocol_def split: stage.splits if_splits)

lemma protocol_pinned:
  "protocol g en = Some (Pinned i f) \<Longrightarrow> en = (SetFeatures i (NodeFeature i), None)"
  by (cases en; cases "fst en") (auto simp: protocol_def admission_flag_def split: stage.splits option.splits if_splits)

text \<open>Release only what was pinned by the call before.\<close>

lemma machine_pins: "stage_of h = Some g \<Longrightarrow> pinned_releases h"
proof (induction h arbitrary: g)
  case (Cons en h)
  then obtain g0 where g0: "stage_of h = Some g0" "protocol g0 en = Some g" by (auto split: option.splits)
  obtain c r where en: "en = (c, r)" by (cases en)
  show ?case
  proof (cases "\<exists>i. c = Release i")
    case True
    then obtain i f where i: "c = Release i" "g0 = Pinned i f" using protocol_release g0(2) en by blast
    then obtain en' h' where h: "h = en' # h'" using g0(1) by (cases h) auto
    then have "\<exists>g1. protocol g1 en' = Some (Pinned i f)" using g0(1) i(2) by (auto split: option.splits)
    then have "en' = (SetFeatures i (NodeFeature i), None)" using protocol_pinned by blast
    then show ?thesis using Cons.IH [OF g0(1)] by (simp add: en i(1) h)
  next
    case False
    then show ?thesis using Cons.IH [OF g0(1)] by (simp add: en split: call.split)
  qed
qed simp

text \<open>A destructive call needs a clean stage, and a clean stage has three successful listings behind it
  in its tick and no refused creation.\<close>

definition destructive :: "call \<Rightarrow> bool" where
  "destructive c \<longleftrightarrow> (case c of DeleteJobSet n \<Rightarrow> True | CancelSlurm i \<Rightarrow> True | DeleteSlurmNode n \<Rightarrow> True | _ \<Rightarrow> False)"

definition untroubled :: "stage \<Rightarrow> bool" where
  "untroubled g \<longleftrightarrow> g = Signalling True \<or> g = Indexing \<or> may_clean g"

definition listed_by :: "stage \<Rightarrow> entry list" where
  "listed_by g = (case g of Signalling b \<Rightarrow> [] | Indexing \<Rightarrow> [(ListJobSets, None)]
     | _ \<Rightarrow> [(ListJobSets, None), (ListWorkloads, None)])"

definition clean_since_listing :: "entry list \<Rightarrow> history \<Rightarrow> bool" where
  "clean_since_listing ls h \<longleftrightarrow>
     (\<exists>recent before. h = recent @ (ListJobs, None) # before \<and> set ls \<subseteq> set recent
        \<and> list_all (\<lambda>en. fst en \<noteq> ListJobs \<and> \<not> create_failed en) recent)"

lemma clean_more:
  assumes "clean_since_listing ls h" "set ls' \<subseteq> insert en (set ls)" "fst en \<noteq> ListJobs" "\<not> create_failed en"
  shows "clean_since_listing ls' (en # h)"
proof -
  obtain recent before where "h = recent @ (ListJobs, None) # before" "set ls \<subseteq> set recent"
      "list_all (\<lambda>en. fst en \<noteq> ListJobs \<and> \<not> create_failed en) recent"
    using assms(1) by (auto simp: clean_since_listing_def)
  then have "en # h = (en # recent) @ (ListJobs, None) # before \<and> set ls' \<subseteq> set (en # recent)
      \<and> list_all (\<lambda>en. fst en \<noteq> ListJobs \<and> \<not> create_failed en) (en # recent)"
    using assms(2-4) by auto
  then show ?thesis unfolding clean_since_listing_def by blast
qed

lemma untroubled_step:
  assumes "protocol g en = Some g'" "untroubled g'" "fst en \<noteq> ListJobs"
  shows "untroubled g" "\<not> create_failed en" "set (listed_by g') \<subseteq> insert en (set (listed_by g))"
  using assms
  by (cases en; cases "fst en"; cases g;
      simp add: protocol_def untroubled_def may_clean_def admission_flag_def create_failed_def listed_by_def
        split: if_splits option.splits;
      force simp: create_failed_def listed_by_def split: option.splits)+

lemma machine_clean: "stage_of h = Some g \<Longrightarrow> untroubled g \<Longrightarrow> clean_since_listing (listed_by g) h"
proof (induction h arbitrary: g)
  case (Cons en h)
  then obtain g0 where g0: "stage_of h = Some g0" "protocol g0 en = Some g" by (auto split: option.splits)
  show ?case
  proof (cases "fst en = ListJobs")
    case True
    then have "g = Signalling True" "snd en = None" using g0(2) Cons.prems(2)
      by (auto simp: protocol_def untroubled_def may_clean_def admission_flag_def)
    then show ?thesis using True
      by (cases en) (auto simp: clean_since_listing_def listed_by_def intro: exI [of _ "[]"])
  next
    case False
    note s = untroubled_step [OF g0(2) Cons.prems(2) False]
    show ?thesis by (rule clean_more [OF Cons.IH [OF g0(1) s(1)] s(3) False s(2)])
  qed
qed (simp add: untroubled_def may_clean_def admission_flag_def)

lemma destructive_stage: "protocol g (c, r) = Some g' \<Longrightarrow> destructive c \<Longrightarrow> may_clean g"
  by (auto simp: destructive_def protocol_def split: call.splits if_splits)

lemma may_clean_listed: "may_clean g \<Longrightarrow> listed_by g = [(ListJobSets, None), (ListWorkloads, None)]"
  by (auto simp: may_clean_def admission_flag_def listed_by_def split: stage.splits)

lemma machine_destroys_clean:
  assumes "stage_of ((c, r) # h) = Some g" "destructive c"
  shows "clean_since_listing [(ListJobSets, None), (ListWorkloads, None)] h"
proof -
  obtain g0 where g0: "stage_of h = Some g0" "protocol g0 (c, r) = Some g" using assms(1) by (auto split: option.splits)
  have "may_clean g0" by (rule destructive_stage [OF g0(2) assms(2)])
  then show ?thesis using machine_clean [OF g0(1)] by (simp add: untroubled_def may_clean_listed)
qed

lemma stage_of_suffix: "stage_of (later @ h) \<noteq> None \<Longrightarrow> stage_of h \<noteq> None"
  by (induction later) (auto split: option.splits)

section \<open>The ticks run on the machine\<close>

text \<open>A stage invariant that a kind of entries keeps is kept by every step that adds only these.\<close>

lemma stages_kept:
  assumes "adds P st st'" "stage_of (trace st) = Some g" "G g"
    and "\<And>g en. P en \<Longrightarrow> G g \<Longrightarrow> \<exists>g'. protocol g en = Some g' \<and> G g'"
  shows "\<exists>g'. stage_of (trace st') = Some g' \<and> G g'"
proof (rule adds_preserves [OF assms(1), where I = "\<lambda>h. \<exists>g'. stage_of h = Some g' \<and> G g'"])
  show "\<exists>g'. stage_of (trace st) = Some g' \<and> G g'" using assms(2,3) by blast
next
  fix x h assume "P x" "\<exists>g'. stage_of h = Some g' \<and> G g'"
  with assms(4) show "\<exists>g'. stage_of (x # h) = Some g' \<and> G g'" by fastforce
qed

lemma signal_step: "signal_entry en \<Longrightarrow> g = Signalling ok \<Longrightarrow> \<exists>g'. protocol g en = Some g' \<and> g' = Signalling ok"
  by (auto simp: signal_entry_def protocol_def split: call.splits)

lemma collected_stage:
  assumes "stage_of (trace st) \<noteq> None"
  shows "stage_of (trace (collected e st)) = Some (Signalling (snd (ask_jobs e (trace st)) = None))"
proof -
  let ?s0 = "record_call ListJobs (snd (ask_jobs e (trace st))) st"
  have "stage_of (trace ?s0) = Some (Signalling (snd (ask_jobs e (trace st)) = None))"
    using assms by (auto simp: protocol_def)
  moreover have "adds signal_entry ?s0 (collected e st)"
    unfolding collected_def collection_def by (rule collect_adds) (simp_all add: adds_then)
  ultimately show ?thesis
    using stages_kept [where G = "\<lambda>g. g = Signalling (snd (ask_jobs e (trace st)) = None)", OF _ _ refl signal_step] by blast
qed

lemma take_snapshot_stage:
  assumes "stage_of (trace st) = Some (Signalling True)" "take_snapshot e c st = (st', q)"
  shows "stage_of (trace st') = Some (case q of Inl err \<Rightarrow> Blind | Inr snap \<Rightarrow> Creating False)"
  using assms by (auto simp: take_snapshot_def Let_def protocol_def split: sum.splits)

definition creating :: "stage \<Rightarrow> bool" where
  "creating g \<longleftrightarrow> (\<exists>f. g = Creating f)"

lemma creating_stage [simp]: "creating (Creating f)"
  by (simp add: creating_def)

lemma prepare_step:
  "list_ex (\<lambda>j. prepare_entry c j en) held \<Longrightarrow> creating g \<Longrightarrow> \<exists>g'. protocol g en = Some g' \<and> creating g'"
  by (auto simp: list_ex_iff prepare_entry_def creating_def protocol_def split: call.splits)

definition admitting :: "stage \<Rightarrow> bool" where
  "admitting g \<longleftrightarrow> admission_flag g \<noteq> None"

lemma comment_step:
  "only_comment i en \<Longrightarrow> admitting g \<Longrightarrow> \<exists>g'. protocol g en = Some g' \<and> admitting g'"
  by (cases g) (auto simp: only_comment_def admitting_def protocol_def admission_flag_def split: call.splits)

lemma emit_step: "admitting g \<Longrightarrow> \<exists>g'. protocol g (Emit n ty rs, r) = Some g' \<and> admitting g'"
  by (cases g) (auto simp: admitting_def protocol_def admission_flag_def)

lemma release_steps:
  assumes "admitting g"
  shows "\<exists>g'. protocol g (SetFeatures i (NodeFeature i), Some err) = Some g' \<and> admitting g'"
    "\<exists>f. protocol g (SetFeatures i (NodeFeature i), None) = Some (Pinned i f)"
    "protocol (Pinned i f) (Release i, r) = Some (Admitting f)"
  using assms by (cases g; auto simp: admitting_def protocol_def admission_flag_def)+

lemma releaseAdmitted_stage:
  assumes "stage_of (trace st) = Some g" "admitting g"
  shows "\<exists>g'. stage_of (trace (releaseAdmitted e j d st)) = Some g' \<and> admitting g'"
proof (cases "ask e (trace st) (SetFeatures (JobID j) (NodeFeature (JobID j)))")
  case (Some err)
  then show ?thesis using release_steps(1) [OF assms(2)] assms(1)
    by (auto simp: releaseAdmitted_def perform_def Let_def)
next
  case None
  obtain f where f: "protocol g (SetFeatures (JobID j) (NodeFeature (JobID j)), None) = Some (Pinned (JobID j) f)"
    using release_steps(2) [OF assms(2)] by blast
  have "admitting (Admitting f)" by (simp add: admitting_def admission_flag_def)
  then show ?thesis using assms(1) f emit_step [of "Admitting f"]
    by (auto simp: releaseAdmitted_def perform_def Let_def None eventf_def release_steps(3) [OF assms(2)] split: option.split)
qed

lemma admitOne_stage:
  assumes "stage_of (trace st) = Some g" "admitting g"
  shows "\<exists>g'. stage_of (trace (admitOne e snap j d st)) = Some g' \<and> admitting g'"
proof -
  let ?st1 = "propagateStatus e j (workloadsByJobSet snap (js_name d)) st"
  have "\<exists>g1. stage_of (trace ?st1) = Some g1 \<and> admitting g1"
    using assms comment_step by (intro stages_kept [where G = admitting, OF propagateStatus_adds])
  then obtain g1 where "stage_of (trace ?st1) = Some g1" "admitting g1" by blast
  then show ?thesis using releaseAdmitted_stage [of ?st1 g1 e j d] by (auto simp: admitOne_def Let_def)
qed

lemma admitHeldJobs_stage:
  assumes "admitHeldJobs e c order held snap st = (st', r)" "list_all (\<lambda>i. i < length held) order"
    and "stage_of (trace st) = Some (Creating False)"
  shows "\<exists>g. stage_of (trace st') = Some g \<and> admitting g"
proof -
  let ?h = "sort_key JobID held"
  obtain st1 res where p1: "phase1 e c snap ?h order st (replicate (length held) Skipped) = (st1, res)"
    by (rule prod.exhaust)
  have "adds (\<lambda>en. list_ex (\<lambda>j. prepare_entry c j en) ?h) st (fst (st1, res))"
    unfolding p1 [symmetric] by (rule phase1_adds) (use assms(2) in simp)
  then have "adds (\<lambda>en. list_ex (\<lambda>j. prepare_entry c j en) ?h) st st1" by simp
  then have "\<exists>g1. stage_of (trace st1) = Some g1 \<and> creating g1"
    by (rule stages_kept [where G = creating, OF _ assms(3) _ prepare_step]) simp_all
  then have "\<exists>g. stage_of (trace st1) = Some g \<and> admitting g"
    by (auto simp: creating_def admitting_def admission_flag_def)
  then have "\<exists>g. stage_of (trace (fst (phase2 e snap res st1 []))) = Some g \<and> admitting g"
  proof (induction rule: phase2_induct_step)
    case (admit j d s)
    then show ?case using admitOne_stage by blast
  qed simp
  moreover have "st' = fst (phase2 e snap res st1 [])"
    using assms(1) by (cases "phase2 e snap res st1 []") (simp add: admitHeldJobs_def Let_def p1)
  ultimately show ?thesis by simp
qed

text \<open>The cleanup pass never leaves the clean stages.\<close>

lemma cleanup_step: "cleanup_entry en \<Longrightarrow> may_clean g \<Longrightarrow> \<exists>g'. protocol g en = Some g' \<and> may_clean g'"
  by (cases "fst en"; cases g) (auto simp: cleanup_entry_def may_clean_def protocol_def admission_flag_def)

text \<open>Only a refused creation raises the flag.\<close>

lemma flag_step:
  "protocol g en = Some g' \<Longrightarrow> admission_flag g \<noteq> Some True \<Longrightarrow> \<not> create_failed en \<Longrightarrow> admission_flag g' \<noteq> Some True"
  by (cases "fst en"; cases g) (auto simp: protocol_def admission_flag_def may_clean_def split: if_splits)

lemma flag_lowered:
  "stage_of h = Some g0 \<Longrightarrow> admission_flag g0 \<noteq> Some True \<Longrightarrow> stage_of (new @ h) = Some g \<Longrightarrow>
     list_all (\<lambda>en. \<not> create_failed en) new \<Longrightarrow> admission_flag g \<noteq> Some True"
  by (induction new arbitrary: g) (auto split: option.splits dest: flag_step)

lemma admitHeldJobs_clean:
  assumes "admitHeldJobs e c order held snap st = (st', None)"
    and "list_all (\<lambda>i. i < length held) order" "distinct order" "stage_of (trace st) = Some (Creating False)"
  shows "\<exists>g. stage_of (trace st') = Some g \<and> may_clean g"
proof -
  obtain g where g: "stage_of (trace st') = Some g" "admitting g"
    using admitHeldJobs_stage [OF assms(1,2,4)] by blast
  have "adds (admission_entry c snap held) st (fst (st', None :: error option))"
    unfolding assms(1) [symmetric] by (rule admitHeldJobs_adds [OF assms(2)])
  then obtain new where new: "trace st' = new @ trace st" by (auto simp: adds_def)
  have "\<not> create_failed en" if "List.member new en" for en
    using admitHeldJobs_create_failed [OF assms(1) _ _ assms(2,3), of en] that new by (auto simp: logs_def)
  then have "list_all (\<lambda>en. \<not> create_failed en) new" by (simp add: list_all_iff)
  then have "admission_flag g \<noteq> Some True"
    using flag_lowered [OF assms(4)] g(1) new by (simp add: admission_flag_def)
  then show ?thesis using g by (auto simp: may_clean_def admitting_def)
qed

lemma tick_stage:
  assumes "stage_of (trace st) \<noteq> None" "tick e s st = (st', r)" "wf_schedule s"
  shows "\<exists>g. stage_of (trace st') = Some g \<and> (r = None \<longrightarrow> may_clean g)"
  using assms(2)
proof (cases rule: tick_cases)
  case (listing err)
  then show ?thesis using collected_stage [OF assms(1)] by simp
next
  case (snapshot err)
  then show ?thesis
    using take_snapshot_stage [OF _ snapshot(2)] collected_stage [OF assms(1)] by simp
next
  case (admission st2 snap err)
  have "stage_of (trace st2) = Some (Creating False)"
    using take_snapshot_stage [OF _ admission(2)] collected_stage [OF assms(1)] admission(1) by simp
  then show ?thesis using admitHeldJobs_stage [OF admission(3) held_order [OF assms(3)]] admission(4) by blast
next
  case (complete st2 snap st3 st4)
  have "stage_of (trace st2) = Some (Creating False)"
    using take_snapshot_stage [OF _ complete(2)] collected_stage [OF assms(1)] complete(1) by simp
  then obtain g where g: "stage_of (trace st3) = Some g" "may_clean g"
    using admitHeldJobs_clean [OF complete(3) held_order [OF assms(3)]] assms(3) by (auto simp: wf_schedule_def)
  have "adds cleanup_entry st3 (fst (st4, r))"
    unfolding complete(4) [symmetric] by (rule cleanupFinishedJobs_adds)
  then have "adds cleanup_entry st3 st4" by simp
  then have "\<exists>g. stage_of (trace st4) = Some g \<and> may_clean g"
    using g cleanup_step by (rule stages_kept [where G = may_clean])
  then show ?thesis by (auto simp: complete(5))
qed

lemma run_stage: "bridge_run st \<Longrightarrow> stage_of (trace st) \<noteq> None"
proof (induction rule: bridge_run.induct)
  case (step st s e)
  then show ?case using tick_stage [OF step.IH] by (metis option.distinct(1) prod.exhaust fst_conv)
qed (simp add: New_def)

section \<open>A queue that has forgotten a job\<close>

text \<open>The queue is empty, Slurm does not know the job of the one JobSet, and a tick deletes it.\<close>

lemma forgotten_job_tick:
  assumes "\<And>h. ask_jobs e h = ([], None)" "\<And>h. ask_job e h 42 = Inr None" "\<And>h. live_cfg e h = example_config"
    and "\<And>h. ask_jobsets e h = Inr [example_jobset]" "\<And>h. ask_workloads e h = Inr []"
  shows "\<exists>new r. trace (fst (tick e all_in_order New)) = (DeleteJobSet ''slurm-job-42'', r) # new
      @ [(GetSlurmJob 42, None), (ListWorkloads, None), (ListJobSets, None), (ListJobs, None)]"
proof -
  let ?snap = "\<lparr>ownedJobSets = [(''slurm-job-42'', example_jobset)], workloadsByJobSet = Map.empty\<rparr>"
  let ?s1 = "record_call ListWorkloads None (record_call ListJobSets None (record_call ListJobs None New))"
  let ?s2 = "record_call (GetSlurmJob 42) None ?s1"
  have js: "ParseUint (label_of example_jobset SlurmJobIDLabel) 64 = Some 42"
    "map_of (js_annotations example_jobset) RetainUntilAnnotation = None"
    by (rule ToJobSet_InrE [OF example_jobset];
        simp add: label_of_def map_of_jobSetLabels example_job_simps submitTimeAnnotation_def;
        simp add: label_names ParseUint_dec_u64 [of 42, simplified] dec_u64_def)+
  have one: "cleanupOne e example_config ?snap Map.empty example_jobset ?s1 = (removeJobSet e 42 False example_jobset ?s2, None)"
    by (simp add: cleanupOne_def js(1) get_job_def assms cleanupKnown_def)
  obtain n r where n: "trace (removeJobSet e 42 False example_jobset ?s2) = (DeleteJobSet ''slurm-job-42'', r) # n @ trace ?s2"
    using removeJobSet_deletes [OF js(2), of e 42 False ?s2] by (auto simp: example_name)
  have orphans: "trace (cancelOrphanedJobs e example_config ?snap Map.empty [] s) = trace s" for s
    by (simp add: cancelOrphanedJobs_def Let_def pruneOrphans_def)
  have "trace (fst (tick e all_in_order New)) = trace (removeJobSet e 42 False example_jobset ?s2)"
    by (simp add: tick_def Let_def assms take_snapshot_def example_selected index_jobsets_def index_workloads_def
        example_name all_in_order_def admitHeldJobs_def cleanupFinishedJobs_def one orphans)
  moreover have "trace New = []" by (simp add: New_def)
  ultimately show ?thesis by (simp add: n)
qed

definition empty_queue_env :: env where
  "empty_queue_env = calm_env\<lparr>ask_jobsets := (\<lambda>_. Inr [example_jobset])\<rparr>"

lemma empty_queue_tick:
  "\<exists>new r. trace (fst (tick empty_queue_env all_in_order New)) = (DeleteJobSet ''slurm-job-42'', r) # new
      @ [(GetSlurmJob 42, None), (ListWorkloads, None), (ListJobSets, None), (ListJobs, None)]"
  by (rule forgotten_job_tick) (simp_all add: empty_queue_env_def calm_env_def)

section \<open>Refinement\<close>

lemma tick_opens:
  assumes "tick e s st = (st', r)" "wf_schedule s"
  shows "\<exists>new. trace st' = new @ (ListJobs, snd (ask_jobs e (trace st))) # trace st
    \<and> list_all (\<lambda>en. fst en \<noteq> ListJobs) new"
proof -
  let ?P = "\<lambda>en. fst en \<noteq> ListJobs"
  let ?s0 = "record_call ListJobs (snd (ask_jobs e (trace st))) st"
  have "adds signal_entry ?s0 (collected e st)"
    unfolding collected_def collection_def by (rule collect_adds) (simp_all add: adds_then)
  then have c: "adds ?P ?s0 (collected e st)"
    by (rule adds_mono) (auto simp: signal_entry_def split: call.splits)
  then have sn: "adds ?P ?s0 (fst (take_snapshot e cf (collected e st)))" for cf
    by (rule take_snapshot_adds) simp_all
  have adm: "adds ?P st2 (fst (admitHeldJobs e cf (workers s (length (held_jobs e st))) (held_jobs e st) snap st2))" for cf snap st2
    by (rule adds_mono [OF admitHeldJobs_adds [OF held_order [OF assms(2)]]])
      (auto simp: admission_entry_def split: call.splits)
  have "adds ?P ?s0 st'"
    using assms(1)
  proof (cases rule: tick_cases)
    case (snapshot err)
    then show ?thesis using sn [of "live_cfg e (trace st)"] by simp
  next
    case (admission st2 snap err)
    have "adds ?P ?s0 st2" using sn [of "live_cfg e (trace st)"] admission(2) by simp
    then show ?thesis using adm [of st2 "live_cfg e (trace st)" snap] admission(3) by (auto intro: adds_trans)
  next
    case (complete st2 snap st3 st4)
    have "adds ?P ?s0 st2" using sn [of "live_cfg e (trace st)"] complete(2) by simp
    then have "adds ?P ?s0 st3" using adm [of st2 "live_cfg e (trace st)" snap] complete(3) by (auto intro: adds_trans)
    moreover have "adds cleanup_entry st3 (fst (st4, r))"
      unfolding complete(4) [symmetric] by (rule cleanupFinishedJobs_adds)
    then have "adds ?P st3 (fst (st4, r))" by (rule adds_mono) (auto simp: cleanup_entry_def)
    ultimately have "adds ?P ?s0 st4" by (auto intro: adds_trans)
    then show ?thesis by (simp add: complete(5) adds_def)
  qed (use c in simp)
  then show ?thesis by (auto simp: adds_def)
qed

text \<open>C1: the bridge implements its stage machine. Every run of ticks is a run of the abstract machine,
  whatever the services answer: each tick is one listing of the queue followed by calls that the stage
  reached allows, and a tick without an error ends in a stage in which destruction is allowed. All that
  is proved of the machine (what may follow what) therefore holds of the reconcile loop.\<close>

theorem ticks_refine_protocol:
  assumes "bridge_run st" "wf_schedule s" "tick e s st = (st', r)"
  shows "\<exists>g new g'. stage_of (trace st) = Some g
    \<and> trace st' = new @ (ListJobs, snd (ask_jobs e (trace st))) # trace st \<and> list_all (\<lambda>en. fst en \<noteq> ListJobs) new
    \<and> stage_of (trace st') = Some g' \<and> (r = None \<longrightarrow> may_clean g')"
  using run_stage [OF assms(1)] tick_stage [OF run_stage [OF assms(1)] assms(3,2)] tick_opens [OF assms(3,2)]
  by fastforce

theorem ticks_refine_protocol_witness:
  "\<exists>new g'. trace (fst (tick empty_queue_env all_in_order New)) = new @ [(ListJobs, None)]
    \<and> stage_of (trace (fst (tick empty_queue_env all_in_order New))) = Some g'"
proof -
  obtain st' r where t: "tick empty_queue_env all_in_order New = (st', r)" by (rule prod.exhaust)
  have "trace New = []" "snd (ask_jobs empty_queue_env []) = None"
    by (simp_all add: New_def empty_queue_env_def calm_env_def)
  then show ?thesis using ticks_refine_protocol [OF bridge_run.start all_in_order(1) t] by (auto simp: t)
qed

text \<open>C2: destruction needs a clean tick. In every run of the bridge, before any deletion of a JobSet,
  cancellation of a job or deletion of a node record, the same tick has listed the queue, the JobSets and
  the Workloads in full, and none of its JobSet creations was refused.\<close>

theorem destruction_needs_a_clean_tick:
  assumes "bridge_run st" "trace st = later @ (c, r) # h" "destructive c"
  shows "\<exists>recent before. h = recent @ (ListJobs, None) # before
    \<and> (ListJobSets, None) \<in> set recent \<and> (ListWorkloads, None) \<in> set recent
    \<and> list_all (\<lambda>en. fst en \<noteq> ListJobs \<and> \<not> create_failed en) recent"
proof -
  have "stage_of ((c, r) # h) \<noteq> None"
    using run_stage [OF assms(1)] stage_of_suffix unfolding assms(2) by blast
  then have "clean_since_listing [(ListJobSets, None), (ListWorkloads, None)] h"
    using machine_destroys_clean [OF _ assms(3)] by blast
  then show ?thesis by (simp add: clean_since_listing_def)
qed

theorem destruction_needs_a_clean_tick_witness:
  "\<exists>r recent before. trace (fst (tick empty_queue_env all_in_order New))
      = (DeleteJobSet ''slurm-job-42'', r) # recent @ (ListJobs, None) # before
    \<and> (ListJobSets, None) \<in> set recent \<and> list_all (\<lambda>en. \<not> create_failed en) recent"
proof -
  obtain h r where h: "trace (fst (tick empty_queue_env all_in_order New)) = [] @ (DeleteJobSet ''slurm-job-42'', r) # h"
    using empty_queue_tick by auto
  have "bridge_run (fst (tick empty_queue_env all_in_order New))"
    by (rule bridge_run.step [OF bridge_run.start all_in_order(1)])
  from destruction_needs_a_clean_tick [OF this h]
  obtain recent before where "h = recent @ (ListJobs, None) # before" "(ListJobSets, None) \<in> set recent"
      "list_all (\<lambda>en. fst en \<noteq> ListJobs \<and> \<not> create_failed en) recent"
    by (auto simp: destructive_def)
  then show ?thesis using h by (auto simp: list_all_iff)
qed

end
