(* ===== verification/Slurm_Backed.thy ===== *)
theory Slurm_Backed imports
  Bridge_Service
  Bridge_Protocol
begin

text \<open>
  The bridge on the Slurm client: the interface \<open>SlurmAPI\<close> of \<open>internal/bridge/reconciler.go\<close>, which
  the bridge calls, provided by the client of \<open>internal/slurm/client.go\<close>. What slurmrestd answers on
  the wire then decides what a tick does.
\<close>

section \<open>The interface\<close>




section \<open>Streaming into the callback\<close>

text \<open>
  The source handles each job while the response arrives. A callback that never fails may as well be
  applied to the list of what arrived, which is how \<open>tick\<close> is written.
\<close>

lemma deliver_fold:
  "deliver (\<lambda>j s. (g j s, None)) vs (fold g js s) =
     (fold g (fst (deliver (\<lambda>j acc. (acc @ [j], None)) vs js)) s, snd (deliver (\<lambda>j acc. (acc @ [j], None)) vs js))"
proof (induction vs arbitrary: js)
  case (Cons v vs)
  show ?case
  proof (cases "decode_job v")
    case (Some j)
    then show ?thesis using Cons.IH [of "js @ [j]"] by simp
  qed simp
qed simp

lemma decodeJobsArray_fold:
  "decodeJobsArray (\<lambda>j s. (g j s, None)) v (fold g js s) =
     (fold g (fst (decodeJobsArray (\<lambda>j acc. (acc @ [j], None)) v js)) s,
      snd (decodeJobsArray (\<lambda>j acc. (acc @ [j], None)) v js))"
  by (simp add: decodeJobsArray_def deliver_fold split: stream_value.split json.split prod.split option.split)

lemma walk_fields_fold:
  "walk_fields (\<lambda>j s. (g j s, None)) kvs errs saw (fold g js s) =
     (fold g (fst (walk_fields (\<lambda>j acc. (acc @ [j], None)) kvs errs saw js)) s,
      snd (walk_fields (\<lambda>j acc. (acc @ [j], None)) kvs errs saw js))"
proof (induction kvs arbitrary: errs saw js)
  case (Cons kv kvs)
  obtain k v where kv: "kv = (k, v)" by (cases kv)
  obtain js1 r where d: "decodeJobsArray (\<lambda>j acc. (acc @ [j], None)) v js = (js1, r)" by (rule prod.exhaust)
  show ?case
  proof (cases "k = ''jobs''")
    case True
    then show ?thesis using Cons.IH [of errs True js1]
      by (cases r) (simp_all add: kv decodeJobsArray_fold d)
  next
    case False
    then show ?thesis using Cons.IH by (simp add: kv split: stream_value.split option.split)
  qed
qed simp

lemma streaming_is_collecting:
  "listJobsStreaming c t send (\<lambda>j s. (g j s, None)) s =
     (fold g (fst (listJobsStreaming c t send (\<lambda>j acc. (acc @ [j], None)) [])) s,
      snd (listJobsStreaming c t send (\<lambda>j acc. (acc @ [j], None)) []))"
proof (cases "newRequest c t ''GET'' (apiPrefix @ ''/jobs'') None")
  case (Inr rq)
  show ?thesis
  proof (cases "send rq")
    case (ListResponse code bytes stream)
    show ?thesis
    proof (cases stream)
      case (Fields_of kvs ended)
      obtain js r where w: "walk_fields (\<lambda>j acc. (acc @ [j], None)) kvs [] False [] = (js, r)" by (rule prod.exhaust)
      have "walk_fields (\<lambda>j s. (g j s, None)) kvs [] False s = (fold g js s, r)"
        using walk_fields_fold [of g kvs "[]" False "[]" s] by (simp add: w)
      then show ?thesis by (cases r) (simp_all add: listJobsStreaming_def Inr ListResponse Fields_of w split: prod.split)
    qed (simp add: listJobsStreaming_def Inr ListResponse)
  qed (simp add: listJobsStreaming_def Inr)
qed (simp add: listJobsStreaming_def)

section \<open>What a deletion rests on\<close>








section \<open>A tick that deletes\<close>


section \<open>What was on the wire\<close>








end
