(* ===== verification/Slurm_Metrics.thy ===== *)
theory Slurm_Metrics imports
  Slurm_Client
  Metrics
begin

text \<open>
  What the Slurm client reports of its requests: the callbacks \<open>OnRequest\<close> and \<open>OnRequestDuration\<close> of
  \<open>internal/slurm/client.go\<close>, wired to a counter and a histogram in \<open>cmd/k8s-bridge/main.go\<close>.
  \<open>elapsed\<close> is the time from the send of a request to the end of its handling.
\<close>

section \<open>The callbacks\<close>

text \<open>The counter by its labels, method and code; the samples of the histogram, newest first.\<close>

record slurm_metrics =
  api_requests :: "string \<times> string \<Rightarrow> nat"
  request_durations :: "(string \<times> int) list"

definition OnRequest :: "string \<Rightarrow> int \<Rightarrow> slurm_metrics \<Rightarrow> slurm_metrics" where
  "OnRequest m code sm = sm\<lparr>api_requests := (api_requests sm)((m, dec_int code) := api_requests sm (m, dec_int code) + 1)\<rparr>"

definition OnRequestDuration :: "string \<Rightarrow> int \<Rightarrow> slurm_metrics \<Rightarrow> slurm_metrics" where
  "OnRequestDuration m d sm = sm\<lparr>request_durations := (m, d) # request_durations sm\<rparr>"

section \<open>The two request paths\<close>

text \<open>\<open>do\<close>: a duration of 0 says that the request never left the process.\<close>

definition do_request :: "client \<Rightarrow> transport \<Rightarrow> (request \<Rightarrow> int) \<Rightarrow> string \<Rightarrow> string \<Rightarrow> json option \<Rightarrow> slurm_metrics \<Rightarrow>
    slurm_metrics \<times> (error + json)" where
  "do_request c t elapsed m p b sm =
     (case doHTTP c t m p b of
        (code, r) \<Rightarrow>
          let dur = (case newRequest c t m p b of Inl _ \<Rightarrow> 0 | Inr rq \<Rightarrow> elapsed rq);
              sm1 = OnRequest m code sm
          in (if dur > 0 then OnRequestDuration m dur sm1 else sm1, r))"

text \<open>The streamed listing reports when its walk over the response is over.\<close>

definition list_request :: "client \<Rightarrow> transport \<Rightarrow> (request \<Rightarrow> list_result) \<Rightarrow> (request \<Rightarrow> int) \<Rightarrow> slurm_metrics \<Rightarrow> slurm_metrics" where
  "list_request c t send elapsed sm =
     (case newRequest c t ''GET'' (apiPrefix @ ''/jobs'') None of
        Inl err \<Rightarrow> OnRequest ''GET'' 0 sm
      | Inr rq \<Rightarrow>
          let code = (case send rq of ListTransportError err \<Rightarrow> 0 | ListResponse code bytes stream \<Rightarrow> code)
          in OnRequestDuration ''GET'' (elapsed rq) (OnRequest ''GET'' code sm))"

section \<open>What the numbers mean\<close>

text \<open>
  One request, one count, under the code slurmrestd answered, or under 0 when there was no answer; a
  duration only when the request was sent. The histogram never holds more samples than were counted.
\<close>

definition samples_counted :: "slurm_metrics \<Rightarrow> nat \<Rightarrow> bool" where
  "samples_counted sm n \<longleftrightarrow> length (request_durations sm) \<le> n"

lemma do_request_reports:
  "do_request c t elapsed m p b sm = (sm', r) \<Longrightarrow>
     \<exists>code. api_requests sm' = (api_requests sm)((m, dec_int code) := api_requests sm (m, dec_int code) + 1)
       \<and> (case newRequest c t m p b of
            Inl err \<Rightarrow> code = 0 \<and> request_durations sm' = request_durations sm
          | Inr rq \<Rightarrow> code = (case t_send t rq of TransportError err \<Rightarrow> 0 | HttpResponse n body \<Rightarrow> n)
              \<and> request_durations sm' = (if elapsed rq > 0 then [(m, elapsed rq)] else []) @ request_durations sm)"
  by (auto simp: do_request_def doHTTP_def OnRequest_def OnRequestDuration_def Let_def
      split: sum.splits http_result.splits if_splits)

lemma requests_outnumber_samples:
  "samples_counted sm n \<Longrightarrow> samples_counted (fst (do_request c t elapsed m p b sm)) (Suc n)"
  "samples_counted sm n \<Longrightarrow> samples_counted (list_request c t send elapsed' sm) (Suc n)"
  by (auto simp: samples_counted_def do_request_def list_request_def OnRequest_def OnRequestDuration_def Let_def
      split: sum.split prod.split)

text \<open>A client that cannot read its token is counted but leaves no latency behind.\<close>

lemma unsent_request_is_not_timed:
  "newRequest c t m p b = Inl err \<Longrightarrow>
     fst (do_request c t elapsed m p b sm) = OnRequest m 0 sm \<and> snd (do_request c t elapsed m p b sm) = Inl err"
  by (simp add: do_request_def doHTTP_def Let_def)

end
