(* ===== verification/Ray_Config.thy ===== *)
theory Ray_Config imports
  Bridge_Config
begin

text \<open>
  \<open>internal/rayconfig/config.go\<close>: the configuration of ray-bridge, its lookups, defaults and
  validation. Pools and managed clusters are looked up like the partitions of the Slurm side, so
  both tables are further instances of \<open>mapping_table\<close>.
\<close>

section \<open>The record\<close>

record managed_cluster =
  ClusterName :: string
  HeadAddress :: string

record pool_mapping =
  Pool :: string
  PoolPriorityClass :: string
  PoolQueue :: string

record ray_worker =
  WorkerImage :: string
  WorkerGPUResourceName :: string
  DefaultWorkers :: i32
  DefaultCPUs :: i64
  DefaultMemoryMB :: i64
  WorkerPrivileged :: bool
  PreferredTopology :: string

record ray_config =
  RayNamespace :: string
  RayLocalQueue :: string
  ManagedClusters :: "managed_cluster list"
  PoolMappings :: "pool_mapping list"
  Worker :: ray_worker

section \<open>Lookups\<close>

fun pool_class_in :: "pool_mapping list \<Rightarrow> string \<Rightarrow> string option" where
  "pool_class_in [] p = None"
| "pool_class_in (m # ms) p = (if Pool m = p then Some (PoolPriorityClass m) else pool_class_in ms p)"

fun pool_queue_in :: "pool_mapping list \<Rightarrow> string \<Rightarrow> string option" where
  "pool_queue_in [] p = None"
| "pool_queue_in (m # ms) p =
     (if Pool m = p \<and> PoolQueue m \<noteq> [] then Some (PoolQueue m) else pool_queue_in ms p)"

fun head_in :: "managed_cluster list \<Rightarrow> string \<Rightarrow> string option" where
  "head_in [] n = None"
| "head_in (m # ms) n = (if ClusterName m = n then Some (HeadAddress m) else head_in ms n)"

definition RayPriorityClassFor :: "ray_config \<Rightarrow> string \<Rightarrow> string option" where
  "RayPriorityClassFor c p = pool_class_in (PoolMappings c) p"

definition RayLocalQueueFor :: "ray_config \<Rightarrow> string \<Rightarrow> string \<Rightarrow> string" where
  "RayLocalQueueFor c p jobOverride =
     (if jobOverride \<noteq> [] then jobOverride
      else case pool_queue_in (PoolMappings c) p of Some q \<Rightarrow> q | None \<Rightarrow> RayLocalQueue c)"

definition HeadAddressFor :: "ray_config \<Rightarrow> string \<Rightarrow> string option" where
  "HeadAddressFor c cluster = head_in (ManagedClusters c) cluster"

interpretation pools: mapping_table Pool PoolPriorityClass pool_class_in
  by unfold_locales simp_all

interpretation clusters: mapping_table ClusterName HeadAddress head_in
  by unfold_locales simp_all

section \<open>Defaults and validation\<close>

definition RayApplyDefaults :: "ray_config \<Rightarrow> ray_config" where
  "RayApplyDefaults c =
     (let w0 = Worker c;
          w1 = (if WorkerGPUResourceName w0 = [] then w0\<lparr>WorkerGPUResourceName := ''nvidia.com/gpu''\<rparr> else w0);
          w2 = (if DefaultWorkers w1 = 0 then w1\<lparr>DefaultWorkers := 1\<rparr> else w1);
          w3 = (if DefaultCPUs w2 = 0 then w2\<lparr>DefaultCPUs := 1\<rparr> else w2);
          w4 = (if DefaultMemoryMB w3 = 0 then w3\<lparr>DefaultMemoryMB := 1024\<rparr> else w3)
      in c\<lparr>Worker := w4\<rparr>)"

datatype ray_config_error =
    NamespaceAndQueueRequired | NoClusters | BlankCluster nat | NoPools | BlankPool nat | NoWorkerImage
  | NegativeDefaultWorkers i32 | NegativeDefaultCPUs i64 | NegativeDefaultMemory i64

fun check_clusters :: "nat \<Rightarrow> managed_cluster list \<Rightarrow> ray_config_error option" where
  "check_clusters i [] = None"
| "check_clusters i (m # ms) =
     (if TrimSpace (ClusterName m) = [] \<or> TrimSpace (HeadAddress m) = [] then Some (BlankCluster i)
      else check_clusters (Suc i) ms)"

fun check_pools :: "nat \<Rightarrow> pool_mapping list \<Rightarrow> ray_config_error option" where
  "check_pools i [] = None"
| "check_pools i (m # ms) =
     (if TrimSpace (Pool m) = [] \<or> TrimSpace (PoolPriorityClass m) = [] then Some (BlankPool i)
      else check_pools (Suc i) ms)"

definition RayValidate :: "ray_config \<Rightarrow> ray_config_error option" where
  "RayValidate c =
     (if RayNamespace c = [] \<or> RayLocalQueue c = [] then Some NamespaceAndQueueRequired
      else if ManagedClusters c = [] then Some NoClusters
      else case check_clusters 0 (ManagedClusters c) of Some e \<Rightarrow> Some e | None \<Rightarrow>
      if PoolMappings c = [] then Some NoPools
      else case check_pools 0 (PoolMappings c) of Some e \<Rightarrow> Some e | None \<Rightarrow>
      if TrimSpace (WorkerImage (Worker c)) = [] then Some NoWorkerImage
      else if DefaultWorkers (Worker c) <s 0 then Some (NegativeDefaultWorkers (DefaultWorkers (Worker c)))
      else if DefaultCPUs (Worker c) <s 0 then Some (NegativeDefaultCPUs (DefaultCPUs (Worker c)))
      else if DefaultMemoryMB (Worker c) <s 0 then Some (NegativeDefaultMemory (DefaultMemoryMB (Worker c)))
      else None)"

text \<open>\<open>Load\<close> after the file has been read and parsed.\<close>

definition RayLoad :: "ray_config \<Rightarrow> ray_config_error + ray_config" where
  "RayLoad parsed =
     (let cfg = RayApplyDefaults parsed
      in case RayValidate cfg of Some err \<Rightarrow> Inl err | None \<Rightarrow> Inr cfg)"

section \<open>Lemmas\<close>

lemma RayLoad_defaults:
  assumes "RayLoad parsed = Inr c"
  shows "0 < sint (DefaultWorkers (Worker c))" "0 < sint (DefaultCPUs (Worker c))"
    "0 < sint (DefaultMemoryMB (Worker c))" "WorkerGPUResourceName (Worker c) \<noteq> []"
proof -
  have c: "c = RayApplyDefaults parsed" and v: "RayValidate c = None"
    using assms by (auto simp: RayLoad_def Let_def split: option.splits)
  have nz: "DefaultWorkers (Worker c) \<noteq> 0" "DefaultCPUs (Worker c) \<noteq> 0" "DefaultMemoryMB (Worker c) \<noteq> 0"
    and gpu: "WorkerGPUResourceName (Worker c) \<noteq> []"
    unfolding c RayApplyDefaults_def Let_def by simp_all
  have nn: "\<not> DefaultWorkers (Worker c) <s 0" "\<not> DefaultCPUs (Worker c) <s 0" "\<not> DefaultMemoryMB (Worker c) <s 0"
    using v by (auto simp: RayValidate_def split: option.splits if_splits)
  have pos: "0 < sint x" if "x \<noteq> 0" "\<not> x <s 0" for x :: "'a::len word"
    using that by (auto simp: sless_sint order_less_le signed_eq_0_iff)
  show "0 < sint (DefaultWorkers (Worker c))" "0 < sint (DefaultCPUs (Worker c))"
    "0 < sint (DefaultMemoryMB (Worker c))" "WorkerGPUResourceName (Worker c) \<noteq> []"
    using pos nz nn gpu by blast+
qed

text \<open>
  Unlike the Slurm side's \<open>Validate\<close>, this one accepts the same pool twice; the priority class then
  comes from the first entry and the queue from the first that names one.
\<close>

definition twice_mapped :: ray_config where
  "twice_mapped =
     \<lparr>RayNamespace = ''ray'', RayLocalQueue = ''main'',
      ManagedClusters = [\<lparr>ClusterName = ''shared'', HeadAddress = ''head:6379''\<rparr>],
      PoolMappings = [\<lparr>Pool = ''batch'', PoolPriorityClass = ''low'', PoolQueue = []\<rparr>,
                      \<lparr>Pool = ''batch'', PoolPriorityClass = ''high'', PoolQueue = ''urgent''\<rparr>],
      Worker = \<lparr>WorkerImage = ''ray:2.9'', WorkerGPUResourceName = ''nvidia.com/gpu'', DefaultWorkers = 1,
        DefaultCPUs = 1, DefaultMemoryMB = 1024, WorkerPrivileged = False, PreferredTopology = []\<rparr>\<rparr>"

lemma duplicate_pool_mixes_entries:
  "RayLoad twice_mapped = Inr twice_mapped \<and> RayPriorityClassFor twice_mapped ''batch'' = Some ''low''
    \<and> RayLocalQueueFor twice_mapped ''batch'' [] = ''urgent''"
  by (simp add: RayLoad_def RayApplyDefaults_def RayValidate_def twice_mapped_def RayPriorityClassFor_def
      RayLocalQueueFor_def TrimSpace_graphic graphic_def byte_def sless_sint)

end
