(* ===== verification/Ray_Job.thy ===== *)
theory Ray_Job imports
  Ray_Config
begin

text \<open>
  \<open>internal/ray/rayjob.go\<close>: a RayJob read out of an unstructured object. \<open>unstructured\<close> holds what
  the accessors of the API machinery return for the object: the metadata, and for each path the
  source reads the value of \<open>NestedString\<close>, \<open>NestedBool\<close> or \<open>NestedStringMap\<close>, which is the zero
  value when the path is absent or has another type. Maps are association lists.
\<close>

section \<open>Objects\<close>

record unstructured =
  u_name :: string
  u_namespace :: string
  u_uid :: string
  u_annotations :: "(string \<times> string) list"
  u_clusterSelector :: "(string \<times> string) list"
  u_suspend :: bool
  u_entrypoint :: string
  u_entrypointResources :: string
  u_jobStatus :: string
  u_jobDeploymentStatus :: string

record rayjob =
  rj_Name :: string
  rj_Namespace :: string
  rj_UID :: string
  TargetCluster :: string
  Suspended :: bool
  Entrypoint :: string
  Workers :: i32
  CPUsPerWorker :: i64
  GPUsPerWorker :: i64
  MemPerWorkerMB :: i64
  rj_Pool :: string
  rj_LocalQueue :: string
  RequiredTopology :: string
  JobStatus :: string
  DeploymentStatus :: string

record shape_defaults =
  def_Workers :: i32
  def_CPUsPerWorker :: i64
  def_MemPerWorkerMB :: i64

section \<open>Annotations\<close>

definition clusterSelectorKey :: string where "clusterSelectorKey = ''ray.io/cluster''"
definition PoolAnnotation :: string where "PoolAnnotation = ''ray-bridge.x-k8s.io/pool''"
definition WorkersAnnotation :: string where "WorkersAnnotation = ''ray-bridge.x-k8s.io/workers''"
definition WorkerCPUsAnnotation :: string where "WorkerCPUsAnnotation = ''ray-bridge.x-k8s.io/worker-cpus''"
definition WorkerGPUsAnnotation :: string where "WorkerGPUsAnnotation = ''ray-bridge.x-k8s.io/worker-gpus''"
definition WorkerMemoryAnnotation :: string where "WorkerMemoryAnnotation = ''ray-bridge.x-k8s.io/worker-memory''"
definition LocalQueueAnnotation :: string where "LocalQueueAnnotation = ''ray-bridge.x-k8s.io/local-queue''"
definition RequiredTopologyAnnotation :: string where
  "RequiredTopologyAnnotation = ''ray-bridge.x-k8s.io/required-topology''"

text \<open>A map read without the second result: the empty string for a missing key.\<close>

definition value_of :: "(string \<times> string) list \<Rightarrow> string \<Rightarrow> string" where
  "value_of m k = (case map_of m k of Some v \<Rightarrow> v | None \<Rightarrow> [])"

datatype shape_error = NilRayJob | NotAnInteger string string | BadQuantity string string

definition intAnnotation :: "(string \<times> string) list \<Rightarrow> string \<Rightarrow> i64 \<Rightarrow> shape_error + i64" where
  "intAnnotation ann key def_value =
     (case map_of ann key of
        None \<Rightarrow> Inr def_value
      | Some raw \<Rightarrow>
          (case ParseInt (TrimSpace raw) 64 of
             None \<Rightarrow> Inl (NotAnInteger key raw)
           | Some v \<Rightarrow> Inr (word_of_int v)))"

definition clampToInt32 :: "i64 \<Rightarrow> i32" where
  "clampToInt32 v = (if 2147483647 <s v then 2147483647 else word_of_int (sint v))"

section \<open>Parsing\<close>

text \<open>
  \<open>quantity_value\<close> is \<open>resource.ParseQuantity\<close> followed by \<open>Value\<close>: the value rounded up to an
  integer, \<open>None\<close> when the text is no quantity. \<open>None\<close> for the object is the nil pointer.
\<close>

definition memAnnotation :: "(string \<Rightarrow> i64 option) \<Rightarrow> (string \<times> string) list \<Rightarrow> i64 \<Rightarrow> shape_error + i64" where
  "memAnnotation quantity_value ann def_value =
     (case map_of ann WorkerMemoryAnnotation of
        None \<Rightarrow> Inr def_value
      | Some raw \<Rightarrow>
          (case quantity_value raw of
             None \<Rightarrow> Inl (BadQuantity WorkerMemoryAnnotation raw)
           | Some v \<Rightarrow> let mb = go_quot v (2 ^ 20) in Inr (if mb <s 1 then 1 else mb)))"

definition FromUnstructured :: "(string \<Rightarrow> i64 option) \<Rightarrow> unstructured option \<Rightarrow> shape_defaults \<Rightarrow> shape_error + rayjob" where
  "FromUnstructured quantity_value obj d =
     (case obj of
        None \<Rightarrow> Inl NilRayJob
      | Some u \<Rightarrow>
     (let ann = u_annotations u in
      case intAnnotation ann WorkersAnnotation (word_of_int (sint (def_Workers d))) of
        Inl err \<Rightarrow> Inl err
      | Inr workers \<Rightarrow>
     (case intAnnotation ann WorkerCPUsAnnotation (def_CPUsPerWorker d) of
        Inl err \<Rightarrow> Inl err
      | Inr cpus \<Rightarrow>
     (case intAnnotation ann WorkerGPUsAnnotation 0 of
        Inl err \<Rightarrow> Inl err
      | Inr gpus \<Rightarrow>
     (case memAnnotation quantity_value ann (def_MemPerWorkerMB d) of
        Inl err \<Rightarrow> Inl err
      | Inr mem \<Rightarrow>
          Inr \<lparr>rj_Name = u_name u, rj_Namespace = u_namespace u, rj_UID = u_uid u,
               TargetCluster = value_of (u_clusterSelector u) clusterSelectorKey,
               Suspended = u_suspend u, Entrypoint = u_entrypoint u,
               Workers = clampToInt32 (if workers <s 1 then 1 else workers),
               CPUsPerWorker = (if cpus <s 1 then 1 else cpus),
               GPUsPerWorker = (if gpus <s 0 then 0 else gpus),
               MemPerWorkerMB = mem,
               rj_Pool = value_of ann PoolAnnotation, rj_LocalQueue = value_of ann LocalQueueAnnotation,
               RequiredTopology = value_of ann RequiredTopologyAnnotation,
               JobStatus = u_jobStatus u, DeploymentStatus = u_jobDeploymentStatus u\<rparr>)))))"

definition IsInnerWorkload :: "rayjob \<Rightarrow> bool" where
  "IsInnerWorkload j \<longleftrightarrow> TargetCluster j \<noteq> []"

definition RayIsTerminal :: "rayjob \<Rightarrow> bool" where
  "RayIsTerminal j \<longleftrightarrow>
     List.member [''Complete'', ''Failed'', ''ValidationFailed''] (DeploymentStatus j)
     \<or> List.member [''SUCCEEDED'', ''FAILED'', ''STOPPED''] (JobStatus j)"

section \<open>Lemmas\<close>

lemma sint_clampToInt32:
  assumes "0 \<le> sint v"
  shows "sint (clampToInt32 v) = min (sint v) 2147483647"
proof (cases "2147483647 < sint v")
  case False
  then have "clampToInt32 v = word_of_int (sint v)" by (simp add: clampToInt32_def sless_sint)
  moreover have "sint (word_of_int (sint v) :: i32) = sint v"
    using assms False by (intro sint_word_of_int32) simp_all
  ultimately show ?thesis using False by simp
qed (simp add: clampToInt32_def sless_sint)

lemma FromUnstructured_InrE:
  assumes "FromUnstructured qv obj d = Inr j"
  obtains u where "obj = Some u" "rj_Name j = u_name u" "rj_Namespace j = u_namespace u" "rj_UID j = u_uid u"
    "TargetCluster j = value_of (u_clusterSelector u) clusterSelectorKey"
    "rj_Pool j = value_of (u_annotations u) PoolAnnotation"
    "1 \<le> sint (Workers j)" "1 \<le> sint (CPUsPerWorker j)" "0 \<le> sint (GPUsPerWorker j)"
    "memAnnotation qv (u_annotations u) (def_MemPerWorkerMB d) = Inr (MemPerWorkerMB j)"
  using assms
  by (auto simp: FromUnstructured_def Let_def sless_sint sint_clampToInt32 split: option.splits sum.splits)

lemma FromUnstructured_shape:
  assumes "FromUnstructured qv obj d = Inr j"
  shows "1 \<le> sint (Workers j) \<and> (\<exists>ann. memAnnotation qv ann (def_MemPerWorkerMB d) = Inr (MemPerWorkerMB j))"
  by (rule FromUnstructured_InrE [OF assms]) blast

lemma memAnnotation_range:
  assumes "memAnnotation qv ann m = Inr mb" "1 \<le> sint m" "sint m < 2 ^ 43"
  shows "1 \<le> sint mb \<and> sint mb < 2 ^ 43"
proof -
  have "1 \<le> sint (if go_quot v (2 ^ 20) <s 1 then 1 else go_quot v (2 ^ 20))
      \<and> sint (if go_quot v (2 ^ 20) <s 1 then 1 else go_quot v (2 ^ 20)) < 2 ^ 43" for v :: i64
  proof (cases "0 \<le> sint v")
    case True
    have "sint (go_quot v (2 ^ 20)) = sint v div 2 ^ 20" using sint_go_quot64 [OF True, of "2 ^ 20"] by simp
    moreover have "sint v div 2 ^ 20 < 2 ^ 43" using sint_lt64 [of v] by simp
    ultimately show ?thesis by (simp add: sless_sint)
  next
    case False
    define q where "q = \<bar>sint v\<bar> div 2 ^ 20"
    have q: "0 \<le> q" "q \<le> 2 ^ 43" using sint_ge64 [of v] False by (simp_all add: q_def)
    have "go_quot v (2 ^ 20) = word_of_int (- q)" using False by (simp add: go_quot_def q_def)
    moreover have "sint (word_of_int (- q) :: i64) = - q" using q by (intro sint_word_of_int64) simp_all
    ultimately have "sint (go_quot v (2 ^ 20)) < 1" using q(1) by simp
    then show ?thesis by (simp add: sless_sint)
  qed
  moreover have "mb = m \<or> (\<exists>v. mb = (if go_quot v (2 ^ 20) <s 1 then 1 else go_quot v (2 ^ 20)))"
    using assms(1) by (auto simp: memAnnotation_def Let_def split: option.splits)
  ultimately show ?thesis using assms(2,3) by blast
qed

lemma graphic_dec: "graphic (dec n)"
proof -
  have "33 \<le> byte c \<and> byte c < 127" if "is_digit c" for c
    using that by (simp add: is_digit_def byte_def)
  then show ?thesis using dec_digits [of n] by (auto simp: graphic_def list_all_iff)
qed

text \<open>A printed number parses back, also through the trimming.\<close>

lemma parse_printed_int:
  assumes "- (2 ^ 63) \<le> i" "i < 2 ^ 63"
  shows "ParseInt (TrimSpace (dec_int i)) 64 = Some i"
proof -
  have "graphic (dec_int i)" using graphic_dec by (simp add: dec_int_def graphic_def byte_def)
  then show ?thesis using assms by (simp add: TrimSpace_graphic ParseInt_dec_int)
qed

end
