(* ===== verification/Ray_Translate.thy ===== *)
theory Ray_Translate imports
  Ray_Job
  Translate
begin

text \<open>
  \<open>internal/raytranslate/translate.go\<close>: the JobSet of dedicated Ray workers an inner RayJob becomes.
  The names are further instances of \<open>deterministic_name\<close>; objects are the records of
  \<open>K8s_Objects\<close>.
\<close>

section \<open>Names\<close>

definition RayManagedByLabel :: string where "RayManagedByLabel = ''ray-bridge.x-k8s.io/managed-by''"
definition RayManagedByValue :: string where "RayManagedByValue = ''ray-bridge''"
definition RayJobLabel :: string where "RayJobLabel = ''ray-bridge.x-k8s.io/ray-job''"
definition RayJobUIDLabel :: string where "RayJobUIDLabel = ''ray-bridge.x-k8s.io/ray-job-uid''"
definition rayWorkerContainerName :: string where "rayWorkerContainerName = ''ray-worker''"
definition WorkerJobSetPrefix :: string where "WorkerJobSetPrefix = ''ray-workers-''"

lemmas ray_label_names = RayManagedByLabel_def RayJobLabel_def RayJobUIDLabel_def queueNameLabel_def priorityClassLabel_def

definition WorkerJobSetName :: "rayjob \<Rightarrow> string" where
  "WorkerJobSetName job = WorkerJobSetPrefix @ rj_Name job"

definition RayJobNameFromJobSet :: "string \<Rightarrow> string option" where
  "RayJobNameFromJobSet jobSetName = CutPrefix jobSetName WorkerJobSetPrefix"

definition PinResource :: "rayjob \<Rightarrow> string" where
  "PinResource job = ''wm-job-'' @ rj_Name job"

definition WorkerPodNames :: "rayjob \<Rightarrow> string list" where
  "WorkerPodNames job =
     map (\<lambda>i. WorkerJobSetName job @ ''-'' @ workersReplicatedJobName @ ''-'' @ dec i @ ''-0'') [0..<nat (sint (Workers job))]"

interpretation worker_jobset_name: deterministic_name "\<lambda>n. WorkerJobSetPrefix @ n"
  by unfold_locales simp

interpretation pin_resource: deterministic_name "\<lambda>n. ''wm-job-'' @ n"
  by unfold_locales simp

section \<open>The worker\<close>

definition workerStartCommand :: "rayjob \<Rightarrow> string \<Rightarrow> string" where
  "workerStartCommand job headAddr =
     ''exec ray start --address='' @ headAddr @ '' --num-cpus='' @ dec_i64 (CPUsPerWorker job)
     @ (if 0 <s GPUsPerWorker job then '' --num-gpus='' @ dec_i64 (GPUsPerWorker job) else [])
     @ '' --resources='' @ [CHR 0x27] @ ''{\"'' @ PinResource job @ ''\": '' @ dec_i64 (CPUsPerWorker job) @ ''}'' @ [CHR 0x27]
     @ '' --block''"

definition rayPodResources :: "ray_config \<Rightarrow> quantity \<Rightarrow> quantity \<Rightarrow> i64 \<Rightarrow> (string \<times> quantity) list" where
  "rayPodResources cfg cpu mem gpus =
     (let rl = [(''cpu'', cpu), (''memory'', mem)] in
      if 0 <s gpus
      then AList.update (WorkerGPUResourceName (Worker cfg)) \<lparr>qty_value = gpus, qty_format = DecimalSI\<rparr> rl
      else rl)"

definition workerSecurityContext :: "ray_config \<Rightarrow> security_context" where
  "workerSecurityContext cfg =
     (if WorkerPrivileged (Worker cfg)
      then \<lparr>sc_privileged = True, sc_allow_escalation = None, sc_drop = [], sc_add = []\<rparr>
      else \<lparr>sc_privileged = False, sc_allow_escalation = Some False, sc_drop = [''ALL''], sc_add = []\<rparr>)"

definition rayTopologyAnnotations :: "rayjob \<Rightarrow> ray_config \<Rightarrow> (string \<times> string) list" where
  "rayTopologyAnnotations job cfg =
     (if RequiredTopology job \<noteq> [] then [(''kueue.x-k8s.io/podset-required-topology'', RequiredTopology job)]
      else if PreferredTopology (Worker cfg) \<noteq> []
      then [(''kueue.x-k8s.io/podset-preferred-topology'', PreferredTopology (Worker cfg))]
      else [])"

section \<open>ToWorkerJobSet\<close>

datatype translation_error = NotInnerWorkload | UnmanagedCluster string | UnmappedPool string

definition workerContainer :: "rayjob \<Rightarrow> ray_config \<Rightarrow> string \<Rightarrow> container" where
  "workerContainer job cfg headAddr =
     (let cpu = \<lparr>qty_value = CPUsPerWorker job, qty_format = DecimalSI\<rparr>;
          mem = \<lparr>qty_value = MemPerWorkerMB job * 2 ^ 20, qty_format = BinarySI\<rparr>;
          rl = rayPodResources cfg cpu mem (GPUsPerWorker job)
      in \<lparr>c_name = rayWorkerContainerName, c_image = WorkerImage (Worker cfg),
          c_security = workerSecurityContext cfg,
          c_command = [''/bin/bash'', ''-lc'', workerStartCommand job headAddr], c_args = [],
          c_probe = ExecProbe [''/bin/bash'', ''-lc'', ''ray health-check --address '' @ headAddr] 5 5,
          c_requests = rl, c_limits = rl, c_mounts = [], c_env = []\<rparr>)"

definition ToWorkerJobSet :: "rayjob \<Rightarrow> ray_config \<Rightarrow> translation_error + jobset" where
  "ToWorkerJobSet job cfg =
     (if \<not> IsInnerWorkload job then Inl NotInnerWorkload
      else case HeadAddressFor cfg (TargetCluster job) of
        None \<Rightarrow> Inl (UnmanagedCluster (TargetCluster job))
      | Some headAddr \<Rightarrow>
     (case RayPriorityClassFor cfg (rj_Pool job) of
        None \<Rightarrow> Inl (UnmappedPool (rj_Pool job))
      | Some priorityClass \<Rightarrow>
          Inr \<lparr>js_name = WorkerJobSetName job, js_namespace = rj_Namespace job,
               js_labels =
                 [(RayManagedByLabel, RayManagedByValue), (RayJobLabel, rj_Name job), (RayJobUIDLabel, rj_UID job),
                  (queueNameLabel, RayLocalQueueFor cfg (rj_Pool job) (rj_LocalQueue job)),
                  (priorityClassLabel, priorityClass)],
               js_annotations = [], js_owners = [], js_max_restarts = 2,
               js_replicated =
                 [\<lparr>rj_name = workersReplicatedJobName, rj_replicas = Workers job,
                   rj_template =
                     \<lparr>jt_parallelism = Some 1, jt_completions = Some 1, jt_backoff = Some 0, jt_deadline = None,
                      jt_pod_labels = [(RayJobUIDLabel, rj_UID job)],
                      jt_pod_annotations = rayTopologyAnnotations job cfg,
                      jt_pod = \<lparr>p_restart = ''Never'', p_containers = [workerContainer job cfg headAddr],
                        p_volumes = [], p_tolerations = [], p_anti_affinity = []\<rparr>\<rparr>\<rparr>],
               js_conditions = []\<rparr>))"

section \<open>Lemmas\<close>

text \<open>The scope of ray-bridge: an inner workload of a managed cluster with a mapped pool.\<close>

definition managed_inner :: "rayjob \<Rightarrow> ray_config \<Rightarrow> bool" where
  "managed_inner job cfg \<longleftrightarrow> IsInnerWorkload job \<and> HeadAddressFor cfg (TargetCluster job) \<noteq> None"

lemma ToWorkerJobSet_scope:
  "(\<exists>js. ToWorkerJobSet job cfg = Inr js) \<longleftrightarrow>
     managed_inner job cfg \<and> RayPriorityClassFor cfg (rj_Pool job) \<noteq> None"
  by (auto simp: ToWorkerJobSet_def managed_inner_def split: option.splits)

lemma ToWorkerJobSet_InrE:
  assumes "ToWorkerJobSet job cfg = Inr js"
  obtains headAddr pc where "HeadAddressFor cfg (TargetCluster job) = Some headAddr" "IsInnerWorkload job"
    "RayPriorityClassFor cfg (rj_Pool job) = Some pc"
    "js_name js = WorkerJobSetName job" "js_namespace js = rj_Namespace job"
    "label_of js RayManagedByLabel = RayManagedByValue" "label_of js RayJobUIDLabel = rj_UID job"
    "label_of js priorityClassLabel = pc" "js_conditions js = []"
  using assms
  by (auto simp: ToWorkerJobSet_def label_of_def ray_label_names split: if_splits option.splits)

lemma RayJobNameFromJobSet_WorkerJobSetName [simp]:
  "RayJobNameFromJobSet (WorkerJobSetName job) = Some (rj_Name job)"
  by (simp add: RayJobNameFromJobSet_def WorkerJobSetName_def)

lemma rayPodResources_lookup:
  assumes "WorkerGPUResourceName (Worker c) \<noteq> ''cpu''" "WorkerGPUResourceName (Worker c) \<noteq> ''memory''"
  shows "map_of (rayPodResources c cpu mem gpus) ''cpu'' = Some cpu"
    "map_of (rayPodResources c cpu mem gpus) ''memory'' = Some mem"
    "map_of (rayPodResources c cpu mem gpus) (WorkerGPUResourceName (Worker c)) =
       (if 0 < sint gpus then Some \<lparr>qty_value = gpus, qty_format = DecimalSI\<rparr> else None)"
  unfolding rayPodResources_def Let_def sless_sint using assms by simp_all

lemma distinct_WorkerPodNames: "distinct (WorkerPodNames job)"
  by (simp add: WorkerPodNames_def distinct_map inj_on_def)

lemma length_WorkerPodNames: "length (WorkerPodNames job) = nat (sint (Workers job))"
  by (simp add: WorkerPodNames_def)

section \<open>Properties\<close>

definition requested :: "container \<Rightarrow> string \<Rightarrow> int option" where
  "requested ct r = map_option (\<lambda>q. sint (qty_value q)) (map_of (c_requests ct) r)"

definition ray_defaults :: "ray_config \<Rightarrow> shape_defaults" where
  "ray_defaults cfg = \<lparr>def_Workers = DefaultWorkers (Worker cfg), def_CPUsPerWorker = DefaultCPUs (Worker cfg),
     def_MemPerWorkerMB = DefaultMemoryMB (Worker cfg)\<rparr>"

text \<open>Quota and Ray's own capacity stay in lockstep. For every RayJob that parses under a loaded
  configuration, the JobSet has one pod per worker, at least one, and each pod requests exactly the
  CPUs, bytes of memory and GPUs that the RayJob asked for, without overflow, while the command it
  runs announces the same numbers of CPUs and GPUs to Ray and as many units of the pin resource
  as CPUs.\<close>

lemma worker_capacity_matches_request:
  assumes "RayLoad parsed = Inr c" "sint (DefaultMemoryMB (Worker c)) < 2 ^ 43"
    and "WorkerGPUResourceName (Worker c) \<notin> {''cpu'', ''memory''}"
    and "FromUnstructured qv obj (ray_defaults c) = Inr j" "ToWorkerJobSet j c = Inr js"
  shows "\<exists>ct head. map (\<lambda>r. (rj_replicas r, jt_parallelism (rj_template r), p_containers (jt_pod (rj_template r))))
        (js_replicated js) = [(Workers j, Some 1, [ct])]
    \<and> 1 \<le> sint (Workers j)
    \<and> requested ct ''cpu'' = Some (sint (CPUsPerWorker j))
    \<and> requested ct ''memory'' = Some (sint (MemPerWorkerMB j) * 2 ^ 20) \<and> 1 \<le> sint (MemPerWorkerMB j)
    \<and> requested ct (WorkerGPUResourceName (Worker c)) =
        (if 0 < sint (GPUsPerWorker j) then Some (sint (GPUsPerWorker j)) else None)
    \<and> c_command ct = [''/bin/bash'', ''-lc'', ''exec ray start --address='' @ head
        @ '' --num-cpus='' @ dec_int (sint (CPUsPerWorker j))
        @ (if 0 < sint (GPUsPerWorker j) then '' --num-gpus='' @ dec_int (sint (GPUsPerWorker j)) else [])
        @ '' --resources='' @ [CHR 0x27] @ ''{\"'' @ PinResource j @ ''\": '' @ dec_int (sint (CPUsPerWorker j)) @ ''}''
        @ [CHR 0x27] @ '' --block'']"
proof -
  obtain ann where u: "1 \<le> sint (Workers j)" "memAnnotation qv ann (DefaultMemoryMB (Worker c)) = Inr (MemPerWorkerMB j)"
    using FromUnstructured_shape [OF assms(4)] by (auto simp: ray_defaults_def)
  have mem: "1 \<le> sint (MemPerWorkerMB j)" "sint (MemPerWorkerMB j) < 2 ^ 43"
    using memAnnotation_range [OF u(2)] RayLoad_defaults(3) [OF assms(1)] assms(2) by simp_all
  have bytes: "sint (MemPerWorkerMB j * 1048576) = sint (MemPerWorkerMB j) * 1048576"
    using sint_mult64 [of "MemPerWorkerMB j" "1048576"] mem by simp
  obtain head where head: "HeadAddressFor c (TargetCluster j) = Some head"
    using ToWorkerJobSet_InrE [OF assms(5)] by blast
  let ?ct = "workerContainer j c head"
  have pods: "map (\<lambda>r. (rj_replicas r, jt_parallelism (rj_template r), p_containers (jt_pod (rj_template r))))
      (js_replicated js) = [(Workers j, Some 1, [?ct])]"
    using assms(5) head by (auto simp: ToWorkerJobSet_def split: if_splits option.splits)
  have reqs: "c_requests ?ct = rayPodResources c \<lparr>qty_value = CPUsPerWorker j, qty_format = DecimalSI\<rparr>
      \<lparr>qty_value = MemPerWorkerMB j * 1048576, qty_format = BinarySI\<rparr> (GPUsPerWorker j)"
    by (simp add: workerContainer_def Let_def)
  have ne: "WorkerGPUResourceName (Worker c) \<noteq> ''cpu''" "WorkerGPUResourceName (Worker c) \<noteq> ''memory''"
    using assms(3) by blast+
  have req: "requested ?ct ''cpu'' = Some (sint (CPUsPerWorker j))"
    "requested ?ct ''memory'' = Some (sint (MemPerWorkerMB j) * 2 ^ 20)"
    "requested ?ct (WorkerGPUResourceName (Worker c)) =
        (if 0 < sint (GPUsPerWorker j) then Some (sint (GPUsPerWorker j)) else None)"
    unfolding requested_def reqs
    using ne rayPodResources_lookup [of c] by (simp_all add: bytes)
  have cmd: "c_command ?ct = [''/bin/bash'', ''-lc'', workerStartCommand j head]"
    by (simp add: workerContainer_def Let_def)
  show ?thesis unfolding workerStartCommand_def dec_i64_def sless_sint
    using pods req cmd u(1) mem(1)
    by (intro exI [of _ ?ct] exI [of _ head]) (simp only: workerStartCommand_def dec_i64_def sless_sint signed_0 simp_thms)
qed

definition example_rayjob :: unstructured where
  "example_rayjob =
     \<lparr>u_name = ''job-a'', u_namespace = ''ray'', u_uid = ''uid-1'',
      u_annotations = [(PoolAnnotation, ''batch''), (WorkersAnnotation, dec_int 3), (WorkerGPUsAnnotation, dec_int 2)],
      u_clusterSelector = [(clusterSelectorKey, ''shared'')], u_suspend = False, u_entrypoint = ''python x.py'',
      u_entrypointResources = [], u_jobStatus = [], u_jobDeploymentStatus = []\<rparr>"

definition parsed_rayjob :: rayjob where
  "parsed_rayjob =
     \<lparr>rj_Name = ''job-a'', rj_Namespace = ''ray'', rj_UID = ''uid-1'', TargetCluster = ''shared'', Suspended = False,
      Entrypoint = ''python x.py'', Workers = 3, CPUsPerWorker = 1, GPUsPerWorker = 2, MemPerWorkerMB = 1024,
      rj_Pool = ''batch'', rj_LocalQueue = [], RequiredTopology = [], JobStatus = [], DeploymentStatus = []\<rparr>"

lemma example_parsed: "FromUnstructured qv (Some example_rayjob) (ray_defaults twice_mapped) = Inr parsed_rayjob"
proof -
  have "ParseInt (TrimSpace (dec_int 3)) 64 = Some 3" "ParseInt (TrimSpace (dec_int 2)) 64 = Some 2"
    by (rule parse_printed_int; simp)+
  then show ?thesis
    by (simp add: FromUnstructured_def Let_def example_rayjob_def parsed_rayjob_def ray_defaults_def twice_mapped_def
        intAnnotation_def memAnnotation_def value_of_def clampToInt32_def sless_sint
        PoolAnnotation_def WorkersAnnotation_def WorkerCPUsAnnotation_def WorkerGPUsAnnotation_def
        WorkerMemoryAnnotation_def LocalQueueAnnotation_def RequiredTopologyAnnotation_def clusterSelectorKey_def)
qed

lemma example_scope:
  "IsInnerWorkload parsed_rayjob" "HeadAddressFor twice_mapped (TargetCluster parsed_rayjob) = Some ''head:6379''"
  "RayPriorityClassFor twice_mapped (rj_Pool parsed_rayjob) = Some ''low''" "\<not> RayIsTerminal parsed_rayjob"
  by (simp_all add: parsed_rayjob_def twice_mapped_def IsInnerWorkload_def HeadAddressFor_def RayPriorityClassFor_def
      RayIsTerminal_def)

end
