(* ===== verification/Object_Shape.thy ===== *)
theory Object_Shape imports
  Ray_Translate
begin

text \<open>
  What the API server and the JobSet controller demand of a JobSet before they accept it, and that
  the two translations deliver it: names, labels, counts, deadlines, volumes, resources.
\<close>

section \<open>Names and labels\<close>

definition dns_end :: "char \<Rightarrow> bool" where
  "dns_end c \<longleftrightarrow> is_digit c \<or> (97 \<le> byte c \<and> byte c \<le> 122)"

text \<open>A DNS label of RFC 1123.\<close>

definition dns_label :: "string \<Rightarrow> bool" where
  "dns_label s \<longleftrightarrow> s \<noteq> [] \<and> length s \<le> 63 \<and> list_all (\<lambda>c. dns_end c \<or> c = CHR ''-'') s \<and> dns_end (hd s) \<and> dns_end (last s)"

definition value_end :: "char \<Rightarrow> bool" where
  "value_end c \<longleftrightarrow> dns_end c \<or> (65 \<le> byte c \<and> byte c \<le> 90)"

definition label_value :: "string \<Rightarrow> bool" where
  "label_value s \<longleftrightarrow> length s \<le> 63 \<and> list_all (\<lambda>c. value_end c \<or> c \<in> set ''-_.'') s
     \<and> (if s = [] then True else value_end (hd s) \<and> value_end (last s))"

section \<open>JobSets\<close>

definition well_formed_container :: "pod_spec \<Rightarrow> container \<Rightarrow> bool" where
  "well_formed_container p ct \<longleftrightarrow> dns_label (c_name ct) \<and> c_requests ct = c_limits ct
     \<and> distinct (map fst (c_requests ct)) \<and> list_all (\<lambda>r. 0 \<le> sint (qty_value (snd r))) (c_requests ct)
     \<and> distinct (map fst (c_env ct))
     \<and> list_all (\<lambda>vm. List.member (map fst (p_volumes p)) (vm_name vm)) (c_mounts ct)"

definition well_formed_pod :: "pod_spec \<Rightarrow> bool" where
  "well_formed_pod p \<longleftrightarrow> p_containers p \<noteq> [] \<and> distinct (map fst (p_volumes p))
     \<and> list_all (\<lambda>v. dns_label (fst v)) (p_volumes p) \<and> list_all (well_formed_container p) (p_containers p)"

text \<open>The names of the pods, without the five random characters and the dash that the job controller appends.\<close>

definition pod_names :: "string \<Rightarrow> replicated_job \<Rightarrow> string list" where
  "pod_names jobset r = concat (map (\<lambda>i. map (\<lambda>k. jobset @ ''-'' @ rj_name r @ ''-'' @ dec i @ ''-'' @ dec k)
     [0..<(case jt_parallelism (rj_template r) of None \<Rightarrow> 1 | Some n \<Rightarrow> nat (sint n))]) [0..<nat (sint (rj_replicas r))])"

definition well_formed_job :: "string \<Rightarrow> replicated_job \<Rightarrow> bool" where
  "well_formed_job jobset r \<longleftrightarrow>
     list_all (\<lambda>p. dns_label p \<and> length p + 6 \<le> 63) (pod_names jobset r)
     \<and> jt_completions (rj_template r) = jt_parallelism (rj_template r)
     \<and> (case jt_parallelism (rj_template r) of None \<Rightarrow> True | Some n \<Rightarrow> 0 < sint n)
     \<and> (case jt_deadline (rj_template r) of None \<Rightarrow> True | Some n \<Rightarrow> 0 < sint n)
     \<and> distinct (map fst (jt_pod_labels (rj_template r))) \<and> list_all (\<lambda>l. label_value (snd l)) (jt_pod_labels (rj_template r))
     \<and> well_formed_pod (jt_pod (rj_template r))"

definition well_formed_jobset :: "jobset \<Rightarrow> bool" where
  "well_formed_jobset d \<longleftrightarrow> dns_label (js_name d) \<and> distinct (map fst (js_labels d))
     \<and> list_all (\<lambda>l. label_value (snd l)) (js_labels d)
     \<and> js_replicated d \<noteq> [] \<and> distinct (map rj_name (js_replicated d)) \<and> list_all (well_formed_job (js_name d)) (js_replicated d)"

section \<open>Lemmas on names\<close>

lemma length_dec: "n < 10 ^ k \<Longrightarrow> 0 < k \<Longrightarrow> length (dec n) \<le> k"
proof (induction n arbitrary: k rule: dec.induct)
  case (1 n)
  show ?case
  proof (cases "n < 10")
    case True
    then show ?thesis using "1.prems" by (subst dec.simps) simp
  next
    case False
    obtain j where j: "k = Suc j" using "1.prems" by (cases k) auto
    then have k: "k = Suc j" "0 < j" using "1.prems" False by (cases j; simp)+
    then have "n div 10 < 10 ^ j" using "1.prems"(1) by (simp add: less_mult_imp_div_less mult.commute)
    then have "length (dec (n div 10)) \<le> j" using "1.IH" [OF False _ k(2)] by blast
    then show ?thesis using False k by (subst dec.simps) simp
  qed
qed

lemma dns_end_digit [simp]: "is_digit c \<Longrightarrow> dns_end c"
  by (simp add: dns_end_def)

lemma dns_dec: "list_all (\<lambda>c. dns_end c \<or> c = CHR ''-'') (dec n)" "dns_end (last (dec n))"
proof -
  have d: "list_all is_digit (dec n)" by simp
  then show "list_all (\<lambda>c. dns_end c \<or> c = CHR ''-'') (dec n)" by (auto simp: list_all_iff)
  have "last (dec n) \<in> set (dec n)" by (intro last_in_set) simp
  then show "dns_end (last (dec n))" using d by (auto simp: list_all_iff)
qed

text \<open>A name that starts well, goes on well, and ends in a number.\<close>

lemma dns_label_dec:
  assumes "list_all (\<lambda>c. dns_end c \<or> c = CHR ''-'') p" "p \<noteq> []" "dns_end (hd p)" "length p + length (dec n) \<le> 63"
  shows "dns_label (p @ dec n)"
  using assms dns_dec [of n] by (simp add: dns_label_def)

lemma dns_label_value: "dns_label s \<Longrightarrow> label_value s"
  by (auto simp: dns_label_def label_value_def value_end_def list_all_iff)

lemma label_value_dec: "length (dec n) \<le> 63 \<Longrightarrow> label_value (dec n)"
proof -
  have "dns_end (hd (dec n))" using dec_digits [of n] dec_not_Nil [of n] by (cases "dec n") auto
  then show "length (dec n) \<le> 63 \<Longrightarrow> label_value (dec n)"
    using dns_dec [of n] by (intro dns_label_value) (simp add: dns_label_def)
qed

lemma length_dec_u64: "length (dec_u64 i) \<le> 20"
  unfolding dec_u64_def using unsigned_less [of i, where ?'a = nat] by (intro length_dec) simp_all

lemma length_dec_i32: "k < nat (sint (n :: i32)) \<Longrightarrow> length (dec k) \<le> 10"
  using sint_lt [of n] by (intro length_dec) simp_all

section \<open>The JobSets of Slurm jobs\<close>

lemma dns_JobSetName: "dns_label (JobSetName i)" "length (JobSetName i) \<le> 30"
proof -
  show "dns_label (JobSetName i)" unfolding JobSetName_def dec_u64_def
    using length_dec_u64 [of i] by (intro dns_label_dec) (simp_all add: dec_u64_def dns_end_def is_digit_def byte_def)
  show "length (JobSetName i) \<le> 30" using length_dec_u64 [of i] by (simp add: JobSetName_def)
qed

lemma dns_NodeName:
  assumes "k < nat (sint (n :: i32))"
  shows "dns_label (NodeName i k) \<and> length (NodeName i k) + 6 \<le> 63"
proof -
  note len = dns_JobSetName(2) [of i] length_dec_i32 [OF assms]
  have p: "list_all (\<lambda>c. dns_end c \<or> c = CHR ''-'') (JobSetName i)" "JobSetName i \<noteq> []" "dns_end (hd (JobSetName i))"
    using dns_JobSetName(1) [of i] by (auto simp: dns_label_def list_all_iff)
  have "dns_label ((JobSetName i @ ''-workers-0-'') @ dec k)"
    by (rule dns_label_dec) (use p len in \<open>simp_all add: dns_end_def is_digit_def byte_def\<close>)
  then show ?thesis using len by (simp add: NodeName_def workersReplicatedJobName_def)
qed

lemma podResources_distinct: "distinct (map fst (podResources c cpu mem gpus))"
  by (simp add: podResources_def Let_def distinct_update del: AList.update.simps)

text \<open>The bytes that one pod requests are counted in 63 bits; then its CPUs are, too.\<close>

definition sizes_fit :: "job \<Rightarrow> bool" where
  "sizes_fit j \<longleftrightarrow> uint (MemPerCPUMB j) * uint (CPUs j) * uint (snd (podShape j)) * 2 ^ 20 < 2 ^ 63"

lemma uint_mult64:
  assumes "uint (a :: i64) * uint b < 2 ^ 63"
  shows "uint (a * b) = uint a * uint b"
  using assms by (simp add: uint_word_ariths(3) mod_pos_pos_trivial)

lemma sint_small64: "uint (a :: i64) < 2 ^ 63 \<Longrightarrow> 0 \<le> sint a"
  by (simp add: sint_uint signed_take_bit_nonneg)

lemma quantities_nonneg:
  assumes "sizes_fit j"
  shows "0 \<le> sint (qty_value (cpuQuantity j))" "0 \<le> sint (qty_value (memQuantity j))"
proof -
  let ?m = "uint (MemPerCPUMB j)" and ?c = "uint (CPUs j)" and ?t = "uint (snd (podShape j))"
  have pos: "1 \<le> ?m" "0 \<le> ?c" "1 \<le> ?t"
    by (auto simp: MemPerCPUMB_def podShape_tasks TasksPerNodeOrDefault_def word_less_def)
  have mc: "0 \<le> ?m * ?c" "0 \<le> ?c * ?t" "0 \<le> ?m * ?c * ?t" using pos by simp_all
  have all: "?m * ?c * ?t * 2 ^ 20 < 2 ^ 63" using assms unfolding sizes_fit_def .
  have "x * 2 ^ 20 < 2 ^ 63 \<Longrightarrow> x < 2 ^ 43" for x :: int by simp
  from this [OF all] have mct: "?m * ?c * ?t < 2 ^ 43" .
  have "?m * ?c * 1 \<le> ?m * ?c * ?t" by (rule mult_left_mono [OF pos(3) mc(1)])
  then have u1: "uint (MemPerCPUMB j * CPUs j) = ?m * ?c" using mct by (intro uint_mult64) simp
  have u2: "uint (MemPerCPUMB j * CPUs j * snd (podShape j)) = ?m * ?c * ?t"
    using uint_mult64 [of "MemPerCPUMB j * CPUs j" "snd (podShape j)"] mct by (simp add: u1)
  have "uint (MemPerCPUMB j * CPUs j * snd (podShape j) * 2 ^ 20) = ?m * ?c * ?t * 2 ^ 20"
    using uint_mult64 [of "MemPerCPUMB j * CPUs j * snd (podShape j)" "2 ^ 20"] all by (simp add: u2)
  then have "uint (qty_value (memQuantity j)) < 2 ^ 63" using all by (simp add: memQuantity_def)
  then show "0 \<le> sint (qty_value (memQuantity j))" by (rule sint_small64)
  have "1 * (?c * ?t) \<le> ?m * (?c * ?t)" by (rule mult_right_mono [OF pos(1) mc(2)])
  then have "?c * ?t < 2 ^ 63" using mct by (simp add: mult.assoc)
  then have "uint (qty_value (cpuQuantity j)) < 2 ^ 63" using uint_mult64 [of "CPUs j" "snd (podShape j)"] by (simp add: cpuQuantity_def)
  then show "0 \<le> sint (qty_value (cpuQuantity j))" by (rule sint_small64)
qed

lemma podResources_nonneg:
  assumes "0 \<le> sint (qty_value cpu)" "0 \<le> sint (qty_value mem)"
  shows "list_all (\<lambda>r. 0 \<le> sint (qty_value (snd r))) (podResources c cpu mem gpus)"
  using assms by (auto simp: podResources_def Let_def sless_sint)

lemma dec_zero: "dec 0 = ''0''"
  by (simp add: dec.simps digit_def) code_simp

lemma fixed_values: "label_value (dec_u64 i)" "label_value ManagedByValue"
proof -
  show "label_value (dec_u64 i)" unfolding dec_u64_def
    using length_dec_u64 [of i] by (intro label_value_dec) (simp add: dec_u64_def)
  show "label_value ManagedByValue"
    by (simp add: ManagedByValue_def label_value_def value_end_def dns_end_def is_digit_def byte_def)
qed

lemma slurmd_pod: "sizes_fit j \<Longrightarrow> well_formed_pod (podSpec j c)"
  unfolding well_formed_pod_def well_formed_container_def podSpec_def withExclusive_def withGPU_def withSharedStorage_def
    on_container_def basePod_def slurmdContainer_def Let_def
  by (auto simp: podResources_distinct podResources_nonneg quantities_nonneg gpuEnv_def dns_label_def dns_end_def is_digit_def byte_def split: option.split)

lemma jobSetLabels_values:
  assumes "label_value (LocalQueueFor c (Partition j))" "label_value pc" "label_value (WorkloadMixingName c)"
  shows "distinct (map fst (jobSetLabels j c pc)) \<and> list_all (\<lambda>l. label_value (snd l)) (jobSetLabels j c pc)"
  using assms fixed_values(1) [of "JobID j"] fixed_values(2) by (simp add: jobSetLabels_def Let_def) (simp add: label_names)

lemma pod_names_slurm:
  "rj_name r = workersReplicatedJobName \<Longrightarrow> rj_replicas r = 1 \<Longrightarrow> jt_parallelism (rj_template r) = Some n \<Longrightarrow>
     pod_names (JobSetName i) r = NodeNames i n"
  by (simp add: pod_names_def NodeNames_def NodeName_def) (simp add: dec_zero)

lemma activeDeadline_pos:
  assumes "uint (nv_number (TimeLimit j)) < 2 ^ 56"
  shows "case activeDeadline j of None \<Rightarrow> True | Some n \<Rightarrow> 0 < sint n"
proof -
  have "0 \<le> uint (nv_number (TimeLimit j))" by simp
  then have "0 < 60 * uint (nv_number (TimeLimit j)) + max 300 (60 * uint (nv_number (TimeLimit j)) div 10)" by linarith
  then show ?thesis using deadline_outlives_time_limit [OF assms] by (auto split: option.splits)
qed

text \<open>A resource may have a name that is no label value; then nothing its bridge creates is accepted.\<close>

lemma long_resource_name_breaks_labels:
  assumes "ToJobSet j c = Inr d" "63 < length (WorkloadMixingName c)"
  shows "\<not> well_formed_jobset d"
proof -
  obtain pc where "js_labels d = jobSetLabels j c pc" by (rule ToJobSet_InrE [OF assms(1)])
  then have "map_of (js_labels d) WorkloadMixingLabel = Some (WorkloadMixingName c)"
    using assms(2) by (simp add: map_of_jobSetLabels) (auto simp: label_names)
  then have "(WorkloadMixingLabel, WorkloadMixingName c) \<in> set (js_labels d)" by (rule map_of_SomeD)
  moreover have "\<not> label_value (WorkloadMixingName c)" using assms(2) by (simp add: label_value_def)
  ultimately show ?thesis by (force simp: well_formed_jobset_def list_all_iff)
qed

section \<open>The JobSets of RayJobs\<close>

lemma rayPodResources_distinct: "distinct (map fst (rayPodResources c cpu mem gpus))"
  by (simp add: rayPodResources_def Let_def distinct_update del: AList.update.simps)

lemma rayPodResources_nonneg:
  assumes "0 \<le> sint (qty_value cpu)" "0 \<le> sint (qty_value mem)"
  shows "list_all (\<lambda>r. 0 \<le> sint (qty_value (snd r))) (rayPodResources c cpu mem gpus)"
  using assms by (auto simp: rayPodResources_def Let_def sless_sint)

lemma pod_names_ray:
  "rj_name r = workersReplicatedJobName \<Longrightarrow> rj_replicas r = Workers job \<Longrightarrow> jt_parallelism (rj_template r) = Some 1 \<Longrightarrow>
     pod_names (WorkerJobSetName job) r = WorkerPodNames job"
proof -
  have "concat (map (\<lambda>i. [f i]) xs) = map f xs" for f :: "nat \<Rightarrow> string" and xs by (induction xs) simp_all
  then show "rj_name r = workersReplicatedJobName \<Longrightarrow> rj_replicas r = Workers job \<Longrightarrow> jt_parallelism (rj_template r) = Some 1 \<Longrightarrow>
     pod_names (WorkerJobSetName job) r = WorkerPodNames job"
    by (simp add: pod_names_def WorkerPodNames_def dec_zero)
qed

lemma ToWorkerJobSet_job:
  assumes "ToWorkerJobSet job cfg = Inr d"
  obtains r where "js_replicated d = [r]" "js_name d = WorkerJobSetName job" "rj_name r = workersReplicatedJobName"
    "rj_replicas r = Workers job" "jt_parallelism (rj_template r) = Some 1" "jt_completions (rj_template r) = Some 1"
    "jt_deadline (rj_template r) = None" "jt_pod_labels (rj_template r) = [(RayJobUIDLabel, rj_UID job)]"
    "0 \<le> sint (CPUsPerWorker job) \<Longrightarrow> 0 \<le> sint (MemPerWorkerMB job * 2 ^ 20) \<Longrightarrow> well_formed_pod (jt_pod (rj_template r))"
    "map fst (js_labels d) = [RayManagedByLabel, RayJobLabel, RayJobUIDLabel, queueNameLabel, priorityClassLabel]"
    "map snd (js_labels d) = [RayManagedByValue, rj_Name job, rj_UID job, RayLocalQueueFor cfg (rj_Pool job) (rj_LocalQueue job),
       the (RayPriorityClassFor cfg (rj_Pool job))]"
proof -
  have "well_formed_pod \<lparr>p_restart = ''Never'', p_containers = [workerContainer job cfg h], p_volumes = [],
      p_tolerations = [], p_anti_affinity = []\<rparr>"
    if "0 \<le> sint (CPUsPerWorker job)" "0 \<le> sint (MemPerWorkerMB job * 2 ^ 20)" for h
    using that rayPodResources_nonneg [of "\<lparr>qty_value = CPUsPerWorker job, qty_format = DecimalSI\<rparr>"
        "\<lparr>qty_value = MemPerWorkerMB job * 2 ^ 20, qty_format = BinarySI\<rparr>" cfg]
    by (simp add: well_formed_pod_def well_formed_container_def workerContainer_def Let_def rayPodResources_distinct
        rayWorkerContainerName_def dns_label_def dns_end_def is_digit_def byte_def)
  then show ?thesis using assms by (intro that [of "hd (js_replicated d)"]) (auto simp: ToWorkerJobSet_def split: if_splits option.splits)
qed

lemma dns_worker_pod:
  assumes "dns_label (rj_Name job)" "length (rj_Name job) + k \<le> 34" "i < 10 ^ k" "0 < k"
  shows "dns_label (WorkerJobSetName job @ ''-workers-'' @ dec i @ ''-0'') \<and>
    length (WorkerJobSetName job @ ''-workers-'' @ dec i @ ''-0'') + 6 \<le> 63"
proof -
  have "length (dec i) \<le> k" using length_dec assms(3,4) by blast
  then show ?thesis using assms(1,2) dns_dec [of i]
    by (simp add: WorkerJobSetName_def WorkerJobSetPrefix_def dns_label_def dns_end_def is_digit_def byte_def)
qed

text \<open>The worker JobSet of a RayJob with a short enough name, and of one with a long name.\<close>

lemma worker_jobset_is_well_formed:
  assumes "ToWorkerJobSet job cfg = Inr d" "0 < sint (Workers job)" "sint (Workers job) \<le> 10 ^ k" "0 < k"
    and "dns_label (rj_Name job)" "length (rj_Name job) + k \<le> 34" "label_value (rj_UID job)"
    and "label_value (RayLocalQueueFor cfg (rj_Pool job) (rj_LocalQueue job))" "label_value (the (RayPriorityClassFor cfg (rj_Pool job)))"
    and "0 \<le> sint (CPUsPerWorker job)" "0 \<le> sint (MemPerWorkerMB job)" "sint (MemPerWorkerMB job) < 2 ^ 43"
  shows "well_formed_jobset d"
  using assms(1)
proof (rule ToWorkerJobSet_job)
  fix r
  assume r: "js_replicated d = [r]" "js_name d = WorkerJobSetName job" "rj_name r = workersReplicatedJobName"
    "rj_replicas r = Workers job" "jt_parallelism (rj_template r) = Some 1" "jt_completions (rj_template r) = Some 1"
    "jt_deadline (rj_template r) = None" "jt_pod_labels (rj_template r) = [(RayJobUIDLabel, rj_UID job)]"
    and pod: "0 \<le> sint (CPUsPerWorker job) \<Longrightarrow> 0 \<le> sint (MemPerWorkerMB job * 2 ^ 20) \<Longrightarrow> well_formed_pod (jt_pod (rj_template r))"
    and keys: "map fst (js_labels d) = [RayManagedByLabel, RayJobLabel, RayJobUIDLabel, queueNameLabel, priorityClassLabel]"
    and vals: "map snd (js_labels d) = [RayManagedByValue, rj_Name job, rj_UID job,
       RayLocalQueueFor cfg (rj_Pool job) (rj_LocalQueue job), the (RayPriorityClassFor cfg (rj_Pool job))]"
  have bytes: "0 \<le> sint (MemPerWorkerMB job * 2 ^ 20)"
    using sint_mult64 [of "MemPerWorkerMB job" "2 ^ 20"] assms(11,12) by simp
  have "i < 10 ^ k" if "i < nat (sint (Workers job))" for i
  proof -
    have "int i < 10 ^ k" using that assms(3) by linarith
    then have "int i < int (10 ^ k)" by simp
    then show ?thesis by (simp only: of_nat_less_iff)
  qed
  then have "list_all (\<lambda>p. dns_label p \<and> length p + 6 \<le> 63) (WorkerPodNames job)"
    using dns_worker_pod [OF assms(5,6) _ assms(4)] by (auto simp: WorkerPodNames_def list_all_iff workersReplicatedJobName_def)
  then have job: "well_formed_job (WorkerJobSetName job) r"
    using r assms(7,10) pod bytes by (simp add: well_formed_job_def pod_names_ray)
  have "label_value RayManagedByValue"
    by (simp add: RayManagedByValue_def label_value_def value_end_def dns_end_def is_digit_def byte_def)
  then have "list_all label_value (map snd (js_labels d))"
    unfolding vals using assms(5,7-9) by (simp add: dns_label_value)
  moreover have "distinct (map fst (js_labels d))" unfolding keys by (simp add: ray_label_names)
  moreover have "dns_label (WorkerJobSetName job)"
    using assms(4-6) by (simp add: WorkerJobSetName_def WorkerJobSetPrefix_def dns_label_def dns_end_def is_digit_def byte_def)
  ultimately show ?thesis
    using r(1,2) job by (simp add: well_formed_jobset_def list_all_iff)
qed

lemma long_rayjob_name_breaks_pods:
  assumes "ToWorkerJobSet job cfg = Inr d" "0 < sint (Workers job)" "33 < length (rj_Name job)"
  shows "\<not> well_formed_jobset d"
  using assms(1)
proof (rule ToWorkerJobSet_job)
  fix r
  assume r: "js_replicated d = [r]" "js_name d = WorkerJobSetName job" "rj_name r = workersReplicatedJobName"
    "rj_replicas r = Workers job" "jt_parallelism (rj_template r) = Some 1"
  define p where "p = WorkerJobSetName job @ ''-workers-'' @ dec 0 @ ''-0''"
  have "p \<in> set (WorkerPodNames job)"
    unfolding p_def using assms(2) by (auto simp: WorkerPodNames_def workersReplicatedJobName_def intro!: image_eqI [of _ _ 0])
  moreover have "63 < length p + 6"
    using assms(3) by (simp add: p_def WorkerJobSetName_def WorkerJobSetPrefix_def dec_zero)
  ultimately have "\<not> well_formed_job (WorkerJobSetName job) r"
    using r by (force simp: well_formed_job_def pod_names_ray list_all_iff)
  then show ?thesis using r by (simp add: well_formed_jobset_def)
qed

section \<open>Properties\<close>

text \<open>C9: what the bridge creates is well-formed, for every configuration whose queue, priority class and
  resource names are label values, and every job whose time limit is below \<open>2 ^ 56\<close> minutes and the bytes
  of whose pods are counted in 63 bits. The names of the JobSet and of its pods fit with every suffix, counts
  and deadline are positive, no quantity is negative, requests equal limits, every mount has its volume,
  every label its value.\<close>

theorem created_jobset_is_well_formed:
  assumes "ToJobSet j c = Inr d" "PriorityClassFor c (Partition j) = Some pc"
    and "label_value (LocalQueueFor c (Partition j))" "label_value pc" "label_value (WorkloadMixingName c)"
    and "uint (nv_number (TimeLimit j)) < 2 ^ 56" "sizes_fit j"
  shows "well_formed_jobset d"
proof -
  let ?r = "hd (js_replicated d)"
  have d: "js_replicated d = [?r]" "js_name d = JobSetName (JobID j)" "js_labels d = jobSetLabels j c pc"
    and r: "rj_name ?r = workersReplicatedJobName" "rj_replicas ?r = 1" "jt_parallelism (rj_template ?r) = Some (PodCount j)"
      "jt_completions (rj_template ?r) = Some (PodCount j)" "jt_deadline (rj_template ?r) = activeDeadline j"
      "jt_pod_labels (rj_template ?r) = [(SlurmJobIDLabel, dec_u64 (JobID j)), (ManagedByLabel, ManagedByValue)]"
      "jt_pod (rj_template ?r) = podSpec j c"
    using assms(1,2) by (auto simp: ToJobSet_def PodCount_def)
  have "list_all (\<lambda>p. dns_label p \<and> length p + 6 \<le> 63) (NodeNames (JobID j) (PodCount j))"
    using dns_NodeName by (auto simp: NodeNames_def list_all_iff)
  moreover have "distinct (map fst (jt_pod_labels (rj_template ?r)))" by (simp add: r label_names)
  ultimately have "well_formed_job (JobSetName (JobID j)) ?r"
    using activeDeadline_pos [OF assms(6)] slurmd_pod [OF assms(7), of c] sint_PodCount_pos [of j] fixed_values(1) [of "JobID j"] fixed_values(2)
    by (simp add: well_formed_job_def r pod_names_slurm)
  then show ?thesis
    using dns_JobSetName(1) [of "JobID j"] jobSetLabels_values [OF assms(3-5)] d
    by (metis (no_types, lifting) list.map(1) list.map(2) distinct_singleton list.pred_inject list.distinct(1) well_formed_jobset_def)
qed

theorem created_jobset_is_well_formed_witness: "well_formed_jobset example_jobset"
  by (rule created_jobset_is_well_formed [OF example_jobset, of "''high''"])
    (simp_all add: sizes_fit_def podShape_tasks MemPerCPUMB_def CPUs_def TasksPerNodeOrDefault_def Nodes_def
      clampUint64ToInt32_def example_job_simps PriorityClassFor_def LocalQueueFor_def example_config_def label_value_def value_end_def
      dns_end_def is_digit_def byte_def)

end
