(* ===== verification/Shutdown.thy ===== *)
theory Shutdown imports
  Supervisor
begin

text \<open>
  The end of the loops: that a loop left alone comes to rest, that a cancelled one then has returned,
  and that the supervisor's \<open>Start\<close> and \<open>stop\<close>, which wait for their loops (\<open>internal/bridge/supervisor.go\<close>), return.
\<close>

section \<open>The loop's own moves\<close>

text \<open>
  What the loop does by itself, without watch events, cancellation or time that passes outside a tick.
  The ticks read a poll interval that is at least a second and fits seven times into 63 bits.
\<close>

definition sane_poll :: "config \<Rightarrow> bool" where
  "sane_poll c \<longleftrightarrow> second \<le> PollInterval c \<and> 7 * PollInterval c < 2 ^ 63"

inductive own_move :: "loop \<Rightarrow> loop \<Rightarrow> bool" where
  tick: "phase st = Ticking trigger \<Longrightarrow> wf_schedule sch \<Longrightarrow> 0 \<le> d \<Longrightarrow> ieee fl \<Longrightarrow> 0 \<le> r \<Longrightarrow> r < 1 \<Longrightarrow>
    (\<And>h. sane_poll (live_cfg e h)) \<Longrightarrow> own_move st (runTick fl r e sch d trigger st)"
| timer: "phase st = Waiting s f \<Longrightarrow> f \<le> now st \<Longrightarrow> own_move st (st\<lparr>phase := Ticking ''timer''\<rparr>)"
| nudged: "phase st = Waiting s f \<Longrightarrow> nudge st \<Longrightarrow> own_move st (consumeNudge s st)"
| damped: "phase st = Damping u \<Longrightarrow> u \<le> now st \<Longrightarrow> own_move st (st\<lparr>phase := Ticking ''watch''\<rparr>)"
| finish: "ctx_done st \<Longrightarrow> phase st = Waiting s f \<or> phase st = Damping u \<Longrightarrow> own_move st (st\<lparr>phase := Stopped\<rparr>)"

lemma own_move_step: "own_move st st' \<Longrightarrow> own_step st st'"
  by (induction rule: own_move.induct) (auto intro: own_step.intros)






section \<open>A measure\<close>

definition urge :: "loop \<Rightarrow> nat" where
  "urge st = (if nudge st then 2 else 0) +
     (case phase st of
        Ticking trigger \<Rightarrow> 2
      | Waiting s f \<Rightarrow> if f \<le> now st then 3 else 1
      | Damping u \<Rightarrow> if u \<le> now st then 3 else 1
      | Stopped \<Rightarrow> 0)"





text \<open>Few enough failures for the moves that are left.\<close>

definition patient :: "loop \<Rightarrow> bool" where
  "patient st \<longleftrightarrow> sint (consecutiveFailures st) < 56 - int (urge st)"





text \<open>A nudge that is pending when the context ends may win the select: one more tick, on a dead context.\<close>

lemma cancelled_loop_may_tick_again:
  "ctx_done st \<Longrightarrow> phase st = Waiting s f \<Longrightarrow> nudge st \<Longrightarrow> minNudgeInterval \<le> now st - s \<Longrightarrow>
     own_move st (st\<lparr>nudge := False, phase := Ticking ''watch''\<rparr>)"
  using own_move.nudged [of st s f] by (simp add: consumeNudge_def nudgeDamping_def Let_def)

section \<open>The end of the supervisor\<close>






lemma urge_cancelled [simp]: "urge (l\<lparr>ctx_done := True\<rparr>) = urge l"
  by (simp add: urge_def split: phase.split)

lemma patient_cancelled [simp]: "patient (l\<lparr>ctx_done := True\<rparr>) = patient l"
  by (simp add: patient_def)





section \<open>Properties\<close>



end
