(* ===== verification/Controller_Main.thy ===== *)
theory Controller_Main imports
  Supervisor
begin

text \<open>
  The decisions of the two programs' entry points (\<open>cmd/k8s-bridge/main.go\<close>, \<open>cmd/ray-bridge/main.go\<close>):
  the mode and what it binds to, the checks that stop a start, and the small parsers of the flags.
  The start itself is in \<open>Startup\<close>, the servers and the end in \<open>Process_End\<close>.
\<close>

section \<open>The mode\<close>

datatype controllerMode = modeFile | modeSingleCR | modeSupervisor

definition mode_String :: "controllerMode \<Rightarrow> string" where
  "mode_String m = (case m of modeSingleCR \<Rightarrow> ''single-cr'' | modeSupervisor \<Rightarrow> ''supervisor'' | modeFile \<Rightarrow> ''file'')"

text \<open>\<open>None\<close> is the error.\<close>

definition resolveMode :: "string \<Rightarrow> string \<Rightarrow> controllerMode option" where
  "resolveMode configSource workloadMixing =
     (if workloadMixing \<noteq> [] then Some modeSingleCR
      else if configSource = ''file'' then Some modeFile
      else if configSource = ''cr'' then Some modeSupervisor
      else None)"

text \<open>\<open>strings.Cut\<close> at the first slash.\<close>

fun cut_slash :: "string \<Rightarrow> (string \<times> string) option" where
  "cut_slash [] = None"
| "cut_slash (c # cs) = (if c = CHR ''/'' then Some ([], cs)
     else case cut_slash cs of None \<Rightarrow> None | Some (a, b) \<Rightarrow> Some (c # a, b))"

text \<open>What the process binds to; \<open>None\<close> ends it with an error.\<close>

datatype binding = BindFile | BindResource string string | BindNamespace string

definition bindTarget :: "string \<Rightarrow> string \<Rightarrow> string \<Rightarrow> binding option" where
  "bindTarget configSource workloadMixing podNamespace =
     (case resolveMode configSource workloadMixing of
        None \<Rightarrow> None
      | Some modeSingleCR \<Rightarrow> map_option (\<lambda>(ns, n). BindResource ns n) (cut_slash workloadMixing)
      | Some modeSupervisor \<Rightarrow> if podNamespace = [] then None else Some (BindNamespace podNamespace)
      | Some modeFile \<Rightarrow> Some BindFile)"

definition leaderElectionNamespace :: "string \<Rightarrow> string \<Rightarrow> string" where
  "leaderElectionNamespace podNamespace wmNamespace =
     (if podNamespace \<noteq> [] then podNamespace else if wmNamespace \<noteq> [] then wmNamespace else ''default'')"

text \<open>The namespaces of the cache; the empty list is all of them.\<close>

definition cacheScopedToNamespace :: "string list \<Rightarrow> string list" where
  "cacheScopedToNamespace namespaces = remdups (filter (\<lambda>ns. ns \<noteq> []) namespaces)"

section \<open>Flags\<close>

definition splitAndTrim :: "string \<Rightarrow> string list" where
  "splitAndTrim s = filter (\<lambda>p. p \<noteq> []) (map TrimSpace (Split_char CHR '','' s))"

datatype level = LevelDebug | LevelInfo | LevelWarn | LevelError

definition parseLogLevel :: "string \<Rightarrow> level" where
  "parseLogLevel s =
     (let l = ToLower (TrimSpace s) in
      if l = ''debug'' then LevelDebug
      else if l = ''warn'' \<or> l = ''warning'' then LevelWarn
      else if l = ''error'' then LevelError
      else LevelInfo)"

text \<open>
  \<open>fl\<close> rounds to \<open>float64\<close>. The second check is ray-bridge's; \<open>int\<close> of a positive float cuts off, and
  the comparison stops at the first disjunct otherwise.
\<close>

definition validKubeRateLimits :: "(rat \<Rightarrow> rat) \<Rightarrow> rat \<Rightarrow> int \<Rightarrow> bool" where
  "validKubeRateLimits fl qps burst \<longleftrightarrow> qps > 0 \<and> fl (of_int burst) \<ge> qps"

definition rayRateLimitsAccepted :: "rat \<Rightarrow> int \<Rightarrow> bool" where
  "rayRateLimitsAccepted qps burst \<longleftrightarrow> \<not> (qps \<le> 0 \<or> burst < \<lfloor>qps\<rfloor>)"

definition isBridgeOwnedJobSet :: "jobset \<Rightarrow> bool" where
  "isBridgeOwnedJobSet js \<longleftrightarrow> label_of js ''k8s-bridge.x-k8s.io/managed-by'' = ''k8s-bridge''"

section \<open>The image gate at startup\<close>

text \<open>\<open>None\<close> for the configuration is supervisor mode; the result tells whether the process goes on.\<close>

definition imageGate :: "string list \<Rightarrow> config option \<Rightarrow> bool" where
  "imageGate allowlist cfg =
     (if allowlist = [] then True
      else case cfg of None \<Rightarrow> True
           | Some c \<Rightarrow> ValidateImageAllowed (Image (Slurmd c)) allowlist = None)"

section \<open>Watch events\<close>

text \<open>
  \<open>NudgeReconciler\<close> of \<open>internal/bridge/watch.go\<close>: an event wakes the one bridge, or every bridge the
  supervisor runs, here by the state of its loop; the request itself is not looked at.
\<close>

datatype nudge_target = OneBridge loop | AllBridges "(cr_key \<times> loop) list"

definition NudgeAll :: "(cr_key \<times> loop) list \<Rightarrow> (cr_key \<times> loop) list" where
  "NudgeAll loops = map (\<lambda>(k, l). (k, Nudge l)) loops"

definition nudgeReconcile :: "cr_key \<Rightarrow> nudge_target \<Rightarrow> nudge_target" where
  "nudgeReconcile req target =
     (case target of AllBridges loops \<Rightarrow> AllBridges (NudgeAll loops) | OneBridge l \<Rightarrow> OneBridge (Nudge l))"

section \<open>Lemmas\<close>

lemma NudgeAll_lookup: "map_of (NudgeAll loops) k = map_option Nudge (map_of loops k)"
  by (induction loops) (auto simp: NudgeAll_def)

lemma splitAndTrim_entries: "p \<in> set (splitAndTrim s) \<Longrightarrow> p \<noteq> [] \<and> (\<exists>q. CHR '','' \<notin> set q \<and> p = TrimSpace q)"
  by (auto simp: splitAndTrim_def dest: Split_char_no_sep)

lemma cut_slash_Some: "cut_slash s = Some (a, b) \<Longrightarrow> s = a @ CHR ''/'' # b \<and> CHR ''/'' \<notin> set a"
  by (induction s arbitrary: a) (auto split: if_splits option.splits)

text \<open>The nudge filter spells out the translation's label; every JobSet of a bridge passes it.\<close>

lemma isBridgeOwnedJobSet_label: "isBridgeOwnedJobSet js \<longleftrightarrow> label_of js ManagedByLabel = ManagedByValue"
  by (simp add: isBridgeOwnedJobSet_def ManagedByLabel_def ManagedByValue_def)

section \<open>Properties\<close>

text \<open>C31: the image allowlist does not survive a reload. In single-resource mode the process refuses to
  start with a configuration whose slurmd image is not on the allowlist, but an edit of the resource
  after the start installs such a configuration, and every slurmd pod created from then on runs the
  image; the supervisor refuses the same spec.\<close>

theorem reload_skips_the_image_allowlist:
  assumes "cr_get e (rl_log st) own = Inr wm" "FromCR (rounding e) (scheme_of e) wm = Inr cfg"
    and "\<not> imageGate allowlist (Some cfg)" "AllowedSlurmdImages opts = allowlist"
  shows "rl_cfg (fst (Reload e own own st)) = cfg \<and> \<not> imageGate allowlist (Some (rl_cfg (fst (Reload e own own st))))
    \<and> (\<exists>ct. slurmdContainer j (rl_cfg (fst (Reload e own own st))) = ct \<and> c_image ct = Image (Slurmd cfg))
    \<and> (\<exists>err. buildConfig opts e wm = Inl err)"
proof -
  have "rl_cfg (fst (Reload e own own st)) = cfg"
    using assms(1,2) by (simp add: Reload_def LoadConfigFromCR_def)
  moreover have "\<exists>err. buildConfig opts e wm = Inl err"
    using assms(2-4) by (auto simp: buildConfig_def imageGate_def split: if_splits)
  ultimately show ?thesis using assms(3) by (simp add: slurmdContainer_def Let_def)
qed

theorem reload_skips_the_image_allowlist_witness:
  "imageGate [''ghcr.io/trusted/''] (Some (example_config\<lparr>Slurmd := (Slurmd example_config)\<lparr>Image := ''ghcr.io/trusted/slurmd''\<rparr>\<rparr>))
   \<and> Image (Slurmd (rl_cfg (fst (Reload calm_cr (''slurm-jobs'', ''mixing'') (''slurm-jobs'', ''mixing'')
       \<lparr>rl_cfg = example_config\<lparr>Slurmd := (Slurmd example_config)\<lparr>Image := ''ghcr.io/trusted/slurmd''\<rparr>\<rparr>,
        rl_writer = Some new_writer, rl_log = []\<rparr>)))) = ''ghcr.io/slurmd''"
proof -
  let ?st = "\<lparr>rl_cfg = example_config\<lparr>Slurmd := (Slurmd example_config)\<lparr>Image := ''ghcr.io/trusted/slurmd''\<rparr>\<rparr>,
        rl_writer = Some new_writer, rl_log = []\<rparr>"
  have get: "cr_get calm_cr (rl_log ?st) (''slurm-jobs'', ''mixing'') = Inr (as_resource ''mixing'' 4 example_config)"
    by (simp add: calm_cr_def)
  have conv: "FromCR (rounding calm_cr) (scheme_of calm_cr) (as_resource ''mixing'' 4 example_config) = Inr example_config"
    using FromCR_as_resource [of example_config "rounding calm_cr" "scheme_of calm_cr" "''mixing''" 4]
    by (simp add: calm_cr_def example_valid example_defaults) (simp add: example_config_def second_def)
  have img: "Image (Slurmd example_config) = ''ghcr.io/slurmd''" by (simp add: example_config_def)
  have "\<not> imageGate [''ghcr.io/trusted/''] (Some example_config)"
    by (simp add: imageGate_def img ValidateImageAllowed_def HasPrefix_def)
  from reload_skips_the_image_allowlist [OF get conv this, of "strict_options\<lparr>AllowedSlurmdImages := [''ghcr.io/trusted/'']\<rparr>"]
  have "rl_cfg (fst (Reload calm_cr (''slurm-jobs'', ''mixing'') (''slurm-jobs'', ''mixing'') ?st)) = example_config"
    by simp
  then show ?thesis by (simp add: img imageGate_def ValidateImageAllowed_def HasPrefix_def)
qed

text \<open>Ray-bridge accepts a burst below the request rate. Its check cuts off the rate's fraction
  before the comparison, so beyond what the Slurm side accepts it lets through exactly the pairs
  whose burst lies between the rate and its integral part.\<close>

lemma ray_accepts_burst_below_rate:
  assumes "fl (of_int burst) = of_int burst"
  shows "rayRateLimitsAccepted qps burst \<longleftrightarrow>
    validKubeRateLimits fl qps burst \<or> (0 < qps \<and> \<lfloor>qps\<rfloor> \<le> burst \<and> of_int burst < qps)"
proof -
  have "\<lfloor>qps\<rfloor> \<le> burst" if "qps \<le> of_int burst" using floor_mono [OF that] by simp
  then show ?thesis unfolding rayRateLimitsAccepted_def validKubeRateLimits_def assms by force
qed

end
