(* ===== verification/Startup.thy ===== *)
theory Startup imports
  Slurm_Client
  Controller_Main
begin

text \<open>
  The start of k8s-bridge (\<open>main\<close> of \<open>cmd/k8s-bridge/main.go\<close>): from the flags to the process that
  waits for its manager. Every \<open>os.Exit\<close> is an error, in the order in which the source checks; what
  Kubernetes, the file system and the network answer is a \<open>start_world\<close>.
\<close>

section \<open>Errors and answers\<close>

datatype file_error = ReadFailed error | ParseFailed error | Invalid config_error

datatype exit_error =
    SchemeFailed string error | NoKubeconfig error | BadRateLimits | NoBinding | NoBootstrapClient error
  | BadResource load_error | BadFile file_error | ManagerFailed error | ImageRefused
  | WiringFailed string error | NoSlurmClient error | NoListener error

record start_flags =
  fl_config :: string
  fl_workloadMixing :: string
  fl_configSource :: string
  fl_allowedImages :: string
  fl_allowedTokenPaths :: string
  fl_allowInsecureTLS :: bool
  fl_kubeQPS :: rat
  fl_kubeBurst :: int
  fl_metricsAddr :: string
  fl_leaderElect :: bool
  fl_leaseDuration :: int
  fl_renewDeadline :: int
  fl_logLevel :: string
  fl_pprofAddr :: string

record start_world =
  register :: "string \<Rightarrow> error option"
  kubeconfig :: "error option"
  bootstrap_client :: "error option"
  read_file :: "string \<Rightarrow> error + string"
  parse_yaml :: "string \<Rightarrow> error + config"
  has_certs :: "string \<Rightarrow> bool"
  resources :: cr_env
  new_manager :: "error option"
  wiring :: "string \<Rightarrow> error option"
  listen :: "string \<Rightarrow> error option"
  POD_NAMESPACE :: string
  to_float64 :: "rat \<Rightarrow> rat"
  to_float32 :: "rat \<Rightarrow> rat"

text \<open>
  The started process: what it is bound to, what its manager, its logger and its profiler were given, and either one bridge with its
  configuration, its client and the resource it reports to, or the options of a supervisor.
\<close>

record process =
  pr_binding :: binding
  pr_QPS :: rat
  pr_Burst :: int
  pr_cache :: "string list"
  pr_cacheUnstructured :: bool
  pr_leaderElect :: bool
  pr_lease :: string
  pr_leaseDuration :: int
  pr_renewDeadline :: int
  pr_level :: level
  pr_pprof :: "string option"
  pr_config :: "config option"
  pr_client :: "client option"
  pr_resource :: "cr_key option"
  pr_supervisor :: "sv_options option"
  pr_metrics :: "string option"

section \<open>Sequencing\<close>

definition and_then :: "'e + 'a \<Rightarrow> ('a \<Rightarrow> 'e + 'b) \<Rightarrow> 'e + 'b" where
  "and_then r k = (case r of Inl e \<Rightarrow> Inl e | Inr a \<Rightarrow> k a)"

definition unless_error :: "(error \<Rightarrow> 'e) \<Rightarrow> error option \<Rightarrow> 'e + unit" where
  "unless_error wrap err = (case err of None \<Rightarrow> Inr () | Some e \<Rightarrow> Inl (wrap e))"

definition unless_refused :: "'e \<Rightarrow> bool \<Rightarrow> 'e + unit" where
  "unless_refused err accepted = (if accepted then Inr () else Inl err)"

lemma and_then_Inr [simp]: "and_then r k = Inr b \<longleftrightarrow> (\<exists>a. r = Inr a \<and> k a = Inr b)"
  by (auto simp: and_then_def split: sum.split)

lemma unless_error_Inr [simp]: "unless_error wrap err = Inr u \<longleftrightarrow> err = None"
  by (simp add: unless_error_def split: option.split)

lemma unless_refused_Inr [simp]: "unless_refused err accepted = Inr u \<longleftrightarrow> accepted"
  by (simp add: unless_refused_def)

section \<open>The configuration\<close>

definition LoadFile :: "(string \<Rightarrow> error + string) \<Rightarrow> (string \<Rightarrow> error + config) \<Rightarrow> (string \<Rightarrow> string option) \<Rightarrow> string \<Rightarrow>
    file_error + config" where
  "LoadFile read parse url_scheme path =
     (case read path of
        Inl err \<Rightarrow> Inl (ReadFailed (Wrap ''reading config'' err))
      | Inr raw \<Rightarrow>
     (case parse raw of
        Inl err \<Rightarrow> Inl (ParseFailed (Wrap ''parsing config'' err))
      | Inr parsed \<Rightarrow> (case Load url_scheme parsed of Inl err \<Rightarrow> Inl (Invalid err) | Inr cfg \<Rightarrow> Inr cfg)))"

definition bootstrapConfig :: "start_world \<Rightarrow> start_flags \<Rightarrow> binding \<Rightarrow> exit_error + config option" where
  "bootstrapConfig w fl b =
     (case b of
        BindResource ns n \<Rightarrow>
          and_then (unless_error NoBootstrapClient (bootstrap_client w)) (\<lambda>_.
            case LoadConfigFromCR (resources w) (ns, n) [] of
              (_, Inl err) \<Rightarrow> Inl (BadResource err)
            | (_, Inr cfg) \<Rightarrow> Inr (Some cfg))
      | BindFile \<Rightarrow>
          (case LoadFile (read_file w) (parse_yaml w) (scheme_of (resources w)) (fl_config fl) of
             Inl err \<Rightarrow> Inl (BadFile err)
           | Inr cfg \<Rightarrow> Inr (Some cfg))
      | BindNamespace ns \<Rightarrow> Inr None)"

section \<open>Wiring\<close>

definition slurmOptions :: "config \<Rightarrow> slurm_options" where
  "slurmOptions c =
     \<lparr>o_BaseURL = SlurmRestURL c, o_User = SlurmUser c, o_TokenFile = SlurmTokenFile c, o_CACertFile = SlurmCACertFile c,
      o_InsecureSkipVerify = SlurmInsecureSkipTLSVerify c, o_RequestTimeout = SlurmRequestTimeout c,
      o_RequestsPerSecond = SlurmRequestsPerSecond c\<rparr>"

text \<open>\<open>Supervisor.ConflictRetryInterval\<close> is left at its zero value.\<close>

definition supervisorOptions :: "start_world \<Rightarrow> start_flags \<Rightarrow> sv_options" where
  "supervisorOptions w fl =
     \<lparr>sv_namespace = POD_NAMESPACE w, AllowedSlurmdImages = splitAndTrim (fl_allowedImages fl),
      AllowInsecureTLS = fl_allowInsecureTLS fl, AllowedTokenPaths = splitAndTrim (fl_allowedTokenPaths fl),
      ConflictRetryInterval = 0\<rparr>"

definition wireSupervisor :: "start_world \<Rightarrow> start_flags \<Rightarrow> process \<Rightarrow> exit_error + process" where
  "wireSupervisor w fl p =
     and_then (unless_error (WiringFailed ''workloadmixing-supervisor'') (wiring w ''workloadmixing-supervisor'')) (\<lambda>_.
     and_then (unless_error (WiringFailed ''supervisor'') (wiring w ''supervisor'')) (\<lambda>_.
     Inr (p\<lparr>pr_supervisor := Some (supervisorOptions w fl)\<rparr>)))"

text \<open>One bridge: only a bound resource has a writer for its condition and is watched for edits.\<close>

definition wireBridge :: "start_world \<Rightarrow> binding \<Rightarrow> config \<Rightarrow> process \<Rightarrow> exit_error + process" where
  "wireBridge w b cfg p =
     (case NewClient (read_file w) (has_certs w) (slurmOptions cfg) of
        Inl err \<Rightarrow> Inl (NoSlurmClient err)
      | Inr cl \<Rightarrow>
          and_then (case b of
              BindResource ns n \<Rightarrow> and_then (unless_error (WiringFailed ''workloadmixing-hot-reload'') (wiring w ''workloadmixing-hot-reload''))
                (\<lambda>_. Inr (p\<lparr>pr_resource := Some (ns, n)\<rparr>))
            | _ \<Rightarrow> Inr p) (\<lambda>p1.
          and_then (unless_error (WiringFailed ''bridge'') (wiring w ''bridge'')) (\<lambda>_.
          Inr (p1\<lparr>pr_config := Some cfg, pr_client := Some cl\<rparr>))))"

definition wireNudges :: "start_world \<Rightarrow> exit_error + unit" where
  "wireNudges w =
     and_then (unless_error (WiringFailed ''jobset-nudge'') (wiring w ''jobset-nudge'')) (\<lambda>_.
       unless_error (WiringFailed ''workload-nudge'') (wiring w ''workload-nudge''))"

definition startMetricsServer :: "start_world \<Rightarrow> string \<Rightarrow> exit_error + string option" where
  "startMetricsServer w addr =
     (if addr = [] then Inr None
      else case listen w addr of
          Some err \<Rightarrow> Inl (NoListener (Wrap (''binding metrics/health listener on '' @ addr) err))
        | None \<Rightarrow> Inr (Some addr))"

section \<open>The start\<close>

definition connect :: "start_world \<Rightarrow> start_flags \<Rightarrow> exit_error + unit" where
  "connect w fl =
     and_then (unless_error (SchemeFailed ''core'') (register w ''core'')) (\<lambda>_.
     and_then (unless_error (SchemeFailed ''jobset'') (register w ''jobset'')) (\<lambda>_.
     and_then (unless_error (SchemeFailed ''workloadmixing'') (register w ''workloadmixing'')) (\<lambda>_.
     and_then (unless_error NoKubeconfig (kubeconfig w)) (\<lambda>_.
     unless_refused BadRateLimits (validKubeRateLimits (to_float64 w) (fl_kubeQPS fl) (fl_kubeBurst fl))))))"

definition managerOptions :: "start_world \<Rightarrow> start_flags \<Rightarrow> binding \<Rightarrow> config option \<Rightarrow> process" where
  "managerOptions w fl b cfg =
     \<lparr>pr_binding = b, pr_QPS = to_float32 w (fl_kubeQPS fl), pr_Burst = fl_kubeBurst fl,
      pr_cache = cacheScopedToNamespace (POD_NAMESPACE w # (case cfg of None \<Rightarrow> [] | Some c \<Rightarrow> [Namespace c])),
      pr_cacheUnstructured = False, pr_leaderElect = fl_leaderElect fl,
      pr_lease = leaderElectionNamespace (POD_NAMESPACE w) (case b of BindResource ns n \<Rightarrow> ns | _ \<Rightarrow> []),
      pr_leaseDuration = fl_leaseDuration fl, pr_renewDeadline = fl_renewDeadline fl,
      pr_level = parseLogLevel (fl_logLevel fl), pr_pprof = (if fl_pprofAddr fl = [] then None else Some (fl_pprofAddr fl)),
      pr_config = None, pr_client = None, pr_resource = None, pr_supervisor = None, pr_metrics = None\<rparr>"

definition wire :: "start_world \<Rightarrow> start_flags \<Rightarrow> binding \<Rightarrow> config option \<Rightarrow> exit_error + process" where
  "wire w fl b cfg =
     (case cfg of
        None \<Rightarrow> wireSupervisor w fl (managerOptions w fl b cfg)
      | Some c \<Rightarrow> wireBridge w b c (managerOptions w fl b cfg))"

definition startup :: "start_world \<Rightarrow> start_flags \<Rightarrow> exit_error + process" where
  "startup w fl =
     and_then (connect w fl) (\<lambda>_.
     and_then (case bindTarget (fl_configSource fl) (fl_workloadMixing fl) (POD_NAMESPACE w) of
         None \<Rightarrow> Inl NoBinding | Some b \<Rightarrow> Inr b) (\<lambda>b.
     and_then (bootstrapConfig w fl b) (\<lambda>cfg.
     and_then (unless_error ManagerFailed (new_manager w)) (\<lambda>_.
     and_then (unless_refused ImageRefused (imageGate (splitAndTrim (fl_allowedImages fl)) cfg)) (\<lambda>_.
     and_then (wire w fl b cfg) (\<lambda>p.
     and_then (wireNudges w) (\<lambda>_.
     and_then (startMetricsServer w (fl_metricsAddr fl)) (\<lambda>m.
     Inr (p\<lparr>pr_metrics := m\<rparr>)))))))))"

text \<open>
  The end: the manager's result, with whether the context was cancelled before it, or a failure of the
  metrics server, whichever comes first.
\<close>

datatype ending = ManagerDone "error option" bool | MetricsServerFailed error

definition exitCode :: "ending \<Rightarrow> int" where
  "exitCode en =
     (case en of
        ManagerDone err cancelled \<Rightarrow> if err \<noteq> None \<and> \<not> cancelled then 1 else 0
      | MetricsServerFailed err \<Rightarrow> 1)"

section \<open>Lemmas\<close>

lemma LoadFile_Inr:
  "LoadFile read parse url_scheme path = Inr cfg \<longleftrightarrow>
     (\<exists>raw parsed. read path = Inr raw \<and> parse raw = Inr parsed \<and> Load url_scheme parsed = Inr cfg)"
  by (auto simp: LoadFile_def split: sum.split)

lemma Load_accepted: "Load url_scheme parsed = Inr cfg \<Longrightarrow> Validate url_scheme cfg = None"
  by (auto simp: Load_def Let_def split: option.splits)

lemma accepted_namespace: "Validate url_scheme c = None \<Longrightarrow> Namespace c \<noteq> []"
  by (auto simp: Validate_def)

lemma bootstrapConfig_accepted:
  "bootstrapConfig w fl b = Inr (Some c) \<Longrightarrow> Validate (scheme_of (resources w)) c = None"
  by (auto simp: bootstrapConfig_def LoadConfigFromCR_def LoadFile_Inr Load_accepted elim: FromCR_InrE
      split: binding.splits sum.splits)

lemma bootstrapConfig_resource:
  "bootstrapConfig w fl (BindResource ns n) = Inr (Some c) \<Longrightarrow>
     \<exists>wm. cr_get (resources w) [] (ns, n) = Inr wm \<and> FromCR (rounding (resources w)) (scheme_of (resources w)) wm = Inr c"
  by (auto simp: bootstrapConfig_def LoadConfigFromCR_def split: sum.splits)

lemma bootstrapConfig_None: "bootstrapConfig w fl b = Inr None \<longleftrightarrow> (\<exists>ns. b = BindNamespace ns)"
  by (auto simp: bootstrapConfig_def LoadConfigFromCR_def split: binding.splits sum.splits)

lemma bindTarget_namespace: "bindTarget cs wm ns = Some (BindNamespace ns') \<Longrightarrow> ns' = ns \<and> ns \<noteq> []"
  by (auto simp: bindTarget_def split: option.splits controllerMode.splits if_splits)

lemma cacheScopedToNamespace_member: "ns \<in> set (cacheScopedToNamespace nss) \<longleftrightarrow> ns \<in> set nss \<and> ns \<noteq> []"
  by (auto simp: cacheScopedToNamespace_def)

lemma startup_InrE:
  assumes "startup w fl = Inr p"
  obtains (bridge) b c cl where
      "bindTarget (fl_configSource fl) (fl_workloadMixing fl) (POD_NAMESPACE w) = Some b"
      "bootstrapConfig w fl b = Inr (Some c)" "imageGate (splitAndTrim (fl_allowedImages fl)) (Some c)"
      "NewClient (read_file w) (has_certs w) (slurmOptions c) = Inr cl"
      "pr_binding p = b" "pr_config p = Some c" "pr_client p = Some cl" "pr_supervisor p = None"
      "pr_resource p = (case b of BindResource ns n \<Rightarrow> Some (ns, n) | _ \<Rightarrow> None)"
      "pr_cache p = cacheScopedToNamespace [POD_NAMESPACE w, Namespace c]"
    | (supervisor) "bindTarget (fl_configSource fl) (fl_workloadMixing fl) (POD_NAMESPACE w) = Some (BindNamespace (POD_NAMESPACE w))"
      "POD_NAMESPACE w \<noteq> []" "pr_binding p = BindNamespace (POD_NAMESPACE w)" "pr_config p = None" "pr_resource p = None"
      "pr_supervisor p = Some (supervisorOptions w fl)" "pr_cache p = cacheScopedToNamespace [POD_NAMESPACE w]"
      "pr_lease p = POD_NAMESPACE w"
proof -
  from assms obtain b cfg q m where
    b: "bindTarget (fl_configSource fl) (fl_workloadMixing fl) (POD_NAMESPACE w) = Some b"
    and cfg: "bootstrapConfig w fl b = Inr cfg" "imageGate (splitAndTrim (fl_allowedImages fl)) cfg"
    and q: "wire w fl b cfg = Inr q"
    and p: "p = q\<lparr>pr_metrics := m\<rparr>"
    by (auto simp: startup_def split: option.splits)
  show ?thesis
  proof (cases cfg)
    case None
    with cfg(1) obtain ns where "b = BindNamespace ns" by (auto simp: bootstrapConfig_None)
    with bindTarget_namespace b have "b = BindNamespace (POD_NAMESPACE w)" "POD_NAMESPACE w \<noteq> []" by blast+
    with None q p b show ?thesis
      by (intro supervisor) (auto simp: wire_def wireSupervisor_def managerOptions_def leaderElectionNamespace_def)
  next
    case (Some c)
    then obtain cl where cl: "NewClient (read_file w) (has_certs w) (slurmOptions c) = Inr cl"
      using q by (auto simp: wire_def wireBridge_def split: sum.splits)
    show ?thesis
      by (rule bridge [of b c cl]) (use b cfg cl q p Some in \<open>auto simp: wire_def wireBridge_def managerOptions_def split: binding.splits\<close>)
  qed
qed

lemma supervisorOptions_simps [simp]:
  "sv_namespace (supervisorOptions w fl) = POD_NAMESPACE w"
  "AllowedSlurmdImages (supervisorOptions w fl) = splitAndTrim (fl_allowedImages fl)"
  by (simp_all add: supervisorOptions_def)

text \<open>
  The configurations covered: with one bridge the configuration of the start (a \<open>Reload\<close> of the bound
  resource is not covered, and skips the image gate; see \<open>Controller_Main\<close>), with a supervisor every
  configuration that it runs, after any history of starts and hot reloads.
\<close>

definition starts_with :: "process \<Rightarrow> config \<Rightarrow> bool" where
  "starts_with p c \<longleftrightarrow>
     (case pr_supervisor p of
        None \<Rightarrow> pr_config p = Some c
      | Some opts \<Rightarrow> (\<exists>st k rb. sv_run opts st \<and> map_of (running st) k = Some rb \<and> rb_cfg rb = c))"

lemma startup_vets:
  assumes "startup w fl = Inr p" "starts_with p c"
  shows "imageGate (splitAndTrim (fl_allowedImages fl)) (Some c) \<and> Namespace c \<in> set (pr_cache p)"
  using assms(1)
proof (cases rule: startup_InrE)
  case (bridge b c' cl)
  then have "c' = c" using assms(2) by (simp add: starts_with_def)
  then show ?thesis
    using bridge accepted_namespace [OF bootstrapConfig_accepted [OF bridge(2)]]
    by (simp add: cacheScopedToNamespace_member)
next
  case supervisor
  then obtain st k rb where "sv_run (supervisorOptions w fl) st" "map_of (running st) k = Some rb" "rb_cfg rb = c"
    using assms(2) by (auto simp: starts_with_def)
  then have "sound_entry (supervisorOptions w fl) k rb" "rb_cfg rb = c" by (auto intro: running_sound)
  then have "vetted (supervisorOptions w fl) k c" "fst k = POD_NAMESPACE w"
    by (auto simp: sound_entry_def)
  then show ?thesis
    using supervisor by (auto simp: vetted_def imageGate_def ValidateImageAllowed_def cacheScopedToNamespace_member split: if_splits)
qed

text \<open>The images of a JobSet.\<close>

definition images :: "jobset \<Rightarrow> string list" where
  "images js = concat (map (\<lambda>r. map c_image (p_containers (jt_pod (rj_template r)))) (js_replicated js))"

lemma podSpec_images: "map c_image (p_containers (podSpec j c)) = [Image (Slurmd c)]"
  by (simp add: podSpec_def withExclusive_def withGPU_def withSharedStorage_def on_container_def basePod_def
      slurmdContainer_def Let_def split: option.split)

lemma ToJobSet_images: "ToJobSet j c = Inr d \<Longrightarrow> images d = [Image (Slurmd c)] \<and> js_namespace d = Namespace c"
  by (auto simp: ToJobSet_def images_def podSpec_images split: option.splits)

section \<open>A concrete start\<close>

definition calm_world :: start_world where
  "calm_world = \<lparr>register = (\<lambda>_. None), kubeconfig = None, bootstrap_client = None, read_file = (\<lambda>_. Inr ''text''),
     parse_yaml = (\<lambda>_. Inr example_config), has_certs = (\<lambda>_. True), resources = calm_cr, new_manager = None,
     wiring = (\<lambda>_. None), listen = (\<lambda>_. None), POD_NAMESPACE = ''bridge-system'', to_float64 = (\<lambda>x. x),
     to_float32 = (\<lambda>x. x)\<rparr>"

definition file_flags :: start_flags where
  "file_flags = \<lparr>fl_config = ''bridge.yaml'', fl_workloadMixing = [], fl_configSource = ''file'',
     fl_allowedImages = ''docker.io/slurm/,ghcr.io/'', fl_allowedTokenPaths = [], fl_allowInsecureTLS = False,
     fl_kubeQPS = 20, fl_kubeBurst = 40, fl_metricsAddr = '':8080'', fl_leaderElect = True,
     fl_leaseDuration = 15 * second, fl_renewDeadline = 10 * second, fl_logLevel = ''info'', fl_pprofAddr = []\<rparr>"

lemma file_flags_images: "splitAndTrim (fl_allowedImages file_flags) = [''docker.io/slurm/'', ''ghcr.io/'']"
proof -
  have "Split_char CHR '','' ''docker.io/slurm/,ghcr.io/'' = [''docker.io/slurm/'', ''ghcr.io/'']" by code_simp
  then show ?thesis by (simp add: splitAndTrim_def file_flags_def TrimSpace_graphic graphic_def byte_def)
qed

lemma example_scheme: "scheme_of calm_cr = (\<lambda>_. Some ''https'')"
  by (simp add: calm_cr_def)

definition file_process :: process where
  "file_process = (managerOptions calm_world file_flags BindFile (Some example_config))
     \<lparr>pr_config := Some example_config, pr_client := Some (projr (NewClient (read_file calm_world) (has_certs calm_world) (slurmOptions example_config))),
      pr_metrics := Some '':8080''\<rparr>"

lemma file_start: "startup calm_world file_flags = Inr file_process"
proof -
  have "imageGate [''docker.io/slurm/'', ''ghcr.io/''] (Some example_config)"
    by (simp add: imageGate_def ValidateImageAllowed_def HasPrefix_def example_config_def)
  moreover have "bindTarget (fl_configSource file_flags) (fl_workloadMixing file_flags) ns = Some BindFile" for ns
    by (simp add: bindTarget_def resolveMode_def file_flags_def)
  moreover have "bootstrapConfig calm_world file_flags BindFile = Inr (Some example_config)"
    by (simp add: bootstrapConfig_def LoadFile_def Load_def calm_world_def example_scheme example_valid example_defaults)
  moreover have "connect calm_world file_flags = Inr ()" "wireNudges calm_world = Inr ()" "new_manager calm_world = None"
    "startMetricsServer calm_world (fl_metricsAddr file_flags) = Inr (Some '':8080'')"
    by (simp_all add: connect_def wireNudges_def startMetricsServer_def calm_world_def file_flags_def validKubeRateLimits_def)
  moreover have "wire calm_world file_flags BindFile (Some example_config) = Inr (file_process\<lparr>pr_metrics := None\<rparr>)"
    by (simp add: wire_def wireBridge_def file_process_def NewClient_def Let_def slurmOptions_def managerOptions_def calm_world_def
        example_config_def)
  ultimately show ?thesis
    by (simp add: startup_def file_flags_images) (simp add: file_process_def)
qed

section \<open>Properties\<close>

text \<open>C28: the pods of vetted configurations, from the flags to the pod, when the image flag is set. A JobSet
  created under the configuration that a process with one bridge starts with, or under any that a process
  with a supervisor adopts or swaps in later, asks only for images with a prefix from the image flag, and
  lives in a namespace whose objects the process watches. (The reload of a process with one bridge is not
  covered: it may install any image, as C31 shows.)\<close>

theorem every_created_pod_is_vetted:
  assumes "startup w fl = Inr p" "starts_with p c" "ToJobSet j c = Inr d" "List.member (images d) img"
    and "splitAndTrim (fl_allowedImages fl) \<noteq> []"
  shows "list_ex (HasPrefix img) (splitAndTrim (fl_allowedImages fl)) \<and> List.member (pr_cache p) (js_namespace d)"
  using startup_vets [OF assms(1,2)] ToJobSet_images [OF assms(3)] assms(4,5)
  by (auto simp: imageGate_def ValidateImageAllowed_def split: if_splits)

theorem every_created_pod_is_vetted_witness: "List.member (pr_cache file_process) ''slurm-jobs''"
proof -
  have "List.member (pr_cache file_process) (js_namespace example_jobset)"
    by (rule every_created_pod_is_vetted [OF file_start _ example_jobset, of "''ghcr.io/slurmd''", THEN conjunct2])
      (simp_all add: starts_with_def file_process_def managerOptions_def file_flags_images ToJobSet_images [OF example_jobset]
        example_config_def)
  then show ?thesis using ToJobSet_images [OF example_jobset] by (simp add: example_config_def)
qed

end
