(* ===== verification/Ray_Bridge.thy ===== *)
theory Ray_Bridge imports
  Ray_Translate
begin

text \<open>
  \<open>internal/raybridge/reconciler.go\<close>: one reconcile of an inner RayJob, with the bounded retry of a
  failed worker JobSet. As on the Slurm side every call is recorded, newest first, with its outcome,
  and the world is a record of answer functions over that history.
\<close>

section \<open>The world\<close>

type_synonym ray_key = "string \<times> string"

datatype ray_call =
    GetRayJob ray_key | GetWorkers ray_key | CreateWorkers jobset | DeleteWorkers ray_key
  | UpdateRayJob unstructured | RayEvent ray_key string

type_synonym ray_log = "(ray_call \<times> error option) list"

record ray_env =
  ask_rayjob :: "ray_log \<Rightarrow> ray_key \<Rightarrow> error + unstructured"
  ask_workers :: "ray_log \<Rightarrow> ray_key \<Rightarrow> error + jobset"
  ray_ask :: "ray_log \<Rightarrow> ray_call \<Rightarrow> error option"
  ray_recorder :: bool
  quantity_value :: "string \<Rightarrow> i64 option"

record ray_state =
  ray_log :: ray_log
  ray_counters :: "string \<Rightarrow> nat"

definition ray_perform :: "ray_env \<Rightarrow> ray_call \<Rightarrow> ray_state \<Rightarrow> ray_state \<times> error option" where
  "ray_perform e c st = (let r = ray_ask e (ray_log st) c in (st\<lparr>ray_log := (c, r) # ray_log st\<rparr>, r))"

definition ray_inc :: "string \<Rightarrow> ray_state \<Rightarrow> ray_state" where
  "ray_inc m st = st\<lparr>ray_counters := (ray_counters st)(m := ray_counters st m + 1)\<rparr>"

definition u_key :: "unstructured \<Rightarrow> ray_key" where
  "u_key u = (u_namespace u, u_name u)"

definition ray_eventf :: "ray_env \<Rightarrow> unstructured \<Rightarrow> string \<Rightarrow> ray_state \<Rightarrow> ray_state" where
  "ray_eventf e u reason st =
     (if ray_recorder e then st\<lparr>ray_log := (RayEvent (u_key u) reason, None) # ray_log st\<rparr> else st)"

text \<open>\<open>ray.Get\<close>: a RayJob that is not there is no error.\<close>

definition RayGet :: "ray_env \<Rightarrow> ray_key \<Rightarrow> ray_state \<Rightarrow> ray_state \<times> (error + unstructured option)" where
  "RayGet e key st =
     (case ask_rayjob e (ray_log st) key of
        Inl err \<Rightarrow>
          (st\<lparr>ray_log := (GetRayJob key, Some err) # ray_log st\<rparr>,
           if is_kube_not_found err then Inr None else Inl (Wrap ''getting RayJob'' err))
      | Inr u \<Rightarrow> (st\<lparr>ray_log := (GetRayJob key, None) # ray_log st\<rparr>, Inr (Some u)))"

definition get_workers :: "ray_env \<Rightarrow> ray_key \<Rightarrow> ray_state \<Rightarrow> ray_state \<times> (error + jobset)" where
  "get_workers e key st =
     (let r = ask_workers e (ray_log st) key
      in (st\<lparr>ray_log := (GetWorkers key, case r of Inl err \<Rightarrow> Some err | Inr _ \<Rightarrow> None) # ray_log st\<rparr>, r))"

section \<open>The retry budget\<close>

definition WorkerRetriesAnnotation :: string where
  "WorkerRetriesAnnotation = ''ray-bridge.x-k8s.io/worker-retries''"

definition MaxWorkerRetries :: int where
  "MaxWorkerRetries = 3"

text \<open>The counter by the text of the annotation.\<close>

definition retries_in :: "string option \<Rightarrow> int" where
  "retries_in v =
     (case v of
        None \<Rightarrow> 0
      | Some s \<Rightarrow>
          (case ParseInt (TrimSpace s) 64 of
             None \<Rightarrow> MaxWorkerRetries + 1
           | Some n \<Rightarrow> if n < 0 then MaxWorkerRetries + 1 else n))"

definition workerRetries :: "unstructured \<Rightarrow> int" where
  "workerRetries u = retries_in (map_of (u_annotations u) WorkerRetriesAnnotation)"

definition setWorkerRetries :: "ray_env \<Rightarrow> unstructured \<Rightarrow> int \<Rightarrow> ray_state \<Rightarrow> ray_state \<times> error option" where
  "setWorkerRetries e u n st =
     (let u1 = u\<lparr>u_annotations := AList.update WorkerRetriesAnnotation (dec_int n) (u_annotations u)\<rparr>
      in case ray_perform e (UpdateRayJob u1) st of
           (st1, r) \<Rightarrow> (st1, map_option (Wrap ''recording worker-retry count on RayJob'') r))"

definition rayJobSetFailed :: "jobset \<Rightarrow> bool" where
  "rayJobSetFailed js \<longleftrightarrow> condition_true js ''Failed''"

definition retryWorkers :: "ray_env \<Rightarrow> unstructured \<Rightarrow> jobset \<Rightarrow> ray_state \<Rightarrow> ray_state \<times> (error + bool)" where
  "retryWorkers e u js st =
     (let retries = workerRetries u in
      if retries > MaxWorkerRetries then (st, Inr True)
      else
        let st1 = ray_inc ''WorkerJobSetsFailedTotal'' st in
        (case setWorkerRetries e u (retries + 1) st1 of
           (st2, Some err) \<Rightarrow> (st2, Inl err)
         | (st2, None) \<Rightarrow>
             if retries = MaxWorkerRetries then (ray_eventf e u ''WorkerRetriesExhausted'' st2, Inr True)
             else (case ray_perform e (DeleteWorkers (js_namespace js, js_name js)) (ray_eventf e u ''WorkerJobSetFailed'' st2) of
                 (st3, Some err) \<Rightarrow>
                   if is_kube_not_found err then (st3, Inr True)
                   else (st3, Inl (Wrap ''deleting failed worker JobSet'' err))
               | (st3, None) \<Rightarrow> (st3, Inr True))))"

definition handleFailedWorkerJobSet ::
    "ray_env \<Rightarrow> unstructured \<Rightarrow> rayjob \<Rightarrow> string \<Rightarrow> ray_state \<Rightarrow> ray_state \<times> (error + bool)" where
  "handleFailedWorkerJobSet e u job jsName st =
     (case get_workers e (rj_Namespace job, jsName) st of
        (st1, Inl err) \<Rightarrow>
          if is_kube_not_found err then (st1, Inr False)
          else (st1, Inl (Wrap ''checking worker JobSet for a Failed condition'' err))
      | (st1, Inr js) \<Rightarrow>
          if label_of js RayJobUIDLabel \<noteq> rj_UID job then (st1, Inr False)
          else if \<not> rayJobSetFailed js then (st1, Inr False)
          else retryWorkers e u js st1)"

section \<open>Creating and deleting\<close>

definition ensureWorkerJobSet :: "ray_env \<Rightarrow> jobset \<Rightarrow> ray_state \<Rightarrow> ray_state \<times> error option" where
  "ensureWorkerJobSet e desired st =
     (case ray_perform e (CreateWorkers desired) st of
        (st1, None) \<Rightarrow> (ray_inc ''WorkerJobSetsCreatedTotal'' st1, None)
      | (st1, Some err) \<Rightarrow>
          if is_already_exists err then
            (case get_workers e (js_namespace desired, js_name desired) st1 of
               (st2, Inl getErr) \<Rightarrow> (st2, Some (Wrap ''checking existing worker JobSet'' getErr))
             | (st2, Inr existing) \<Rightarrow>
                 if label_of existing RayJobUIDLabel = label_of desired RayJobUIDLabel then (st2, None)
                 else (st2, Some (Msg ''worker JobSet exists for a different RayJob UID (stale/terminating), retrying'')))
          else (st1, Some (Wrap ''creating worker JobSet'' err)))"

definition deleteWorkerJobSet :: "ray_env \<Rightarrow> string \<Rightarrow> string \<Rightarrow> ray_state \<Rightarrow> ray_state \<times> error option" where
  "deleteWorkerJobSet e ns nm st =
     (case ray_perform e (DeleteWorkers (ns, nm)) st of
        (st1, Some err) \<Rightarrow>
          if is_kube_not_found err then (st1, None) else (st1, Some (Wrap ''deleting worker JobSet'' err))
      | (st1, None) \<Rightarrow> (st1, None))"

text \<open>The reference's APIVersion and Kind are those of every RayJob; name and UID are kept.\<close>

definition setOwner :: "jobset \<Rightarrow> unstructured \<Rightarrow> jobset" where
  "setOwner js u = js\<lparr>js_owners := js_owners js @ [(u_name u, u_uid u)]\<rparr>"

section \<open>Reconcile\<close>

definition ray_reconcile :: "ray_env \<Rightarrow> ray_config \<Rightarrow> ray_key \<Rightarrow> ray_state \<Rightarrow> ray_state \<times> error option" where
  "ray_reconcile e cfg req st =
     (case RayGet e req st of
        (st1, Inl err) \<Rightarrow> (st1, Some err)
      | (st1, Inr None) \<Rightarrow> (st1, None)
      | (st1, Inr (Some u)) \<Rightarrow>
     (case FromUnstructured (quantity_value e) (Some u) (ray_defaults cfg) of
        Inl bad \<Rightarrow> (ray_eventf e u ''InvalidSpec'' st1, None)
      | Inr job \<Rightarrow>
          if \<not> IsInnerWorkload job then (st1, None)
          else if HeadAddressFor cfg (TargetCluster job) = None then (st1, None)
          else if RayPriorityClassFor cfg (rj_Pool job) = None then (ray_eventf e u ''UnmanagedPool'' st1, None)
          else if RayIsTerminal job then deleteWorkerJobSet e (fst req) (WorkerJobSetName job) st1
          else (case handleFailedWorkerJobSet e u job (WorkerJobSetName job) st1 of
              (st2, Inl err) \<Rightarrow> (st2, Some err)
            | (st2, Inr True) \<Rightarrow> (st2, None)
            | (st2, Inr False) \<Rightarrow>
                (case ToWorkerJobSet job cfg of
                   Inl bad \<Rightarrow> (ray_eventf e u ''TranslationFailed'' st2, None)
                 | Inr desired \<Rightarrow> ensureWorkerJobSet e (setOwner desired u) st2))))"

definition RayReconcile :: "ray_env \<Rightarrow> ray_config \<Rightarrow> ray_key \<Rightarrow> ray_state \<Rightarrow> ray_state \<times> error option" where
  "RayReconcile e cfg req st =
     (case ray_reconcile e cfg req st of
        (st1, Some err) \<Rightarrow> (ray_inc ''ReconcileErrorsTotal'' st1, Some err)
      | (st1, None) \<Rightarrow> (st1, None))"

definition mapJobSetToRayJob :: "jobset \<Rightarrow> ray_key list" where
  "mapJobSetToRayJob js =
     (if label_of js RayManagedByLabel \<noteq> RayManagedByValue then []
      else case RayJobNameFromJobSet (js_name js) of None \<Rightarrow> [] | Some n \<Rightarrow> [(js_namespace js, n)])"

section \<open>The budget over a log\<close>

text \<open>What the last successful update left in the annotation, and what it allows.\<close>

fun stored :: "ray_key \<Rightarrow> ray_log \<Rightarrow> string option" where
  "stored key [] = None"
| "stored key ((c, r) # lg) =
     (case c of
        UpdateRayJob u \<Rightarrow>
          if r = None \<and> u_key u = key then map_of (u_annotations u) WorkerRetriesAnnotation else stored key lg
      | _ \<Rightarrow> stored key lg)"

definition spent :: "ray_key \<Rightarrow> ray_log \<Rightarrow> int" where
  "spent key lg = retries_in (stored key lg)"

definition workers_of :: "ray_key \<Rightarrow> ray_key" where
  "workers_of key = (fst key, WorkerJobSetPrefix @ snd key)"

definition deletions :: "ray_key \<Rightarrow> ray_log \<Rightarrow> int" where
  "deletions key lg = int (length (filter (\<lambda>en. fst en = DeleteWorkers (workers_of key)) lg))"

definition exhaustions :: "ray_key \<Rightarrow> ray_log \<Rightarrow> int" where
  "exhaustions key lg = int (length (filter (\<lambda>en. fst en = RayEvent key ''WorkerRetriesExhausted'') lg))"

definition within_budget :: "ray_key \<Rightarrow> ray_log \<Rightarrow> bool" where
  "within_budget key lg \<longleftrightarrow> 0 \<le> spent key lg \<and> spent key lg \<le> 4
     \<and> deletions key lg \<le> spent key lg \<and> deletions key lg \<le> 3
     \<and> exhaustions key lg \<le> (if spent key lg = 4 then 1 else 0)"

lemma workers_of_eq [simp]: "workers_of k = workers_of l \<longleftrightarrow> k = l"
  by (auto simp: workers_of_def worker_jobset_name.name_eq_iff prod_eq_iff)

lemma retries_in_dec: "0 \<le> n \<Longrightarrow> n < 2 ^ 63 \<Longrightarrow> retries_in (Some (dec_int n)) = n"
  by (simp add: retries_in_def parse_printed_int)

lemma deletions_Cons [simp]:
  "deletions k ((c, r) # lg) = deletions k lg + (if c = DeleteWorkers (workers_of k) then 1 else 0)"
  by (simp add: deletions_def)

lemma exhaustions_Cons [simp]:
  "exhaustions k ((c, r) # lg) = exhaustions k lg + (if c = RayEvent k ''WorkerRetriesExhausted'' then 1 else 0)"
  by (simp add: exhaustions_def)

definition neutral :: "ray_call \<Rightarrow> bool" where
  "neutral c \<longleftrightarrow> (case c of
     DeleteWorkers _ \<Rightarrow> False | UpdateRayJob _ \<Rightarrow> False | RayEvent _ reason \<Rightarrow> reason \<noteq> ''WorkerRetriesExhausted''
   | _ \<Rightarrow> True)"

lemma within_budget_neutral: "neutral c \<Longrightarrow> within_budget k ((c, r) # lg) = within_budget k lg"
  by (auto simp: neutral_def within_budget_def spent_def split: ray_call.splits)

lemma within_budget_Nil: "within_budget k []"
  by (simp add: within_budget_def spent_def retries_in_def deletions_def exhaustions_def)

lemma within_budget_event [simp]:
  "reason \<noteq> ''WorkerRetriesExhausted'' \<Longrightarrow>
     within_budget k (ray_log (ray_eventf e u reason st)) = within_budget k (ray_log st)"
  by (simp add: ray_eventf_def within_budget_neutral neutral_def)

lemma ray_inc_log [simp]: "ray_log (ray_inc m st) = ray_log st"
  by (simp add: ray_inc_def)

lemma ray_eventf_log:
  "ray_log (ray_eventf e u reason st) =
     (if ray_recorder e then (RayEvent (u_key u) reason, None) # ray_log st else ray_log st)"
  by (simp add: ray_eventf_def)

definition counted :: "unstructured \<Rightarrow> unstructured" where
  "counted u = u\<lparr>u_annotations := AList.update WorkerRetriesAnnotation (dec_int (workerRetries u + 1)) (u_annotations u)\<rparr>"

lemma retryWorkers_log:
  fixes e u st
  defines "lg \<equiv> ray_log st" and "n \<equiv> workerRetries u"
  defines "lg1 \<equiv> (UpdateRayJob (counted u), ray_ask e lg (UpdateRayJob (counted u))) # lg"
  shows "ray_log (fst (retryWorkers e u js st)) =
    (if n > 3 then lg
     else if ray_ask e lg (UpdateRayJob (counted u)) \<noteq> None then lg1
     else if n = 3 then (if ray_recorder e then (RayEvent (u_key u) ''WorkerRetriesExhausted'', None) # lg1 else lg1)
     else let d = DeleteWorkers (js_namespace js, js_name js);
              lg2 = (if ray_recorder e then (RayEvent (u_key u) ''WorkerJobSetFailed'', None) # lg1 else lg1)
          in (d, ray_ask e lg2 d) # lg2)"
  unfolding assms
  by (cases "ray_ask e (ray_log st) (UpdateRayJob (counted u))")
    (simp_all add: retryWorkers_def Let_def setWorkerRetries_def ray_perform_def MaxWorkerRetries_def counted_def
      ray_eventf_log split: option.split prod.split)

lemma budget_counted:
  assumes "u_key u = key" "map_of (u_annotations u) WorkerRetriesAnnotation = stored key lg"
    and "within_budget k lg" "within_budget key lg" "workerRetries u \<le> 3"
  shows "within_budget k ((UpdateRayJob (counted u), r) # lg)"
    and "spent key ((UpdateRayJob (counted u), None) # lg) = workerRetries u + 1"
    and "deletions key lg \<le> workerRetries u" "exhaustions key lg \<le> 0"
proof -
  have n: "workerRetries u = spent key lg" by (simp add: workerRetries_def spent_def assms(2))
  have u1: "u_key (counted u) = key" using assms(1) by (simp add: u_key_def counted_def)
  have new: "map_of (u_annotations (counted u)) WorkerRetriesAnnotation = Some (dec_int (workerRetries u + 1))"
    by (simp add: counted_def)
  have range: "0 \<le> workerRetries u" using assms(4) by (simp add: n within_budget_def)
  then have parsed: "retries_in (Some (dec_int (workerRetries u + 1))) = workerRetries u + 1"
    using assms(5) by (intro retries_in_dec) simp_all
  then show spent: "spent key ((UpdateRayJob (counted u), None) # lg) = workerRetries u + 1"
    by (simp add: spent_def u1 new)
  show del: "deletions key lg \<le> workerRetries u" and ex: "exhaustions key lg \<le> 0"
    using assms(4,5) by (simp_all add: within_budget_def n)
  have other: "spent k ((UpdateRayJob (counted u), r) # lg) = spent k lg" if "r \<noteq> None \<or> k \<noteq> key"
    using that u1 by (auto simp: spent_def)
  show "within_budget k ((UpdateRayJob (counted u), r) # lg)"
  proof (cases "r = None \<and> k = key")
    case True
    then show ?thesis using spent del ex range assms(5) assms(4)
      by (simp add: within_budget_def)
  next
    case False
    then have "spent k ((UpdateRayJob (counted u), r) # lg) = spent k lg" using other by blast
    then show ?thesis using assms(3) by (simp add: within_budget_def)
  qed
qed

lemma spent_neutral [simp]:
  "spent k ((RayEvent x reason, r) # lg) = spent k lg" "spent k ((DeleteWorkers y, r) # lg) = spent k lg"
  by (simp_all add: spent_def)

lemma retry_keeps_budget:
  assumes "u_key u = key" "map_of (u_annotations u) WorkerRetriesAnnotation = stored key (ray_log st)"
    and "(js_namespace js, js_name js) = workers_of key" "within_budget k (ray_log st)" "within_budget key (ray_log st)"
  shows "within_budget k (ray_log (fst (retryWorkers e u js st)))"
proof (cases "workerRetries u > 3")
  case False
  let ?lg = "ray_log st"
  let ?r = "ray_ask e ?lg (UpdateRayJob (counted u))"
  let ?lg1 = "(UpdateRayJob (counted u), ?r) # ?lg"
  note c = budget_counted [OF assms(1,2,4,5)]
  have kept: "within_budget k ?lg1" using c(1) False by simp
  show ?thesis
  proof (cases ?r)
    case (Some err)
    then show ?thesis using kept False by (simp add: retryWorkers_log)
  next
    case None
    have spent: "spent key ?lg1 = workerRetries u + 1" using c(2) False None by simp
    have counts: "deletions key ?lg1 \<le> workerRetries u" "exhaustions key ?lg1 \<le> 0" using c(3,4) False by simp_all
    have ex: "within_budget k ((RayEvent key ''WorkerRetriesExhausted'', None) # ?lg1)" if "workerRetries u = 3"
      using kept spent counts that by (cases "k = key") (simp_all add: within_budget_def)
    have del: "within_budget k ((DeleteWorkers (workers_of key), q) # lg2)"
      if "workerRetries u < 3" "lg2 = ?lg1 \<or> lg2 = (RayEvent key ''WorkerJobSetFailed'', None) # ?lg1" for q lg2
    proof -
      have "within_budget k lg2" "spent key lg2 = workerRetries u + 1" "deletions key lg2 \<le> workerRetries u"
        using that(2) kept spent counts by (auto simp: within_budget_neutral neutral_def)
      then show ?thesis using that(1) by (cases "k = key") (simp_all add: within_budget_def)
    qed
    show ?thesis using None False assms(1,3) kept ex del
      by (simp add: retryWorkers_log Let_def)
  qed
qed (use assms(4) in \<open>simp add: retryWorkers_log\<close>)

section \<open>What a reconcile may do\<close>

text \<open>
  \<open>one_incarnation\<close>: reads are faithful, and nobody but the bridge writes its annotation.
  \<open>finished\<close> is the status of a RayJob that \<open>IsTerminal\<close> recognises.
\<close>

definition one_incarnation :: "ray_env \<Rightarrow> bool" where
  "one_incarnation e \<longleftrightarrow>
     (\<forall>lg key u. ask_rayjob e lg key = Inr u \<longrightarrow>
        u_key u = key \<and> map_of (u_annotations u) WorkerRetriesAnnotation = stored key lg)
     \<and> (\<forall>lg key js. ask_workers e lg key = Inr js \<longrightarrow> (js_namespace js, js_name js) = key)"

lemma one_incarnationD:
  assumes "one_incarnation e" "ask_rayjob e lg key = Inr u"
  shows "u_key u = key" "map_of (u_annotations u) WorkerRetriesAnnotation = stored key lg"
  using assms unfolding one_incarnation_def by blast+

definition finished :: "unstructured \<Rightarrow> bool" where
  "finished u \<longleftrightarrow> List.member [''Complete'', ''Failed'', ''ValidationFailed''] (u_jobDeploymentStatus u)
     \<or> List.member [''SUCCEEDED'', ''FAILED'', ''STOPPED''] (u_jobStatus u)"

lemma FromUnstructured_facts:
  assumes "FromUnstructured qv (Some u) d = Inr job"
  shows "RayIsTerminal job = finished u" "WorkerJobSetName job = WorkerJobSetPrefix @ u_name u"
    "rj_Namespace job = u_namespace u" "rj_UID job = u_uid u"
  using assms
  by (auto simp: FromUnstructured_def Let_def RayIsTerminal_def finished_def WorkerJobSetName_def
      split: option.splits sum.splits)

lemma get_workers_budget: "get_workers e key st = (st1, r) \<Longrightarrow> within_budget k (ray_log st1) = within_budget k (ray_log st)"
  by (auto simp: get_workers_def Let_def within_budget_neutral neutral_def)

lemma get_workers_stored: "get_workers e key st = (st1, r) \<Longrightarrow> stored k (ray_log st1) = stored k (ray_log st)"
  by (auto simp: get_workers_def Let_def)

lemma handleFailed_keeps_budget:
  assumes "one_incarnation e" "u_key u = key" "map_of (u_annotations u) WorkerRetriesAnnotation = stored key (ray_log st)"
    and "FromUnstructured qv (Some u) d = Inr job" "\<And>k. within_budget k (ray_log st)"
  shows "within_budget k (ray_log (fst (handleFailedWorkerJobSet e u job (WorkerJobSetName job) st)))"
proof -
  obtain st1 r where g: "get_workers e (rj_Namespace job, WorkerJobSetName job) st = (st1, r)" by fastforce
  have b: "within_budget k' (ray_log st1)" for k' using get_workers_budget [OF g] assms(5) by simp
  show ?thesis
  proof (cases r)
    case (Inr js)
    have "(js_namespace js, js_name js) = (rj_Namespace job, WorkerJobSetName job)"
      using g Inr assms(1) by (auto simp: get_workers_def Let_def one_incarnation_def)
    also have "\<dots> = workers_of key"
      using FromUnstructured_facts [OF assms(4)] assms(2) by (auto simp: workers_of_def u_key_def)
    finally have "within_budget k (ray_log (fst (retryWorkers e u js st1)))"
      using retry_keeps_budget [OF assms(2), of st1 js k e] assms(3) get_workers_stored [OF g] b by simp
    then show ?thesis using g Inr b by (simp add: handleFailedWorkerJobSet_def)
  qed (use g b in \<open>simp add: handleFailedWorkerJobSet_def\<close>)
qed

lemma ensure_keeps_budget:
  "within_budget k (ray_log st) \<Longrightarrow> within_budget k (ray_log (fst (ensureWorkerJobSet e desired st)))"
  by (auto simp: ensureWorkerJobSet_def ray_perform_def Let_def within_budget_neutral neutral_def get_workers_def
      split: option.splits prod.splits sum.splits)

lemma reconcile_keeps_budget:
  assumes "one_incarnation e" "\<And>lg key u. ask_rayjob e lg key = Inr u \<Longrightarrow> \<not> finished u"
    and "\<And>k. within_budget k (ray_log st)"
  shows "within_budget k (ray_log (fst (ray_reconcile e cfg req st)))"
proof (cases "ask_rayjob e (ray_log st) req")
  case (Inl err)
  then show ?thesis using assms(3)
    by (simp add: ray_reconcile_def RayGet_def within_budget_neutral neutral_def split: option.split)
next
  case (Inr u)
  let ?st1 = "st\<lparr>ray_log := (GetRayJob req, None) # ray_log st\<rparr>"
  have b: "within_budget k' (ray_log ?st1)" for k' using assms(3) by (simp add: within_budget_neutral neutral_def)
  have u: "u_key u = req" "map_of (u_annotations u) WorkerRetriesAnnotation = stored req (ray_log ?st1)"
    using one_incarnationD [OF assms(1) Inr] by simp_all
  show ?thesis
  proof (cases "FromUnstructured (quantity_value e) (Some u) (ray_defaults cfg)")
    case (Inl bad)
    then show ?thesis using Inr b by (simp add: ray_reconcile_def RayGet_def)
  next
    case (Inr job)
    have open_job: "\<not> RayIsTerminal job"
      using FromUnstructured_facts(1) [OF Inr] assms(2) \<open>ask_rayjob e (ray_log st) req = Inr u\<close> by simp
    obtain st2 r where h: "handleFailedWorkerJobSet e u job (WorkerJobSetName job) ?st1 = (st2, r)" by fastforce
    have b2: "within_budget k (ray_log st2)"
      using handleFailed_keeps_budget [OF assms(1) u Inr b, of k] h by simp
    show ?thesis using Inr \<open>ask_rayjob e (ray_log st) req = Inr u\<close> open_job h b b2
      by (auto simp: ray_reconcile_def RayGet_def ensure_keeps_budget split: sum.split option.split bool.split)
  qed
qed

lemma RayReconcile_log: "ray_log (fst (RayReconcile e cfg req st)) = ray_log (fst (ray_reconcile e cfg req st))"
  by (simp add: RayReconcile_def split: prod.split option.split)

definition ray_run :: "ray_env \<Rightarrow> ray_config \<Rightarrow> ray_key list \<Rightarrow> ray_state" where
  "ray_run e cfg reqs =
     fold (\<lambda>req st. fst (RayReconcile e cfg req st)) reqs \<lparr>ray_log = [], ray_counters = (\<lambda>_. 0)\<rparr>"

lemma ray_run_budget:
  assumes "one_incarnation e" "\<And>lg key u. ask_rayjob e lg key = Inr u \<Longrightarrow> \<not> finished u"
  shows "within_budget k (ray_log (ray_run e cfg reqs))"
proof -
  have step: "within_budget k (ray_log (fst (RayReconcile e cfg req st)))"
    if "\<And>k. within_budget k (ray_log st)" for k req st
    unfolding RayReconcile_log by (rule reconcile_keeps_budget [OF assms that])
  have "within_budget k (ray_log (fold (\<lambda>req st. fst (RayReconcile e cfg req st)) reqs st))"
    if "\<And>k. within_budget k (ray_log st)" for st
    using that
  proof (induction reqs arbitrary: st)
    case (Cons req reqs)
    have "within_budget k' (ray_log (fst (RayReconcile e cfg req st)))" for k' by (rule step [OF Cons.prems])
    then show ?case using Cons.IH by simp
  qed simp
  then show ?thesis by (simp add: ray_run_def within_budget_Nil)
qed

lemma ensure_deletes:
  "(DeleteWorkers k, r) \<in> set (ray_log (fst (ensureWorkerJobSet e desired st))) \<longleftrightarrow> (DeleteWorkers k, r) \<in> set (ray_log st)"
  by (auto simp: ensureWorkerJobSet_def ray_perform_def Let_def get_workers_def
      split: option.splits prod.splits sum.splits)

lemma retry_deletes:
  assumes "(DeleteWorkers k, r) \<in> set (ray_log (fst (retryWorkers e u js st)))"
  shows "(DeleteWorkers k, r) \<in> set (ray_log st) \<or> (k = (js_namespace js, js_name js) \<and> workerRetries u < 3)"
  using assms by (auto simp: retryWorkers_log Let_def split: if_splits)

lemma handleFailed_deletes:
  assumes "(DeleteWorkers k, r) \<in> set (ray_log (fst (handleFailedWorkerJobSet e u job nm st)))"
  shows "(DeleteWorkers k, r) \<in> set (ray_log st) \<or>
    (\<exists>js. ask_workers e (ray_log st) (rj_Namespace job, nm) = Inr js \<and> k = (js_namespace js, js_name js)
      \<and> label_of js RayJobUIDLabel = rj_UID job \<and> rayJobSetFailed js \<and> workerRetries u < 3)"
  using assms
  by (auto simp: handleFailedWorkerJobSet_def get_workers_def Let_def dest!: retry_deletes
      split: sum.splits if_splits)

section \<open>Properties\<close>

text \<open>C29: a broken worker JobSet is not recreated for ever, as long as reads show the last write, nobody but
  the bridge writes the annotation that counts the retries (an operator who removes it re-arms them) and the
  RayJobs stay unfinished. However many reconciles then run, in whatever order over whatever RayJobs, however often a
  JobSet fails, and whichever calls fail in between, the bridge deletes the worker JobSet of a RayJob at
  most three times and announces at most once that it gives up.\<close>

theorem failed_workers_are_retried_thrice_at_most:
  assumes "one_incarnation e" "\<And>lg key u. ask_rayjob e lg key = Inr u \<Longrightarrow> \<not> finished u"
  shows "deletions key (ray_log (ray_run e cfg reqs)) \<le> 3 \<and> exhaustions key (ray_log (ray_run e cfg reqs)) \<le> 1"
proof -
  have "within_budget key (ray_log (ray_run e cfg reqs))" by (rule ray_run_budget [OF assms])
  then show ?thesis by (simp add: within_budget_def split: if_splits)
qed

definition failed_workers :: "ray_key \<Rightarrow> string \<Rightarrow> jobset" where
  "failed_workers key uid =
     \<lparr>js_name = snd key, js_namespace = fst key, js_labels = [(RayJobUIDLabel, uid)], js_annotations = [], js_owners = [],
      js_max_restarts = 2, js_replicated = [], js_conditions = [(''Failed'', (''True'', ''image pull''))]\<rparr>"

definition always_failing :: ray_env where
  "always_failing =
     \<lparr>ask_rayjob = (\<lambda>lg key. Inr (example_rayjob\<lparr>u_namespace := fst key, u_name := snd key, u_annotations :=
        (case stored key lg of None \<Rightarrow> [(PoolAnnotation, ''batch'')]
         | Some n \<Rightarrow> [(WorkerRetriesAnnotation, n), (PoolAnnotation, ''batch'')])\<rparr>)),
      ask_workers = (\<lambda>lg key. Inr (failed_workers key ''uid-1'')),
      ray_ask = (\<lambda>_ _. None), ray_recorder = True, quantity_value = (\<lambda>_. None)\<rparr>"

lemma always_failing_facts:
  "one_incarnation always_failing" "ask_rayjob always_failing lg key = Inr u \<Longrightarrow> \<not> finished u"
  by (auto simp: one_incarnation_def always_failing_def u_key_def failed_workers_def finished_def example_rayjob_def
      PoolAnnotation_def WorkerRetriesAnnotation_def split: option.splits)

theorem failed_workers_are_retried_thrice_at_most_witness:
  "deletions (''ray'', ''job-a'') (ray_log (ray_run always_failing twice_mapped (replicate 100 (''ray'', ''job-a'')))) \<le> 3"
proof -
  have "\<not> finished u" if "ask_rayjob always_failing lg key = Inr u" for lg key u
    using that by (rule always_failing_facts(2))
  from failed_workers_are_retried_thrice_at_most [OF always_failing_facts(1) this] show ?thesis by (rule conjunct1)
qed

text \<open>C32: a retry deletes only the RayJob's own failed workers. Every deletion that a reconcile of an
  unfinished RayJob issues is of the JobSet it has just read under the RayJob's worker name, which
  carries that RayJob's UID and has failed, and the budget is not spent; a predecessor's JobSet of the
  same name is left alone.\<close>

theorem retry_spares_foreign_workers:
  assumes "ask_rayjob e (ray_log st) req = Inr u" "\<not> finished u"
    and "(DeleteWorkers k, r) \<in> set (ray_log (fst (RayReconcile e cfg req st)))" "(DeleteWorkers k, r) \<notin> set (ray_log st)"
  shows "\<exists>lg js. ask_workers e lg (u_namespace u, WorkerJobSetPrefix @ u_name u) = Inr js
    \<and> k = (js_namespace js, js_name js) \<and> label_of js RayJobUIDLabel = u_uid u \<and> rayJobSetFailed js
    \<and> workerRetries u < 3"
proof -
  let ?st1 = "st\<lparr>ray_log := (GetRayJob req, None) # ray_log st\<rparr>"
  have in_log: "(DeleteWorkers k, r) \<in> set (ray_log (fst (ray_reconcile e cfg req st)))"
    using assms(3) by (simp only: RayReconcile_log)
  obtain job where job: "FromUnstructured (quantity_value e) (Some u) (ray_defaults cfg) = Inr job"
    using in_log assms(1,4) by (cases "FromUnstructured (quantity_value e) (Some u) (ray_defaults cfg)")
      (simp_all add: ray_reconcile_def RayGet_def ray_eventf_def split: if_splits)
  note f = FromUnstructured_facts [OF job]
  obtain st2 h where h: "handleFailedWorkerJobSet e u job (WorkerJobSetName job) ?st1 = (st2, h)" by fastforce
  have "(DeleteWorkers k, r) \<in> set (ray_log st2) \<or> (DeleteWorkers k, r) \<in> set (ray_log ?st1)"
    using in_log assms(1,2) job f(1) h
    by (auto simp: ray_reconcile_def RayGet_def ray_eventf_def ensure_deletes
        split: if_splits sum.splits option.splits bool.splits)
  then have "(DeleteWorkers k, r) \<in> set (ray_log (fst (handleFailedWorkerJobSet e u job (WorkerJobSetName job) ?st1)))"
    using assms(4) h by simp
  from handleFailed_deletes [OF this] show ?thesis using assms(4) f by auto
qed

definition example_request :: ray_key where "example_request = (''ray'', ''job-a'')"

definition no_history :: ray_state where "no_history = \<lparr>ray_log = [], ray_counters = (\<lambda>_. 0)\<rparr>"

definition failing_rayjob :: unstructured where
  "failing_rayjob = example_rayjob\<lparr>u_annotations := [(PoolAnnotation, ''batch'')]\<rparr>"

lemmas ray_example_defs = failing_rayjob_def example_rayjob_def parsed_rayjob_def ray_defaults_def twice_mapped_def
  PoolAnnotation_def WorkersAnnotation_def WorkerCPUsAnnotation_def WorkerGPUsAnnotation_def
  WorkerMemoryAnnotation_def LocalQueueAnnotation_def RequiredTopologyAnnotation_def clusterSelectorKey_def

lemma failing_parsed:
  "FromUnstructured qv (Some failing_rayjob) (ray_defaults twice_mapped) = Inr (parsed_rayjob\<lparr>Workers := 1, GPUsPerWorker := 0\<rparr>)"
  by (simp add: ray_example_defs FromUnstructured_def Let_def intAnnotation_def memAnnotation_def value_of_def
      clampToInt32_def sless_sint)

theorem retry_spares_foreign_workers_witness:
  "\<exists>lg js. ask_workers always_failing lg (''ray'', ''ray-workers-job-a'') = Inr js \<and> rayJobSetFailed js"
proof -
  have ask: "ask_rayjob always_failing (ray_log no_history) example_request = Inr failing_rayjob"
    by (simp add: always_failing_def no_history_def example_request_def failing_rayjob_def example_rayjob_def)
  have "(DeleteWorkers (''ray'', ''ray-workers-job-a''), None)
      \<in> set (ray_log (fst (RayReconcile always_failing twice_mapped example_request no_history)))"
    using failing_parsed [of "quantity_value always_failing"]
    by (simp add: RayReconcile_log ray_reconcile_def RayGet_def ask handleFailedWorkerJobSet_def get_workers_def)
      (simp add: always_failing_def no_history_def failed_workers_def label_of_def rayJobSetFailed_def condition_true_def
        retryWorkers_def setWorkerRetries_def ray_perform_def ray_eventf_def ray_inc_def MaxWorkerRetries_def
        workerRetries_def retries_in_def Let_def ray_label_names WorkerJobSetName_def WorkerJobSetPrefix_def
        parsed_rayjob_def twice_mapped_def IsInnerWorkload_def HeadAddressFor_def RayPriorityClassFor_def RayIsTerminal_def
        failing_rayjob_def example_rayjob_def PoolAnnotation_def WorkerRetriesAnnotation_def)
  from retry_spares_foreign_workers [OF ask _ this] show ?thesis
    by (auto simp: no_history_def failing_rayjob_def example_rayjob_def finished_def WorkerJobSetPrefix_def)
qed

text \<open>C35: an inner RayJob gets its workers. A reconcile of an unfinished RayJob in scope which has no worker
  JobSet yet makes exactly one write: it creates the translated JobSet, owned by the RayJob so that
  the RayJob's deletion collects it. When the server accepts it the reconcile succeeds.\<close>

theorem inner_rayjob_gets_workers:
  assumes "ask_rayjob e (ray_log st) req = Inr u" "\<not> finished u"
    and "FromUnstructured (quantity_value e) (Some u) (ray_defaults cfg) = Inr job" "ToWorkerJobSet job cfg = Inr js"
    and "\<And>lg. ask_workers e lg (u_namespace u, WorkerJobSetPrefix @ u_name u) = Inl NotFound"
    and "\<And>lg. ray_ask e lg (CreateWorkers (setOwner js u)) = None"
  shows "ray_log (fst (RayReconcile e cfg req st)) =
      [(CreateWorkers (setOwner js u), None), (GetWorkers (u_namespace u, WorkerJobSetPrefix @ u_name u), Some NotFound),
       (GetRayJob req, None)] @ ray_log st
    \<and> js_owners (setOwner js u) = [(u_name u, u_uid u)] \<and> js_name (setOwner js u) = WorkerJobSetPrefix @ u_name u
    \<and> snd (RayReconcile e cfg req st) = None"
proof -
  note f = FromUnstructured_facts [OF assms(3)]
  obtain headAddr pc where scope: "HeadAddressFor cfg (TargetCluster job) = Some headAddr" "IsInnerWorkload job"
      "RayPriorityClassFor cfg (rj_Pool job) = Some pc" "js_name js = WorkerJobSetName job"
    by (rule ToWorkerJobSet_InrE [OF assms(4)]) blast
  have owners: "js_owners js = []"
    using assms(4) by (auto simp: ToWorkerJobSet_def split: if_splits option.splits)
  have "ray_reconcile e cfg req st = ensureWorkerJobSet e (setOwner js u)
      (st\<lparr>ray_log := (GetWorkers (u_namespace u, WorkerJobSetPrefix @ u_name u), Some NotFound) # (GetRayJob req, None) # ray_log st\<rparr>)"
    using assms(1-5) f scope
    by (simp add: ray_reconcile_def RayGet_def handleFailedWorkerJobSet_def get_workers_def Let_def)
  then show ?thesis using assms(6) f(2) scope(4) owners
    by (simp add: RayReconcile_def ensureWorkerJobSet_def ray_perform_def setOwner_def)
qed

definition calm_ray :: ray_env where
  "calm_ray = always_failing\<lparr>ask_rayjob := (\<lambda>_ _. Inr failing_rayjob), ask_workers := (\<lambda>_ _. Inl NotFound)\<rparr>"

theorem inner_rayjob_gets_workers_witness:
  "\<exists>js. ray_log (fst (RayReconcile calm_ray twice_mapped example_request no_history)) =
      [(CreateWorkers js, None), (GetWorkers (''ray'', ''ray-workers-job-a''), Some NotFound), (GetRayJob (''ray'', ''job-a''), None)]
    \<and> js_owners js = [(''job-a'', ''uid-1'')]"
proof -
  obtain js where js: "ToWorkerJobSet (parsed_rayjob\<lparr>Workers := 1, GPUsPerWorker := 0\<rparr>) twice_mapped = Inr js"
    using ToWorkerJobSet_scope [of "parsed_rayjob\<lparr>Workers := 1, GPUsPerWorker := 0\<rparr>" twice_mapped] example_scope
    by (auto simp: managed_inner_def IsInnerWorkload_def)
  have u: "u_namespace failing_rayjob = ''ray''" "u_name failing_rayjob = ''job-a''" "u_uid failing_rayjob = ''uid-1''"
    "\<not> finished failing_rayjob"
    by (simp_all add: failing_rayjob_def example_rayjob_def finished_def)
  have e: "ask_rayjob calm_ray (ray_log no_history) example_request = Inr failing_rayjob" "ray_log no_history = []"
    "ask_workers calm_ray lg k = Inl NotFound" "ray_ask calm_ray lg c = None" for lg k c
    by (simp_all add: calm_ray_def always_failing_def no_history_def)
  from inner_rayjob_gets_workers [OF e(1) u(4) failing_parsed js e(3) e(4)] show ?thesis
    by (auto simp: u e(2) WorkerJobSetPrefix_def example_request_def)
qed

text \<open>The cleanup of a finished RayJob does not check whose workers it deletes. Its reconcile deletes the
  JobSet under the RayJob's worker name without reading it, so also one that carries another UID, or
  one that ray-bridge did not create, which the retry path takes care to spare.\<close>

lemma finished_cleanup_ignores_identity:
  assumes "ask_rayjob e (ray_log st) req = Inr u" "u_key u = req" "finished u"
    and "FromUnstructured (quantity_value e) (Some u) (ray_defaults cfg) = Inr job" "ToWorkerJobSet job cfg = Inr js"
  shows "\<exists>r. ray_log (fst (RayReconcile e cfg req st)) = (DeleteWorkers (workers_of req), r) # (GetRayJob req, None) # ray_log st"
proof -
  note f = FromUnstructured_facts [OF assms(4)]
  obtain headAddr pc where scope: "HeadAddressFor cfg (TargetCluster job) = Some headAddr" "IsInnerWorkload job"
      "RayPriorityClassFor cfg (rj_Pool job) = Some pc"
    by (rule ToWorkerJobSet_InrE [OF assms(5)]) blast
  have "(fst req, WorkerJobSetName job) = workers_of req" using f(2) assms(2) by (auto simp: workers_of_def u_key_def)
  then show ?thesis using assms(1,3,4) f(1) scope
    by (simp add: RayReconcile_log ray_reconcile_def RayGet_def deleteWorkerJobSet_def ray_perform_def Let_def
        split: option.split)
qed

text \<open>An event of a worker JobSet finds its RayJob. The JobSet created for a RayJob is mapped back to exactly
  that RayJob, and whatever JobSet is mapped to a RayJob is managed by ray-bridge, lives in the same
  namespace and has that RayJob's worker name.\<close>

lemma worker_events_find_their_rayjob:
  "(case ToWorkerJobSet job cfg of Inl bad \<Rightarrow> True
    | Inr js \<Rightarrow> mapJobSetToRayJob (setOwner js u) = [(rj_Namespace job, rj_Name job)])
   \<and> (mapJobSetToRayJob any = [k] \<longleftrightarrow>
        label_of any RayManagedByLabel = RayManagedByValue \<and> (js_namespace any, js_name any) = workers_of k)
   \<and> length (mapJobSetToRayJob any) \<le> 1"
proof -
  have "mapJobSetToRayJob (setOwner js u) = [(rj_Namespace job, rj_Name job)]" if "ToWorkerJobSet job cfg = Inr js" for js
  proof -
    have "js_name js = WorkerJobSetName job" "js_namespace js = rj_Namespace job"
      "label_of js RayManagedByLabel = RayManagedByValue"
      by (rule ToWorkerJobSet_InrE [OF that], blast)+
    then show ?thesis by (simp add: mapJobSetToRayJob_def setOwner_def label_of_def)
  qed
  moreover have "mapJobSetToRayJob any = [k] \<longleftrightarrow>
      label_of any RayManagedByLabel = RayManagedByValue \<and> (js_namespace any, js_name any) = workers_of k"
    by (cases k) (auto simp: mapJobSetToRayJob_def RayJobNameFromJobSet_def CutPrefix_eq_Some workers_of_def
        split: option.split)
  moreover have "length (mapJobSetToRayJob any) \<le> 1"
    by (simp add: mapJobSetToRayJob_def split: option.split)
  ultimately show ?thesis by (simp split: sum.split)
qed

text \<open>The pin resource is made of the RayJob's name alone: RayJobs of one name in two namespaces, which
  the cache of a controller may both cover, share the pin that is to tie a job to its own workers.\<close>

lemma pin_ignores_namespace: "PinResource (job\<lparr>rj_Namespace := ns\<rparr>) = PinResource job"
  by (simp add: PinResource_def)

end
