(* ===== verification/Ray_Webhook.thy ===== *)
theory Ray_Webhook imports
  Ray_Bridge
begin

text \<open>
  The admission webhook of ray-bridge (\<open>internal/raywebhook\<close>): the decision and the handler that merges
  the pin into \<open>spec.entrypointResources\<close>. \<open>encoding/json\<close> is a pair of functions between texts and
  trees; a request that does not decode has no object.
\<close>

section \<open>The decision\<close>

record decision =
  InjectPin :: bool
  PinName :: string
  Deny :: bool
  Reason :: string

definition denyReason :: "rayjob \<Rightarrow> string" where
  "denyReason job =
     (if rj_Pool job = [] then
        ''inner RayJob targeting managed cluster '' @ TargetCluster job @ '' must set the '' @ PoolAnnotation
        @ '' annotation to a mapped pool''
      else ''inner RayJob pool '' @ rj_Pool job @ '' (annotation '' @ PoolAnnotation
        @ '') is not mapped to a WorkloadPriorityClass by ray-bridge'')"

definition Decide :: "rayjob \<Rightarrow> ray_config \<Rightarrow> decision" where
  "Decide job cfg =
     (let skip = \<lparr>InjectPin = False, PinName = [], Deny = False, Reason = []\<rparr> in
      if \<not> IsInnerWorkload job then skip
      else if HeadAddressFor cfg (TargetCluster job) = None then skip
      else if RayPriorityClassFor cfg (rj_Pool job) = None
      then \<lparr>InjectPin = False, PinName = [], Deny = True, Reason = denyReason job\<rparr>
      else \<lparr>InjectPin = True, PinName = PinResource job, Deny = False, Reason = []\<rparr>)"

definition ParseDefaults :: "ray_config \<Rightarrow> shape_defaults" where
  "ParseDefaults cfg = \<lparr>def_Workers = DefaultWorkers (Worker cfg), def_CPUsPerWorker = DefaultCPUs (Worker cfg),
     def_MemPerWorkerMB = DefaultMemoryMB (Worker cfg)\<rparr>"

section \<open>The handler\<close>

text \<open>
  \<open>parse\<close> is \<open>json.Unmarshal\<close> into an untyped value: \<open>None\<close> when the text is no JSON, else the tree,
  its numbers rounded to \<open>float64\<close> and an object's keys distinct. \<open>render\<close> is \<open>json.Marshal\<close>.
\<close>

record json_lib =
  parse :: "string \<Rightarrow> json option"
  render :: "json \<Rightarrow> string"

definition PinUnits :: json where
  "PinUnits = JNum ''1''"

text \<open>Into a map: \<open>null\<close> leaves a nil map, a tree of another kind is an error.\<close>

datatype decoded_map = NoMap | NilMap | Entries "(string \<times> json) list"

definition decode_map :: "json_lib \<Rightarrow> string \<Rightarrow> decoded_map" where
  "decode_map lib text =
     (case parse lib text of Some (JObj m) \<Rightarrow> Entries m | Some JNull \<Rightarrow> NilMap | _ \<Rightarrow> NoMap)"

text \<open>An assignment to a nil map panics; \<open>Patched\<close> is the new value of the field.\<close>

datatype denial = BadShape shape_error | NotMapped string | ResourcesNotJSON

datatype response = Errored | Denied denial | AllowedAsIs | Patched string | Panicked

definition mergePin :: "json_lib \<Rightarrow> string \<Rightarrow> string \<Rightarrow> response" where
  "mergePin lib pin existing =
     (case (if existing = [] then Entries [] else decode_map lib existing) of
        NoMap \<Rightarrow> Denied ResourcesNotJSON
      | NilMap \<Rightarrow> Panicked
      | Entries res \<Rightarrow> Patched (render lib (JObj (AList.update pin PinUnits res))))"

definition Handle :: "json_lib \<Rightarrow> (string \<Rightarrow> i64 option) \<Rightarrow> ray_config \<Rightarrow> unstructured option \<Rightarrow> response" where
  "Handle lib qv cfg obj =
     (case obj of
        None \<Rightarrow> Errored
      | Some u \<Rightarrow>
     (case FromUnstructured qv (Some u) (ParseDefaults cfg) of
        Inl bad \<Rightarrow> Denied (BadShape bad)
      | Inr job \<Rightarrow>
          let d = Decide job cfg in
          if Deny d then Denied (NotMapped (Reason d))
          else if \<not> InjectPin d then AllowedAsIs
          else mergePin lib (PinName d) (u_entrypointResources u)))"

text \<open>The label under which the decision is counted; a fault is not counted.\<close>

definition decision_label :: "response \<Rightarrow> string option" where
  "decision_label r =
     (case r of Denied why \<Rightarrow> Some ''denied'' | AllowedAsIs \<Rightarrow> Some ''skipped'' | Patched s \<Rightarrow> Some ''pinned'' | _ \<Rightarrow> None)"

section \<open>Lemmas\<close>

lemma ParseDefaults_ray_defaults: "ParseDefaults = ray_defaults"
  by (simp add: fun_eq_iff ParseDefaults_def ray_defaults_def)

lemma Decide_inject:
  "InjectPin (Decide job cfg) \<longleftrightarrow> managed_inner job cfg \<and> RayPriorityClassFor cfg (rj_Pool job) \<noteq> None"
  "Deny (Decide job cfg) \<longleftrightarrow> managed_inner job cfg \<and> RayPriorityClassFor cfg (rj_Pool job) = None"
  "InjectPin (Decide job cfg) \<Longrightarrow> PinName (Decide job cfg) = PinResource job"
  by (auto simp: Decide_def Let_def managed_inner_def split: if_splits)

definition writes :: "ray_call \<Rightarrow> bool" where
  "writes c \<longleftrightarrow> (case c of CreateWorkers _ \<Rightarrow> True | DeleteWorkers _ \<Rightarrow> True | UpdateRayJob _ \<Rightarrow> True | _ \<Rightarrow> False)"

lemma out_of_scope_log:
  assumes "ask_rayjob e (ray_log st) req = Inr u" "FromUnstructured (quantity_value e) (Some u) (ray_defaults cfg) = Inr job"
    and "\<not> (managed_inner job cfg \<and> RayPriorityClassFor cfg (rj_Pool job) \<noteq> None)"
  shows "\<exists>new. ray_log (fst (RayReconcile e cfg req st)) = new @ ray_log st \<and> list_all (\<lambda>en. \<not> writes (fst en)) new"
  using assms
  by (auto simp: RayReconcile_log ray_reconcile_def RayGet_def managed_inner_def ray_eventf_log writes_def
      intro: exI [of _ "[(GetRayJob req, None)]"] exI [of _ "[(RayEvent (u_key u) ''UnmanagedPool'', None), (GetRayJob req, None)]"])

lemma example_pinned: "InjectPin (Decide parsed_rayjob twice_mapped)"
  using example_scope by (auto simp: Decide_inject managed_inner_def)

text \<open>What the field becomes: one more resource, one unit of the pin, and the others as they were.\<close>

definition pinned :: "json_lib \<Rightarrow> rayjob \<Rightarrow> (string \<times> json) list \<Rightarrow> response \<Rightarrow> bool" where
  "pinned lib job old r \<longleftrightarrow>
     (\<exists>m. r = Patched (render lib (JObj m)) \<and> map_of m = (map_of old)(PinResource job \<mapsto> PinUnits))"

text \<open>The answer to a RayJob that gets workers, by what its \<open>entrypointResources\<close> hold.\<close>

definition pin_answer :: "json_lib \<Rightarrow> rayjob \<Rightarrow> string \<Rightarrow> response \<Rightarrow> bool" where
  "pin_answer lib job existing r \<longleftrightarrow>
     (if existing = [] then pinned lib job [] r
      else case parse lib existing of
          Some (JObj old) \<Rightarrow> pinned lib job old r
        | Some JNull \<Rightarrow> r = Panicked
        | _ \<Rightarrow> r = Denied ResourcesNotJSON)"

lemma mergePin_answer: "pin_answer lib job existing (mergePin lib (PinResource job) existing)"
proof -
  have put: "pinned lib job old (Patched (render lib (JObj (AList.update (PinResource job) PinUnits old))))" for old
    unfolding pinned_def by (intro exI [of _ "AList.update (PinResource job) PinUnits old"]) simp
  show ?thesis
    by (cases "existing = []")
      (use put in \<open>simp_all add: pin_answer_def mergePin_def decode_map_def del: update.simps split: option.split json.split\<close>)
qed

lemma Handle_parsed:
  assumes "FromUnstructured qv (Some u) (ray_defaults cfg) = Inr job"
  shows "Handle lib qv cfg (Some u) =
    (if Deny (Decide job cfg) then Denied (NotMapped (Reason (Decide job cfg)))
     else if \<not> InjectPin (Decide job cfg) then AllowedAsIs
     else mergePin lib (PinName (Decide job cfg)) (u_entrypointResources u))"
  using assms by (simp add: Handle_def Let_def ParseDefaults_ray_defaults)

text \<open>A library for the examples: \<open>null\<close>, and a text of single-letter resources of one unit each.\<close>

definition small_json :: json_lib where
  "small_json = \<lparr>parse = (\<lambda>s. if s = ''null'' then Some JNull else Some (JObj (map (\<lambda>c. ([c], JNum ''1'')) s))),
     render = (\<lambda>t. case t of JObj m \<Rightarrow> concat (map fst m) | _ \<Rightarrow> [])\<rparr>"

lemma FromUnstructured_resources [simp]:
  "FromUnstructured qv (Some (u\<lparr>u_entrypointResources := s\<rparr>)) d = FromUnstructured qv (Some u) d"
  by (simp add: FromUnstructured_def Let_def cong: sum.case_cong)

section \<open>Properties\<close>

text \<open>C30: the gate and the workers agree, for a RayJob that parses. When the reconciler builds workers for
  it, the webhook never admits it without the pin: it merges into the field one unit of the resource that
  those workers announce, unless the field is malformed, which is denied, or the JSON value null, on which
  the handler panics. A RayJob of a managed cluster that gets no workers is denied. Any other is admitted as
  it is; and for a RayJob that gets no workers no reconcile creates, deletes or updates anything.\<close>

theorem gate_and_workers_agree:
  assumes "FromUnstructured (quantity_value e) (Some u) (ray_defaults cfg) = Inr job"
  shows "(if \<exists>js. ToWorkerJobSet job cfg = Inr js
     then pin_answer lib job (u_entrypointResources u) (Handle lib (quantity_value e) cfg (Some u))
       \<and> (\<exists>pre post. workerStartCommand job head =
           pre @ '' --resources='' @ [CHR 0x27] @ ''{\"'' @ PinResource job @ ''\": '' @ dec_int (sint (CPUsPerWorker job)) @ post)
     else Handle lib (quantity_value e) cfg (Some u)
           = (if managed_inner job cfg then Denied (NotMapped (denyReason job)) else AllowedAsIs)
       \<and> (ask_rayjob e (ray_log st) req = Inr u \<longrightarrow>
           (\<exists>new. ray_log (fst (RayReconcile e cfg req st)) = new @ ray_log st \<and> list_all (\<lambda>en. \<not> writes (fst en)) new)))"
proof (cases "\<exists>js. ToWorkerJobSet job cfg = Inr js")
  case True
  then have inject: "InjectPin (Decide job cfg)" "\<not> Deny (Decide job cfg)" by (auto simp only: Decide_inject ToWorkerJobSet_scope)
  then have "Handle lib (quantity_value e) cfg (Some u) = mergePin lib (PinResource job) (u_entrypointResources u)"
    using Handle_parsed [OF assms] Decide_inject(3) by simp
  moreover have "\<exists>pre post. workerStartCommand job head =
      pre @ '' --resources='' @ [CHR 0x27] @ ''{\"'' @ PinResource job @ ''\": '' @ dec_int (sint (CPUsPerWorker job)) @ post"
    by (intro exI [of _ "''exec ray start --address='' @ head @ '' --num-cpus='' @ dec_i64 (CPUsPerWorker job)
          @ (if 0 <s GPUsPerWorker job then '' --num-gpus='' @ dec_i64 (GPUsPerWorker job) else [])"]
        exI [of _ "''}'' @ [CHR 0x27] @ '' --block''"])
      (simp only: workerStartCommand_def dec_i64_def append_assoc)
  ultimately show ?thesis using True mergePin_answer by simp
next
  case False
  then have out: "\<not> (managed_inner job cfg \<and> RayPriorityClassFor cfg (rj_Pool job) \<noteq> None)"
    by (simp only: ToWorkerJobSet_scope) simp
  then have "Handle lib (quantity_value e) cfg (Some u) = (if managed_inner job cfg then Denied (NotMapped (denyReason job)) else AllowedAsIs)"
    unfolding Handle_parsed [OF assms] by (auto simp: Decide_def Let_def managed_inner_def)
  then show ?thesis using False out_of_scope_log [OF _ assms out] by simp
qed

text \<open>A RayJob with a resource of its own is pinned besides.\<close>

theorem gate_and_workers_agree_witness:
  "\<exists>m. Handle small_json (quantity_value always_failing) twice_mapped (Some (example_rayjob\<lparr>u_entrypointResources := ''a''\<rparr>))
      = Patched (render small_json (JObj m))
     \<and> map_of m = [''a'' \<mapsto> JNum ''1'', ''wm-job-job-a'' \<mapsto> JNum ''1'']"
proof -
  let ?u = "example_rayjob\<lparr>u_entrypointResources := ''a''\<rparr>"
  have parsed: "FromUnstructured (quantity_value always_failing) (Some ?u) (ray_defaults twice_mapped) = Inr parsed_rayjob"
    using example_parsed by simp
  have workers: "\<exists>js. ToWorkerJobSet parsed_rayjob twice_mapped = Inr js"
    using example_pinned unfolding Decide_inject ToWorkerJobSet_scope by simp
  from gate_and_workers_agree [OF parsed, of small_json] workers
  have "pin_answer small_json parsed_rayjob ''a'' (Handle small_json (quantity_value always_failing) twice_mapped (Some ?u))"
    by simp
  then show ?thesis
    by (simp add: pin_answer_def pinned_def small_json_def PinResource_def parsed_rayjob_def PinUnits_def)
qed

text \<open>The pin is merged, not imposed. When the field is rewritten it is the rendering of an object that has one
  unit of the pin, and every other resource the submitter asked for with its value; a text that is no
  JSON object is denied and never dropped.\<close>

lemma pin_merge_preserves_resources:
  assumes "Handle lib qv cfg (Some u) = Patched s"
  shows "\<exists>job m old. FromUnstructured qv (Some u) (ray_defaults cfg) = Inr job
    \<and> s = render lib (JObj m)
    \<and> (if u_entrypointResources u = [] then old = [] else parse lib (u_entrypointResources u) = Some (JObj old))
    \<and> map_of m = (map_of old)(PinResource job \<mapsto> PinUnits)"
proof -
  obtain job where job: "FromUnstructured qv (Some u) (ray_defaults cfg) = Inr job" "InjectPin (Decide job cfg)"
    and merged: "mergePin lib (PinName (Decide job cfg)) (u_entrypointResources u) = Patched s"
    using assms by (auto simp: Handle_def Let_def ParseDefaults_ray_defaults split: sum.splits if_splits)
  obtain old where old: "(if u_entrypointResources u = [] then Entries [] else decode_map lib (u_entrypointResources u)) = Entries old"
    and s: "s = render lib (JObj (AList.update (PinResource job) PinUnits old))"
    using merged Decide_inject(3) [OF job(2)] by (auto simp: mergePin_def split: decoded_map.splits)
  have "if u_entrypointResources u = [] then old = [] else parse lib (u_entrypointResources u) = Some (JObj old)"
    using old by (auto simp: decode_map_def split: option.splits json.splits if_splits)
  then show ?thesis using job(1) s
    by (intro exI [of _ job] exI [of _ "AList.update (PinResource job) PinUnits old"] exI [of _ old]) simp
qed

text \<open>A field that holds the JSON value null crashes the handler: it decodes into a nil map without an
  error, and the pin is then assigned to that map. This happens for every RayJob the webhook would
  pin.\<close>

lemma null_resources_panic:
  assumes "FromUnstructured qv (Some u) (ray_defaults cfg) = Inr job" "InjectPin (Decide job cfg)"
    and "u_entrypointResources u \<noteq> []" "parse lib (u_entrypointResources u) = Some JNull"
  shows "Handle lib qv cfg (Some u) = Panicked"
proof -
  have "\<not> Deny (Decide job cfg)" using assms(2) by (simp add: Decide_inject)
  then show ?thesis using assms
    by (simp add: Handle_def Let_def ParseDefaults_ray_defaults mergePin_def decode_map_def)
qed

end
