(* ===== verification/Ray_Main.thy ===== *)
theory Ray_Main imports
  Startup
  Ray_Webhook
begin

text \<open>
  The start of ray-bridge (\<open>main\<close> of \<open>cmd/ray-bridge/main.go\<close>), as in \<open>Startup\<close>: the configuration, the
  image gate, the manager's options, the webhook and the readiness checks.
\<close>

section \<open>The start\<close>

datatype ray_file_error = RayReadFailed error | RayParseFailed error | RayInvalid ray_config_error

datatype ray_exit =
    RayBadFile ray_file_error | RayImageRefused | RaySchemeFailed string error | RayNoKubeconfig error
  | RayBadRateLimits | RayManagerFailed error | RayWiringFailed string error

record ray_flags =
  rf_config :: string
  rf_metricsAddr :: string
  rf_healthAddr :: string
  rf_logLevel :: string
  rf_leaderElect :: bool
  rf_leaseDuration :: int
  rf_renewDeadline :: int
  rf_allowedImages :: string
  rf_enableWebhook :: bool
  rf_kubeQPS :: rat
  rf_kubeBurst :: int

record ray_world = start_world +
  parse_ray :: "string \<Rightarrow> error + ray_config"

record ray_process =
  rp_config :: ray_config
  rp_QPS :: rat
  rp_Burst :: int
  rp_cache :: "string list"
  rp_cacheUnstructured :: bool
  rp_leaderElect :: bool
  rp_lease :: string
  rp_leaseDuration :: int
  rp_renewDeadline :: int
  rp_level :: level
  rp_metrics :: string
  rp_health :: string
  rp_webhook :: bool
  rp_checks :: "string list"

definition RayLoadFile :: "(string \<Rightarrow> error + string) \<Rightarrow> (string \<Rightarrow> error + ray_config) \<Rightarrow> string \<Rightarrow> ray_file_error + ray_config" where
  "RayLoadFile read decode path =
     (case read path of
        Inl err \<Rightarrow> Inl (RayReadFailed (Wrap ''reading config'' err))
      | Inr raw \<Rightarrow>
     (case decode raw of
        Inl err \<Rightarrow> Inl (RayParseFailed (Wrap ''parsing config'' err))
      | Inr parsed \<Rightarrow> (case RayLoad parsed of Inl err \<Rightarrow> Inl (RayInvalid err) | Inr cfg \<Rightarrow> Inr cfg)))"

definition rayImageGate :: "string list \<Rightarrow> ray_config \<Rightarrow> bool" where
  "rayImageGate allowlist cfg = (if allowlist = [] then True else ValidateImageAllowed (WorkerImage (Worker cfg)) allowlist = None)"

definition metricsServerOptions :: "string \<Rightarrow> string" where
  "metricsServerOptions addr = (if addr = [] then ''0'' else addr)"

definition rayLease :: "string \<Rightarrow> ray_config \<Rightarrow> string" where
  "rayLease podNamespace cfg = (if podNamespace = [] then RayNamespace cfg else podNamespace)"

definition rayManager :: "ray_world \<Rightarrow> ray_flags \<Rightarrow> ray_config \<Rightarrow> ray_process" where
  "rayManager w fl cfg =
     \<lparr>rp_config = cfg, rp_QPS = to_float32 w (rf_kubeQPS fl), rp_Burst = rf_kubeBurst fl,
      rp_cache = cacheScopedToNamespace [POD_NAMESPACE w, RayNamespace cfg], rp_cacheUnstructured = False,
      rp_leaderElect = rf_leaderElect fl, rp_lease = rayLease (POD_NAMESPACE w) cfg,
      rp_leaseDuration = rf_leaseDuration fl, rp_renewDeadline = rf_renewDeadline fl, rp_level = parseLogLevel (rf_logLevel fl), rp_metrics = metricsServerOptions (rf_metricsAddr fl),
      rp_health = rf_healthAddr fl, rp_webhook = rf_enableWebhook fl, rp_checks = []\<rparr>"

definition step_ok :: "ray_world \<Rightarrow> string \<Rightarrow> ray_exit + unit" where
  "step_ok w name = unless_error (RayWiringFailed name) (wiring w name)"

definition wireProbes :: "ray_world \<Rightarrow> ray_process \<Rightarrow> ray_exit + ray_process" where
  "wireProbes w p =
     (if rp_health p = [] then Inr p
      else and_then (step_ok w ''healthz'') (\<lambda>_.
           and_then (step_ok w ''rayjob-informer'') (\<lambda>_.
           and_then (step_ok w ''jobset-informer'') (\<lambda>_.
           and_then (step_ok w ''informer-sync'') (\<lambda>_.
           if rp_webhook p
           then and_then (step_ok w ''webhook-server'') (\<lambda>_. Inr (p\<lparr>rp_checks := [''informer-sync'', ''webhook-server'']\<rparr>))
           else Inr (p\<lparr>rp_checks := [''informer-sync'']\<rparr>))))))"

definition ray_startup :: "ray_world \<Rightarrow> ray_flags \<Rightarrow> ray_exit + ray_process" where
  "ray_startup w fl =
     (case RayLoadFile (read_file w) (parse_ray w) (rf_config fl) of
        Inl err \<Rightarrow> Inl (RayBadFile err)
      | Inr cfg \<Rightarrow>
          and_then (unless_refused RayImageRefused (rayImageGate (splitAndTrim (rf_allowedImages fl)) cfg)) (\<lambda>_.
          and_then (unless_error (RaySchemeFailed ''core'') (register w ''core'')) (\<lambda>_.
          and_then (unless_error (RaySchemeFailed ''jobset'') (register w ''jobset'')) (\<lambda>_.
          and_then (unless_error RayNoKubeconfig (kubeconfig w)) (\<lambda>_.
          and_then (unless_refused RayBadRateLimits (rayRateLimitsAccepted (rf_kubeQPS fl) (rf_kubeBurst fl))) (\<lambda>_.
          and_then (unless_error RayManagerFailed (new_manager w)) (\<lambda>_.
          and_then (step_ok w ''ray-bridge'') (\<lambda>_.
          wireProbes w (rayManager w fl cfg)))))))))"

section \<open>Readiness\<close>

definition informerSyncChecker :: "bool \<Rightarrow> error option" where
  "informerSyncChecker synced = (if synced then None else Some (Msg ''informer caches not synced yet''))"

text \<open>The readiness of the process: every check it has passes. \<open>started\<close> is the webhook server's own check.\<close>

definition ray_ready :: "ray_process \<Rightarrow> bool \<Rightarrow> bool \<Rightarrow> bool" where
  "ray_ready p synced started =
     list_all (\<lambda>c. if c = ''informer-sync'' then informerSyncChecker synced = None else started) (rp_checks p)"

section \<open>Lemmas\<close>

lemma wireProbes_Inr:
  assumes "wireProbes w p = Inr q"
  shows "rp_config q = rp_config p \<and> rp_cache q = rp_cache p \<and> rp_lease q = rp_lease p \<and> rp_webhook q = rp_webhook p
    \<and> rp_health q = rp_health p
    \<and> (rp_health p \<noteq> [] \<longrightarrow> rp_checks q = ''informer-sync'' # (if rp_webhook p then [''webhook-server''] else []))"
  using assms by (auto simp: wireProbes_def split: if_splits)

lemma ray_startup_InrE:
  assumes "ray_startup w fl = Inr p"
  obtains raw parsed cfg where "read_file w (rf_config fl) = Inr raw" "parse_ray w raw = Inr parsed"
    "RayLoad parsed = Inr cfg" "rp_config p = cfg" "rayImageGate (splitAndTrim (rf_allowedImages fl)) cfg"
    "rp_cache p = cacheScopedToNamespace [POD_NAMESPACE w, RayNamespace cfg]"
    "rp_lease p = rayLease (POD_NAMESPACE w) cfg" "rp_webhook p = rf_enableWebhook fl" "rp_health p = rf_healthAddr fl"
    "rf_healthAddr fl \<noteq> [] \<Longrightarrow> rp_checks p = ''informer-sync'' # (if rf_enableWebhook fl then [''webhook-server''] else [])"
proof -
  from assms obtain cfg where cfg: "RayLoadFile (read_file w) (parse_ray w) (rf_config fl) = Inr cfg"
    "rayImageGate (splitAndTrim (rf_allowedImages fl)) cfg" "wireProbes w (rayManager w fl cfg) = Inr p"
    by (auto simp: ray_startup_def split: sum.splits)
  then obtain raw parsed where "read_file w (rf_config fl) = Inr raw" "parse_ray w raw = Inr parsed" "RayLoad parsed = Inr cfg"
    by (auto simp: RayLoadFile_def split: sum.splits)
  then show ?thesis
    using cfg(2) wireProbes_Inr [OF cfg(3)] by (intro that [of raw parsed cfg]) (simp_all add: rayManager_def)
qed

lemma RayLoad_namespace: "RayLoad parsed = Inr cfg \<Longrightarrow> RayNamespace cfg \<noteq> []"
  by (auto simp: RayLoad_def RayValidate_def Let_def split: option.splits if_splits)

text \<open>The lease lies in a watched namespace, and so do the RayJobs of the configured one.\<close>

lemma ray_namespaces_watched:
  "ray_startup w fl = Inr p \<Longrightarrow> rp_lease p \<in> set (rp_cache p) \<and> RayNamespace (rp_config p) \<in> set (rp_cache p)"
  by (erule ray_startup_InrE) (auto simp: cacheScopedToNamespace_member rayLease_def dest: RayLoad_namespace)

lemma ready_after_sync:
  "ray_startup w fl = Inr p \<Longrightarrow> rf_healthAddr fl \<noteq> [] \<Longrightarrow>
     ray_ready p synced started \<longleftrightarrow> synced \<and> (rf_enableWebhook fl \<longrightarrow> started)"
  by (erule ray_startup_InrE) (auto simp: ray_ready_def informerSyncChecker_def)

lemma ToWorkerJobSet_images: "ToWorkerJobSet job cfg = Inr d \<Longrightarrow> images d = [WorkerImage (Worker cfg)]"
  by (auto simp: ToWorkerJobSet_def images_def workerContainer_def Let_def split: if_splits option.splits)

lemma ray_workers_vetted:
  assumes "ray_startup w fl = Inr p" "ToWorkerJobSet job (rp_config p) = Inr d" "img \<in> set (images d)"
    and "splitAndTrim (rf_allowedImages fl) \<noteq> []"
  shows "list_ex (HasPrefix img) (splitAndTrim (rf_allowedImages fl))"
  using assms(1)
  by (rule ray_startup_InrE)
    (use assms(2-4) ToWorkerJobSet_images [OF assms(2)] in \<open>auto simp: rayImageGate_def ValidateImageAllowed_def split: if_splits\<close>)

end
