(* ===== verification/Process_End.thy ===== *)
theory Process_End imports
  Ray_Main
begin

text \<open>
  The life of k8s-bridge after its start (\<open>cmd/k8s-bridge/main.go\<close>): the servers of metrics, probes and
  profiles, and the \<open>select\<close> of \<open>main\<close> between the manager and a failure of the metrics server; the shorter
  end of ray-bridge; and ray-bridge's own copies of the flag parsers.
\<close>

section \<open>The handlers\<close>

datatype handler =
    ServeMetrics | ServeHealthz | ServeReadyz
  | PprofIndex | PprofCmdline | PprofProfile | PprofSymbol | PprofTrace

definition serve_mux :: "(string \<times> handler) list" where
  "serve_mux = [(''/metrics'', ServeMetrics), (''/healthz'', ServeHealthz), (''/readyz'', ServeReadyz)]"

definition pprof_mux :: "(string \<times> handler) list" where
  "pprof_mux =
     [(''/debug/pprof/'', PprofIndex), (''/debug/pprof/cmdline'', PprofCmdline), (''/debug/pprof/profile'', PprofProfile),
      (''/debug/pprof/symbol'', PprofSymbol), (''/debug/pprof/trace'', PprofTrace)]"

text \<open>
  \<open>ServeMux\<close> for a clean path: a pattern that ends in a slash stands for all paths below it, another for
  itself; the longest pattern wins.
\<close>

definition pattern_matches :: "string \<Rightarrow> string \<Rightarrow> bool" where
  "pattern_matches pat path = (if last pat = CHR ''/'' then HasPrefix path pat else path = pat)"

definition route :: "(string \<times> handler) list \<Rightarrow> string \<Rightarrow> handler option" where
  "route mux path =
     (case sort_key (\<lambda>(pat, h). - int (length pat)) (filter (\<lambda>(pat, h). pattern_matches pat path) mux) of
        [] \<Rightarrow> None | (pat, h) # _ \<Rightarrow> Some h)"

text \<open>The profiles have a listener of their own, and only when there is an address for it.\<close>

definition listeners :: "process \<Rightarrow> (string \<times> (string \<times> handler) list) list" where
  "listeners p =
     (case pr_pprof p of None \<Rightarrow> [] | Some addr \<Rightarrow> [(addr, pprof_mux)])
     @ (case pr_metrics p of None \<Rightarrow> [] | Some addr \<Rightarrow> [(addr, serve_mux)])"

section \<open>The process\<close>

text \<open>\<open>Closed\<close> is the end by \<open>Shutdown\<close>: \<open>Serve\<close> has returned \<open>ErrServerClosed\<close>.\<close>

datatype server = Serving | Failed error | Closed

datatype manager = Running | Returned "error option"

text \<open>
  Without a metrics address there is no server, and \<open>metricsErr\<close> is a nil channel, which stays empty. Both
  channels are buffered; \<open>exited\<close> is the exit code.
\<close>

record life =
  cancelled :: bool
  server :: "server option"
  metricsErr :: "error list"
  mgr :: manager
  mgrDone :: "error option list"
  exited :: "int option"

definition begin_life :: "process \<Rightarrow> life" where
  "begin_life p =
     \<lparr>cancelled = False, server = map_option (\<lambda>_. Serving) (pr_metrics p), metricsErr = [], mgr = Running, mgrDone = [], exited = None\<rparr>"

text \<open>The goroutine of \<open>Serve\<close> sends the error that ended the server, unless that is \<open>ErrServerClosed\<close>.\<close>

definition serve_returned :: "server \<Rightarrow> life \<Rightarrow> life" where
  "serve_returned how st =
     (case how of
        Failed err \<Rightarrow> st\<lparr>server := Some how, metricsErr := metricsErr st @ [err]\<rparr>
      | _ \<Rightarrow> st\<lparr>server := Some how\<rparr>)"

text \<open>The two branches of the \<open>select\<close>.\<close>

definition select_manager :: "error option \<Rightarrow> life \<Rightarrow> life" where
  "select_manager r st = st\<lparr>mgrDone := tl (mgrDone st), exited := Some (exitCode (ManagerDone r (cancelled st)))\<rparr>"

definition select_metrics :: "error \<Rightarrow> life \<Rightarrow> life" where
  "select_metrics err st = st\<lparr>metricsErr := tl (metricsErr st), exited := Some (exitCode (MetricsServerFailed err))\<rparr>"

text \<open>
  Signals, the server, its shutdown and the manager move in any order. Only the first signal is a step of
  the process: on a second one the signal handler of the library ends it at once, with code 1.
\<close>

inductive life_step :: "life \<Rightarrow> life \<Rightarrow> bool" where
  signal: "exited st = None \<Longrightarrow> life_step st (st\<lparr>cancelled := True\<rparr>)"
| serve_fails: "exited st = None \<Longrightarrow> server st = Some Serving \<Longrightarrow> life_step st (serve_returned (Failed err) st)"
| shutdown: "exited st = None \<Longrightarrow> cancelled st \<Longrightarrow> server st = Some Serving \<Longrightarrow> life_step st (serve_returned Closed st)"
| manager: "exited st = None \<Longrightarrow> mgr st = Running \<Longrightarrow> life_step st (st\<lparr>mgr := Returned r, mgrDone := mgrDone st @ [r]\<rparr>)"
| from_manager: "exited st = None \<Longrightarrow> mgrDone st = r # rs \<Longrightarrow> life_step st (select_manager r st)"
| from_metrics: "exited st = None \<Longrightarrow> metricsErr st = err # errs \<Longrightarrow> life_step st (select_metrics err st)"

inductive life_run :: "life \<Rightarrow> life \<Rightarrow> bool" where
  start: "life_run st st"
| step: "life_run st st' \<Longrightarrow> life_step st' st'' \<Longrightarrow> life_run st st''"

text \<open>ray-bridge waits for its manager alone; the manager serves its metrics and probes.\<close>

definition rayExitCode :: "error option \<Rightarrow> bool \<Rightarrow> int" where
  "rayExitCode err ctx_err = (if err \<noteq> None \<and> \<not> ctx_err then 1 else 0)"

section \<open>The flag parsers of ray-bridge\<close>

text \<open>\<open>None\<close> is a cache of all namespaces.\<close>

definition rayCacheScoped :: "string list \<Rightarrow> string set option" where
  "rayCacheScoped namespaces =
     (let m = fold (\<lambda>ns m. if ns \<noteq> [] then insert ns m else m) namespaces {} in if m = {} then None else Some m)"

definition rayLogLevel :: "string \<Rightarrow> level" where
  "rayLogLevel s =
     (let l = ToLower (TrimSpace s) in
      if l = ''debug'' then LevelDebug
      else if l \<in> {''warn'', ''warning''} then LevelWarn
      else if l = ''error'' then LevelError
      else LevelInfo)"

fun ray_trimmed :: "string list \<Rightarrow> string list \<Rightarrow> string list" where
  "ray_trimmed [] out = out"
| "ray_trimmed (p # ps) out = (let q = TrimSpace p in ray_trimmed ps (if q \<noteq> [] then out @ [q] else out))"

definition raySplitAndTrim :: "string \<Rightarrow> string list" where
  "raySplitAndTrim s = ray_trimmed (Split_char CHR '','' s) []"

section \<open>Lemmas\<close>

text \<open>The copies agree with the functions of k8s-bridge, which \<open>Ray_Main\<close> uses for both.\<close>

lemma rayCacheScoped_eq:
  "rayCacheScoped nss = (let ns = cacheScopedToNamespace nss in if ns = [] then None else Some (set ns))"
proof -
  have "fold (\<lambda>ns m. if ns \<noteq> [] then insert ns m else m) nss m = m \<union> {ns \<in> set nss. ns \<noteq> []}" for m
    by (induction nss arbitrary: m) auto
  moreover have "set (cacheScopedToNamespace nss) = {ns \<in> set nss. ns \<noteq> []}" by (auto simp: cacheScopedToNamespace_def)
  ultimately show ?thesis unfolding rayCacheScoped_def Let_def by (metis empty_set set_empty2 sup_bot_left)
qed

lemma rayLogLevel_eq: "rayLogLevel s = parseLogLevel s"
  by (simp add: rayLogLevel_def parseLogLevel_def Let_def)

lemma raySplitAndTrim_eq: "raySplitAndTrim s = splitAndTrim s"
proof -
  have "ray_trimmed ps out = out @ filter (\<lambda>p. p \<noteq> []) (map TrimSpace ps)" for ps out
    by (induction ps arbitrary: out) (auto simp: Let_def)
  then show ?thesis by (simp add: raySplitAndTrim_def splitAndTrim_def)
qed

text \<open>No path of the metrics port leads to a profile: heap profiles hold the Slurm token.\<close>

lemma route_mem: "route mux path = Some h \<Longrightarrow> \<exists>pat. (pat, h) \<in> set mux \<and> pattern_matches pat path"
proof -
  assume "route mux path = Some h"
  then obtain pat rest where "sort_key (\<lambda>(pat, h). - int (length pat)) (filter (\<lambda>(pat, h). pattern_matches pat path) mux) = (pat, h) # rest"
    by (auto simp: route_def split: list.splits)
  then have "(pat, h) \<in> set (filter (\<lambda>(pat, h). pattern_matches pat path) mux)" by (metis list.set_intros(1) set_sort)
  then show ?thesis by auto
qed

lemma startup_pprof: "startup w fl = Inr p \<Longrightarrow> pr_pprof p = (if fl_pprofAddr fl = [] then None else Some (fl_pprofAddr fl))"
  by (auto simp: startup_def wire_def wireSupervisor_def wireBridge_def managerOptions_def
      split: option.splits binding.splits sum.splits if_splits)

lemma no_profile_without_pprof:
  assumes "startup w fl = Inr p" "fl_pprofAddr fl = []" "(addr, mux) \<in> set (listeners p)" "route mux path = Some h"
  shows "h \<in> {ServeMetrics, ServeHealthz, ServeReadyz}"
  using assms(2,3) startup_pprof [OF assms(1)] route_mem [OF assms(4)]
  by (auto simp: listeners_def serve_mux_def split: option.splits)

lemma probe_routes:
  "route serve_mux ''/healthz'' = Some ServeHealthz" "route serve_mux ''/readyz'' = Some ServeReadyz"
  "route serve_mux ''/debug/pprof/heap'' = None" "route pprof_mux ''/debug/pprof/heap'' = Some PprofIndex"
  "route pprof_mux ''/debug/pprof/trace'' = Some PprofTrace"
  by code_simp+

lemma serve_returned_simps [simp]:
  "cancelled (serve_returned how st) = cancelled st" "mgr (serve_returned how st) = mgr st"
  "mgrDone (serve_returned how st) = mgrDone st" "exited (serve_returned how st) = exited st"
  "server (serve_returned how st) = Some how"
  by (simp_all add: serve_returned_def split: server.split)

text \<open>What holds until the exit, and what the exit code then says.\<close>

definition exit_reason :: "life \<Rightarrow> int \<Rightarrow> bool" where
  "exit_reason st code \<longleftrightarrow>
     (\<exists>r. mgr st = Returned r \<and> code = (if r \<noteq> None \<and> \<not> cancelled st then 1 else 0))
     \<or> (\<exists>err. server st = Some (Failed err) \<and> code = 1)"

definition life_inv :: "bool \<Rightarrow> life \<Rightarrow> bool" where
  "life_inv probes st \<longleftrightarrow>
     (server st \<noteq> None \<longleftrightarrow> probes) \<and> (server st = Some Closed \<longrightarrow> cancelled st)
     \<and> (case exited st of
          None \<Rightarrow> metricsErr st = (case server st of Some (Failed err) \<Rightarrow> [err] | _ \<Rightarrow> [])
            \<and> mgrDone st = (case mgr st of Running \<Rightarrow> [] | Returned r \<Rightarrow> [r])
        | Some code \<Rightarrow> exit_reason st code)"

lemma life_inv_step: "life_step st st' \<Longrightarrow> life_inv probes st \<Longrightarrow> life_inv probes st'"
  by (induction rule: life_step.induct)
    (auto simp: life_inv_def serve_returned_def select_manager_def select_metrics_def exit_reason_def exitCode_def
      split: option.splits server.splits manager.splits)

lemma life_run_inv:
  assumes "life_run (begin_life p) st"
  shows "life_inv (pr_metrics p \<noteq> None) st"
  using assms
proof (induction "begin_life p" st rule: life_run.induct)
  case start
  then show ?case by (auto simp: life_inv_def begin_life_def split: option.split)
next
  case (step st' st'')
  then show ?case by (blast intro: life_inv_step)
qed

lemma startup_probes: "startup w fl = Inr p \<Longrightarrow> pr_metrics p \<noteq> None \<longleftrightarrow> fl_metricsAddr fl \<noteq> []"
  by (auto simp: startup_def startMetricsServer_def split: if_splits option.splits)

section \<open>Properties\<close>

text \<open>C27: no process without probes, and a truthful exit code. From a start with a metrics address on, as
  long as the process runs and is not asked to stop, either its probes are served, or the failure that
  ended their server waits for \<open>main\<close>, whose next step may be the exit with code 1; the goroutine that
  reports it is never blocked. And once it has exited, the code is 0 only if the manager returned without
  an error or after the process was asked to stop.\<close>

theorem probes_are_served_or_the_process_ends:
  assumes "startup w fl = Inr p" "fl_metricsAddr fl \<noteq> []" "life_run (begin_life p) st"
  shows "case exited st of
      None \<Rightarrow> cancelled st \<or> server st = Some Serving
        \<or> (\<exists>err. metricsErr st = [err] \<and> life_step st (select_metrics err st) \<and> exited (select_metrics err st) = Some 1)
    | Some code \<Rightarrow> (code = 0 \<and> (\<exists>r. mgr st = Returned r \<and> (r = None \<or> cancelled st)))
        \<or> (code = 1 \<and> ((\<exists>err. mgr st = Returned (Some err) \<and> \<not> cancelled st) \<or> (\<exists>err. server st = Some (Failed err))))"
proof (cases "exited st")
  case None
  have inv: "life_inv True st" using life_run_inv [OF assms(3)] startup_probes [OF assms(1)] assms(2) by simp
  then obtain s where "server st = Some s" by (auto simp: life_inv_def)
  then show ?thesis
    using inv None life_step.from_metrics [OF None, of _ "[]"]
    by (cases s) (auto simp: life_inv_def select_metrics_def exitCode_def)
next
  case (Some code)
  then have "exit_reason st code" using life_run_inv [OF assms(3)] by (simp add: life_inv_def)
  then show ?thesis by (auto simp: Some exit_reason_def split: if_splits)
qed

theorem probes_are_served_or_the_process_ends_witness:
  "\<exists>st. life_run (begin_life file_process) st \<and> \<not> cancelled st \<and> server st = Some (Failed (Msg ''accept'')) \<and> metricsErr st \<noteq> []"
proof -
  let ?s = "begin_life file_process"
  let ?t = "serve_returned (Failed (Msg ''accept'')) ?s"
  have s: "exited ?s = None" "server ?s = Some Serving" "\<not> cancelled ?s"
    by (simp_all add: begin_life_def file_process_def)
  then have run: "life_run ?s ?t" by (blast intro: life_run.intros life_step.serve_fails)
  have "fl_metricsAddr file_flags \<noteq> []" by (simp add: file_flags_def)
  from probes_are_served_or_the_process_ends [OF file_start this run] s run show ?thesis by auto
qed

end
