(* ===== verification/Deep_Copy.thy ===== *)
theory Deep_Copy imports
  Ready_Condition
begin

text \<open>
  The deep copies of the API types (\<open>api/v1alpha1/zz_generated.deepcopy.go\<close>) and the status patch
  that rests on one (\<open>UpdateReadyConditionReason\<close> in \<open>internal/bridge/crdconfig.go\<close>). The other
  theories pass objects as values; here their pointers and slices, and those of their metadata, are
  addresses in a store, so that sharing is visible, and a copied object is shown to be the same value and
  to share nothing.
\<close>

section \<open>Objects in a store\<close>

type_synonym addr = nat

text \<open>A slice is its backing array and its length; no slice of these types starts inside an array.\<close>

record slice =
  s_arr :: addr
  s_len :: nat

text \<open>The structs; \<open>None\<close> is a nil pointer or slice. \<open>sp_values\<close> holds the fields without pointers.\<close>

record slurmd_cell =
  sc_Image :: string
  sc_ConfServer :: string
  sc_AuthSecretName :: string
  sc_GPUResourceName :: string
  sc_Privileged :: "addr option"
  sc_SharedStorage :: "addr option"

record spec_cell =
  sp_values :: wm_spec
  sp_PartitionMappings :: "slice option"
  sp_Slurmd :: slurmd_cell
  sp_Topology :: topology

record condition =
  cd_Type :: string
  cd_Status :: string
  cd_Reason :: string
  cd_Message :: string
  cd_ObservedGeneration :: int
  cd_LastTransitionTime :: int

record status_cell =
  st_Conditions :: "slice option"

record 'm wm_cell =
  c_TypeMeta :: "string \<times> string"
  c_ObjectMeta :: 'm
  c_Spec :: spec_cell
  c_Status :: status_cell

record 'm list_cell =
  l_TypeMeta :: "string \<times> string"
  l_ListMeta :: 'm
  l_Items :: "slice option"

text \<open>
  One map per type of cell, arrays included; addresses from \<open>limit\<close> on are free. \<open>h_meta\<close> holds what the
  metadata of the API machinery points to: its maps of labels and annotations, its slices and pointers.
\<close>

record 'm store =
  h_bool :: "addr \<Rightarrow> bool"
  h_storage :: "addr \<Rightarrow> shared_storage"
  h_mapping :: "addr \<Rightarrow> partition_mapping"
  h_slurmd :: "addr \<Rightarrow> slurmd_cell"
  h_topology :: "addr \<Rightarrow> topology"
  h_spec :: "addr \<Rightarrow> spec_cell"
  h_status :: "addr \<Rightarrow> status_cell"
  h_obj :: "addr \<Rightarrow> 'm wm_cell"
  h_list :: "addr \<Rightarrow> 'm list_cell"
  a_mappings :: "addr \<Rightarrow> partition_mapping list"
  a_conditions :: "addr \<Rightarrow> condition list"
  a_items :: "addr \<Rightarrow> 'm wm_cell list"
  h_meta :: "addr \<Rightarrow> 'm"
  limit :: addr

text \<open>
  The types of the API machinery and their deep copies are not part of this repository. A metadata struct,
  and a cell it points to, is some \<open>'m\<close>; \<open>metaAddrs\<close> are the cells its pointers, maps and slices lead to
  (through others, too), \<open>metaValue\<close> is what can be read through them. A condition has no pointers.
\<close>

record 'm machinery =
  copyMeta :: "'m \<Rightarrow> 'm store \<Rightarrow> 'm \<times> 'm store"
  copyListMeta :: "'m \<Rightarrow> 'm store \<Rightarrow> 'm \<times> 'm store"
  copyCondition :: "condition \<Rightarrow> condition"
  metaAddrs :: "(addr \<Rightarrow> 'm) \<Rightarrow> 'm \<Rightarrow> addr set"
  metaValue :: "(addr \<Rightarrow> 'm) \<Rightarrow> 'm \<Rightarrow> 'm"

section \<open>Allocation\<close>

text \<open>\<open>new(T)\<close> and \<open>make([]T, n)\<close>, filled: \<open>upd\<close> is the update function of the map the cell goes to.\<close>

definition alloc :: "(((addr \<Rightarrow> 'v) \<Rightarrow> addr \<Rightarrow> 'v) \<Rightarrow> 'm store \<Rightarrow> 'm store) \<Rightarrow> 'v \<Rightarrow> 'm store \<Rightarrow> addr \<times> 'm store" where
  "alloc upd v st = (limit st, (upd (\<lambda>h. h(limit st := v)) st)\<lparr>limit := Suc (limit st)\<rparr>)"

section \<open>DeepCopyInto\<close>

text \<open>
  \<open>in.DeepCopyInto(out)\<close> takes the struct at \<open>in\<close> and returns the one written to \<open>out\<close>. A pointer is
  copied by allocating what it points to; a slice by allocating an array of its length.
\<close>

definition copy_pointer :: "(((addr \<Rightarrow> 'v) \<Rightarrow> addr \<Rightarrow> 'v) \<Rightarrow> 'm store \<Rightarrow> 'm store) \<Rightarrow> (addr \<Rightarrow> 'v) \<Rightarrow> addr option \<Rightarrow> 'm store \<Rightarrow>
    addr option \<times> 'm store" where
  "copy_pointer upd h p st =
     (case p of None \<Rightarrow> (None, st) | Some a \<Rightarrow> (case alloc upd (h a) st of (a', st') \<Rightarrow> (Some a', st')))"

definition copy_slice :: "(((addr \<Rightarrow> 'v list) \<Rightarrow> addr \<Rightarrow> 'v list) \<Rightarrow> 'm store \<Rightarrow> 'm store) \<Rightarrow> ('v \<Rightarrow> 'v) \<Rightarrow> (addr \<Rightarrow> 'v list) \<Rightarrow>
    slice option \<Rightarrow> 'm store \<Rightarrow> slice option \<times> 'm store" where
  "copy_slice upd f h s st =
     (case s of
        None \<Rightarrow> (None, st)
      | Some sl \<Rightarrow>
          (case alloc upd (map f (take (s_len sl) (h (s_arr sl)))) st of
             (a, st') \<Rightarrow> (Some \<lparr>s_arr = a, s_len = s_len sl\<rparr>, st')))"

definition PartitionMapping_DeepCopyInto :: "partition_mapping \<Rightarrow> 'm store \<Rightarrow> partition_mapping \<times> 'm store" where
  "PartitionMapping_DeepCopyInto c st = (c, st)"

definition SharedStorage_DeepCopyInto :: "shared_storage \<Rightarrow> 'm store \<Rightarrow> shared_storage \<times> 'm store" where
  "SharedStorage_DeepCopyInto c st = (c, st)"

definition Topology_DeepCopyInto :: "topology \<Rightarrow> 'm store \<Rightarrow> topology \<times> 'm store" where
  "Topology_DeepCopyInto c st = (c, st)"

definition Slurmd_DeepCopyInto :: "slurmd_cell \<Rightarrow> 'm store \<Rightarrow> slurmd_cell \<times> 'm store" where
  "Slurmd_DeepCopyInto c st =
     (case copy_pointer h_bool_update (h_bool st) (sc_Privileged c) st of
        (p, st1) \<Rightarrow>
      case copy_pointer h_storage_update (h_storage st1) (sc_SharedStorage c) st1 of
        (s, st2) \<Rightarrow> (c\<lparr>sc_Privileged := p, sc_SharedStorage := s\<rparr>, st2))"

definition Spec_DeepCopyInto :: "spec_cell \<Rightarrow> 'm store \<Rightarrow> spec_cell \<times> 'm store" where
  "Spec_DeepCopyInto c st =
     (case copy_slice a_mappings_update id (a_mappings st) (sp_PartitionMappings c) st of
        (ms, st1) \<Rightarrow>
      case Slurmd_DeepCopyInto (sp_Slurmd c) st1 of
        (sl, st2) \<Rightarrow> (c\<lparr>sp_PartitionMappings := ms, sp_Slurmd := sl, sp_Topology := sp_Topology c\<rparr>, st2))"

definition Status_DeepCopyInto :: "'m machinery \<Rightarrow> status_cell \<Rightarrow> 'm store \<Rightarrow> status_cell \<times> 'm store" where
  "Status_DeepCopyInto m c st =
     (case copy_slice a_conditions_update (copyCondition m) (a_conditions st) (st_Conditions c) st of
        (cs, st1) \<Rightarrow> (c\<lparr>st_Conditions := cs\<rparr>, st1))"

definition WorkloadMixing_DeepCopyInto :: "'m machinery \<Rightarrow> 'm wm_cell \<Rightarrow> 'm store \<Rightarrow> 'm wm_cell \<times> 'm store" where
  "WorkloadMixing_DeepCopyInto m c st =
     (case copyMeta m (c_ObjectMeta c) st of
        (md, st1) \<Rightarrow>
      case Spec_DeepCopyInto (c_Spec c) st1 of
        (sp, st2) \<Rightarrow>
      case Status_DeepCopyInto m (c_Status c) st2 of
        (stt, st3) \<Rightarrow> (c\<lparr>c_ObjectMeta := md, c_Spec := sp, c_Status := stt\<rparr>, st3))"

text \<open>The loop over the items, after \<open>i\<close> of them; the array of the copy is at \<open>dst\<close>.\<close>

fun copy_items :: "'m machinery \<Rightarrow> 'm wm_cell list \<Rightarrow> addr \<Rightarrow> nat \<Rightarrow> 'm store \<Rightarrow> 'm store" where
  "copy_items m [] dst i st = st"
| "copy_items m (c # cs) dst i st =
     (case WorkloadMixing_DeepCopyInto m c st of
        (c', st') \<Rightarrow> copy_items m cs dst (Suc i) (st'\<lparr>a_items := (a_items st')(dst := (a_items st' dst)[i := c'])\<rparr>))"

definition List_DeepCopyInto :: "'m machinery \<Rightarrow> 'm wm_cell \<Rightarrow> 'm list_cell \<Rightarrow> 'm store \<Rightarrow> 'm list_cell \<times> 'm store" where
  "List_DeepCopyInto m zero c st =
     (case copyListMeta m (l_ListMeta c) st of
        (md, st1) \<Rightarrow>
      case l_Items c of
        None \<Rightarrow> (c\<lparr>l_ListMeta := md\<rparr>, st1)
      | Some sl \<Rightarrow>
          (case alloc a_items_update (replicate (s_len sl) zero) st1 of
             (a, st2) \<Rightarrow>
               (c\<lparr>l_ListMeta := md, l_Items := Some \<lparr>s_arr = a, s_len = s_len sl\<rparr>\<rparr>,
                copy_items m (take (s_len sl) (a_items st1 (s_arr sl))) a 0 st2)))"

section \<open>DeepCopy\<close>

text \<open>The same function for every type: nil stays nil, anything else is copied into a new cell.\<close>

definition deep_copy :: "(((addr \<Rightarrow> 'v) \<Rightarrow> addr \<Rightarrow> 'v) \<Rightarrow> 'm store \<Rightarrow> 'm store) \<Rightarrow> ('m store \<Rightarrow> addr \<Rightarrow> 'v) \<Rightarrow>
    ('v \<Rightarrow> 'm store \<Rightarrow> 'v \<times> 'm store) \<Rightarrow> addr option \<Rightarrow> 'm store \<Rightarrow> addr option \<times> 'm store" where
  "deep_copy upd h into p st =
     (case p of
        None \<Rightarrow> (None, st)
      | Some a \<Rightarrow>
          (case alloc upd (h st a) st of
             (a', st1) \<Rightarrow> (case into (h st a) st1 of (c, st2) \<Rightarrow> (Some a', upd (\<lambda>m. m(a' := c)) st2))))"

definition PartitionMapping_DeepCopy :: "addr option \<Rightarrow> 'm store \<Rightarrow> addr option \<times> 'm store" where
  "PartitionMapping_DeepCopy = deep_copy h_mapping_update h_mapping PartitionMapping_DeepCopyInto"

definition SharedStorage_DeepCopy :: "addr option \<Rightarrow> 'm store \<Rightarrow> addr option \<times> 'm store" where
  "SharedStorage_DeepCopy = deep_copy h_storage_update h_storage SharedStorage_DeepCopyInto"

definition Topology_DeepCopy :: "addr option \<Rightarrow> 'm store \<Rightarrow> addr option \<times> 'm store" where
  "Topology_DeepCopy = deep_copy h_topology_update h_topology Topology_DeepCopyInto"

definition Slurmd_DeepCopy :: "addr option \<Rightarrow> 'm store \<Rightarrow> addr option \<times> 'm store" where
  "Slurmd_DeepCopy = deep_copy h_slurmd_update h_slurmd Slurmd_DeepCopyInto"

definition Spec_DeepCopy :: "addr option \<Rightarrow> 'm store \<Rightarrow> addr option \<times> 'm store" where
  "Spec_DeepCopy = deep_copy h_spec_update h_spec Spec_DeepCopyInto"

definition Status_DeepCopy :: "'m machinery \<Rightarrow> addr option \<Rightarrow> 'm store \<Rightarrow> addr option \<times> 'm store" where
  "Status_DeepCopy m = deep_copy h_status_update h_status (Status_DeepCopyInto m)"

definition WorkloadMixing_DeepCopy :: "'m machinery \<Rightarrow> addr option \<Rightarrow> 'm store \<Rightarrow> addr option \<times> 'm store" where
  "WorkloadMixing_DeepCopy m = deep_copy h_obj_update h_obj (WorkloadMixing_DeepCopyInto m)"

definition List_DeepCopy :: "'m machinery \<Rightarrow> 'm wm_cell \<Rightarrow> addr option \<Rightarrow> 'm store \<Rightarrow> addr option \<times> 'm store" where
  "List_DeepCopy m zero = deep_copy h_list_update h_list (List_DeepCopyInto m zero)"

section \<open>Values and what they depend on\<close>

definition agree_on :: "addr set \<Rightarrow> 'm store \<Rightarrow> 'm store \<Rightarrow> bool" where
  "agree_on A st st' \<longleftrightarrow> (\<forall>a \<in> A.
     h_bool st a = h_bool st' a \<and> h_storage st a = h_storage st' a \<and> h_mapping st a = h_mapping st' a
     \<and> h_slurmd st a = h_slurmd st' a \<and> h_topology st a = h_topology st' a \<and> h_spec st a = h_spec st' a
     \<and> h_status st a = h_status st' a \<and> h_obj st a = h_obj st' a \<and> h_list st a = h_list st' a
     \<and> a_mappings st a = a_mappings st' a \<and> a_conditions st a = a_conditions st' a \<and> a_items st a = a_items st' a
     \<and> h_meta st a = h_meta st' a)"

text \<open>What an allocation does to the cells that were there before: nothing.\<close>

definition keeps :: "'m store \<Rightarrow> 'm store \<Rightarrow> bool" where
  "keeps st st' \<longleftrightarrow> limit st \<le> limit st' \<and> agree_on {..<limit st} st st'"

lemma agree_on_refl [simp]: "agree_on A st st"
  by (simp add: agree_on_def)

lemma agree_on_trans: "agree_on A st1 st2 \<Longrightarrow> agree_on A st2 st3 \<Longrightarrow> agree_on A st1 st3"
  by (simp add: agree_on_def)

lemma agree_on_subset: "agree_on B st st' \<Longrightarrow> A \<subseteq> B \<Longrightarrow> agree_on A st st'"
  by (auto simp: agree_on_def)

lemma keeps_refl [simp]: "keeps st st"
  by (simp add: keeps_def)

lemma keeps_trans: "keeps st1 st2 \<Longrightarrow> keeps st2 st3 \<Longrightarrow> keeps st1 st3"
  unfolding keeps_def by (meson agree_on_subset agree_on_trans lessThan_subset_iff order_trans)

lemma keeps_agree: "keeps st st' \<Longrightarrow> A \<subseteq> {..<limit st} \<Longrightarrow> agree_on A st st'"
  unfolding keeps_def by (blast intro: agree_on_subset)

definition slice_addrs :: "slice option \<Rightarrow> addr set" where
  "slice_addrs s = s_arr ` set_option s"

definition slice_value :: "(addr \<Rightarrow> 'v list) \<Rightarrow> slice option \<Rightarrow> 'v list option" where
  "slice_value h s = map_option (\<lambda>sl. take (s_len sl) (h (s_arr sl))) s"

definition slurmd_addrs :: "slurmd_cell \<Rightarrow> addr set" where
  "slurmd_addrs c = set_option (sc_Privileged c) \<union> set_option (sc_SharedStorage c)"

definition slurmd_value :: "'m store \<Rightarrow> slurmd_cell \<Rightarrow> slurmd" where
  "slurmd_value st c =
     \<lparr>Image = sc_Image c, ConfServer = sc_ConfServer c, AuthSecretName = sc_AuthSecretName c,
      GPUResourceName = sc_GPUResourceName c, Privileged = map_option (h_bool st) (sc_Privileged c),
      SharedStorage = map_option (h_storage st) (sc_SharedStorage c)\<rparr>"

definition spec_addrs :: "spec_cell \<Rightarrow> addr set" where
  "spec_addrs c = slice_addrs (sp_PartitionMappings c) \<union> slurmd_addrs (sp_Slurmd c)"

text \<open>The specification as the other theories have it; whether the list was nil is kept beside it.\<close>

definition spec_value :: "'m store \<Rightarrow> spec_cell \<Rightarrow> wm_spec \<times> bool" where
  "spec_value st c =
     ((sp_values c)\<lparr>
        cr_PartitionMappings := (case slice_value (a_mappings st) (sp_PartitionMappings c) of None \<Rightarrow> [] | Some ms \<Rightarrow> ms),
        cr_Slurmd := slurmd_value st (sp_Slurmd c), cr_Topology := sp_Topology c\<rparr>,
      sp_PartitionMappings c = None)"

definition status_addrs :: "status_cell \<Rightarrow> addr set" where
  "status_addrs c = slice_addrs (st_Conditions c)"

definition status_value :: "'m store \<Rightarrow> status_cell \<Rightarrow> condition list option" where
  "status_value st c = slice_value (a_conditions st) (st_Conditions c)"

record 'm wm_value =
  v_TypeMeta :: "string \<times> string"
  v_ObjectMeta :: 'm
  v_Spec :: "wm_spec \<times> bool"
  v_Conditions :: "condition list option"

text \<open>An object's cells and its value, those of its metadata included.\<close>

definition cell_addrs :: "'m machinery \<Rightarrow> 'm store \<Rightarrow> 'm wm_cell \<Rightarrow> addr set" where
  "cell_addrs m st c = metaAddrs m (h_meta st) (c_ObjectMeta c) \<union> spec_addrs (c_Spec c) \<union> status_addrs (c_Status c)"

definition cell_value :: "'m machinery \<Rightarrow> 'm store \<Rightarrow> 'm wm_cell \<Rightarrow> 'm wm_value" where
  "cell_value m st c =
     \<lparr>v_TypeMeta = c_TypeMeta c, v_ObjectMeta = metaValue m (h_meta st) (c_ObjectMeta c),
      v_Spec = spec_value st (c_Spec c), v_Conditions = status_value st (c_Status c)\<rparr>"

section \<open>The interface of a deep copy\<close>

text \<open>
  A copier takes a struct with its cells and its value. Both depend on these cells only; the copy keeps
  what was there, has new cells only, and is the value again, up to what the machinery's own copies (\<open>g\<close>)
  make of the parts that are theirs.
\<close>

locale copier =
  fixes into :: "'c \<Rightarrow> 'm store \<Rightarrow> 'c \<times> 'm store"
    and addrs :: "'m store \<Rightarrow> 'c \<Rightarrow> addr set"
    and val :: "'m store \<Rightarrow> 'c \<Rightarrow> 'v"
    and g :: "'v \<Rightarrow> 'v"
  assumes addrs_local: "agree_on (addrs st c) st st' \<Longrightarrow> addrs st' c = addrs st c"
    and val_local: "agree_on (addrs st c) st st' \<Longrightarrow> val st' c = val st c"
    and into_keeps: "into c st = (c', st') \<Longrightarrow> keeps st st'"
    and into_fresh: "into c st = (c', st') \<Longrightarrow> addrs st c \<subseteq> {..<limit st} \<Longrightarrow> addrs st' c' \<subseteq> {limit st..<limit st'}"
    and into_value: "into c st = (c', st') \<Longrightarrow> addrs st c \<subseteq> {..<limit st} \<Longrightarrow> val st' c' = g (val st c)"
begin

lemma original_unchanged:
  assumes "into c st = (c', st')" "addrs st c \<subseteq> {..<limit st}"
  shows "addrs st' c = addrs st c" "val st' c = val st c"
  using addrs_local [OF keeps_agree] val_local [OF keeps_agree] into_keeps [OF assms(1)] assms(2) by blast+

lemma nothing_shared:
  "into c st = (c', st') \<Longrightarrow> addrs st c \<subseteq> {..<limit st} \<Longrightarrow> addrs st' c \<inter> addrs st' c' = {}"
  using into_fresh original_unchanged(1) by fastforce

end

text \<open>
  What the code relies on of the API machinery: its deep copies of metadata are deep copies, and a
  condition is copied as it is.
\<close>

definition faithful_machinery :: "'m machinery \<Rightarrow> bool" where
  "faithful_machinery m \<longleftrightarrow>
     copier (copyMeta m) (\<lambda>st. metaAddrs m (h_meta st)) (\<lambda>st. metaValue m (h_meta st)) id
     \<and> copier (copyListMeta m) (\<lambda>st. metaAddrs m (h_meta st)) (\<lambda>st. metaValue m (h_meta st)) id
     \<and> copyCondition m = id"

text \<open>A map of the store: its update function writes to one address of it.\<close>

locale cells =
  fixes upd :: "((addr \<Rightarrow> 'c) \<Rightarrow> addr \<Rightarrow> 'c) \<Rightarrow> 'm store \<Rightarrow> 'm store"
    and h :: "'m store \<Rightarrow> addr \<Rightarrow> 'c"
  assumes upd_get: "h (upd f st) = f (h st)"
    and upd_limit: "limit (upd f st) = limit st"
    and limit_get: "h (st\<lparr>limit := n\<rparr>) = h st"
    and get_local: "agree_on A st st' \<Longrightarrow> a \<in> A \<Longrightarrow> h st' a = h st a"
    and upd_others: "a \<notin> A \<Longrightarrow> agree_on A st (upd (\<lambda>m. m(a := v)) st)"
begin

lemma alloc_result:
  assumes "alloc upd v st = (a, st')"
  shows "a = limit st" "limit st' = Suc (limit st)" "h st' a = v" "keeps st st'"
proof -
  have st': "a = limit st" "st' = (upd (\<lambda>m. m(limit st := v)) st)\<lparr>limit := Suc (limit st)\<rparr>"
    using assms by (auto simp: alloc_def)
  then show "a = limit st" "limit st' = Suc (limit st)" "h st' a = v"
    by (simp_all add: upd_get limit_get)
  have "agree_on {..<limit st} st (upd (\<lambda>m. m(limit st := v)) st)" by (rule upd_others) simp
  then show "keeps st st'" by (simp add: st' keeps_def agree_on_def)
qed

lemma copy_pointer_result:
  assumes "copy_pointer upd (h st) p st = (p', st')"
  shows "keeps st st'" "set_option p' \<subseteq> {limit st..<limit st'}" "map_option (h st') p' = map_option (h st) p"
proof -
  show "keeps st st'" "set_option p' \<subseteq> {limit st..<limit st'}" "map_option (h st') p' = map_option (h st) p"
    using assms alloc_result
    by (auto simp: copy_pointer_def split: option.splits prod.splits)
qed

end

locale arrays = cells upd h
  for upd :: "((addr \<Rightarrow> 'v list) \<Rightarrow> addr \<Rightarrow> 'v list) \<Rightarrow> 'm store \<Rightarrow> 'm store" and h :: "'m store \<Rightarrow> addr \<Rightarrow> 'v list"
begin

lemma copy_slice_result:
  assumes "copy_slice upd f (h st) s st = (s', st')"
  shows "keeps st st'" "slice_addrs s' \<subseteq> {limit st..<limit st'}"
    "slice_value (h st') s' = map_option (map f) (slice_value (h st) s)" "s' = None \<longleftrightarrow> s = None"
  using assms alloc_result
  by (auto simp: copy_slice_def slice_addrs_def slice_value_def take_map split: option.splits prod.splits)

end

text \<open>A copier together with the map its structs live in has a \<open>DeepCopy\<close>.\<close>

locale deep_copier = copier into addrs val g + cells upd h
  for into :: "'c \<Rightarrow> 'm store \<Rightarrow> 'c \<times> 'm store" and addrs :: "'m store \<Rightarrow> 'c \<Rightarrow> addr set"
    and val :: "'m store \<Rightarrow> 'c \<Rightarrow> 'v" and g :: "'v \<Rightarrow> 'v"
    and upd :: "((addr \<Rightarrow> 'c) \<Rightarrow> addr \<Rightarrow> 'c) \<Rightarrow> 'm store \<Rightarrow> 'm store" and h :: "'m store \<Rightarrow> addr \<Rightarrow> 'c"
begin

lemma deep_copy_nil: "deep_copy upd h into None st = (None, st)"
  by (simp add: deep_copy_def)

lemma deep_copy_result:
  assumes "deep_copy upd h into (Some a) st = (r, st')" "insert a (addrs st (h st a)) \<subseteq> {..<limit st}"
  obtains b where "r = Some b" "keeps st st'" "insert b (addrs st' (h st' b)) \<subseteq> {limit st..<limit st'}"
    "val st' (h st' b) = g (val st (h st a))"
proof -
  obtain b st1 where al: "alloc upd (h st a) st = (b, st1)" by (rule prod.exhaust)
  note al' = alloc_result [OF al]
  obtain c st2 where co: "into (h st a) st1 = (c, st2)" by (rule prod.exhaust)
  have st': "r = Some b" "st' = upd (\<lambda>m. m(b := c)) st2" using assms(1) by (auto simp: deep_copy_def al co)
  have same: "agree_on (addrs st (h st a)) st st1" by (rule keeps_agree [OF al'(4)]) (use assms(2) in simp)
  have old: "addrs st1 (h st a) \<subseteq> {..<limit st1}" unfolding addrs_local [OF same] using assms(2) al'(2) by auto
  have cell: "h st' b = c" by (simp add: st'(2) upd_get)
  have new: "addrs st2 c \<subseteq> {limit st1..<limit st2}" by (rule into_fresh [OF co old])
  have lim: "limit st' = limit st2" "limit st1 \<le> limit st2"
    using into_keeps [OF co] by (simp_all add: st'(2) upd_limit keeps_def)
  have stored: "agree_on (addrs st2 c) st2 st'" unfolding st'(2) by (rule upd_others) (use new al'(1,2) in auto)
  have "keeps st st2" by (rule keeps_trans [OF al'(4) into_keeps [OF co]])
  moreover have "agree_on {..<limit st} st2 st'" unfolding st'(2) by (rule upd_others) (simp add: al'(1))
  ultimately have "keeps st st'" using lim(1) by (auto simp: keeps_def intro: agree_on_trans)
  moreover have "insert b (addrs st' (h st' b)) \<subseteq> {limit st..<limit st'}"
    unfolding cell addrs_local [OF stored] using new lim al'(1,2) by fastforce
  moreover have "val st' (h st' b) = g (val st (h st a))"
    unfolding cell val_local [OF stored] into_value [OF co old] val_local [OF same] ..
  ultimately show thesis using that st'(1) by blast
qed

text \<open>The value behind a pointer, and the cells it depends on.\<close>

lemma value_behind:
  assumes "agree_on (insert a (addrs st (h st a))) st st'"
  shows "val st' (h st' a) = val st (h st a)" "addrs st' (h st' a) = addrs st (h st a)"
proof -
  have "h st' a = h st a" by (rule get_local [OF assms]) simp
  moreover have "agree_on (addrs st (h st a)) st st'" by (rule agree_on_subset [OF assms]) blast
  ultimately show "val st' (h st' a) = val st (h st a)" "addrs st' (h st' a) = addrs st (h st a)"
    using val_local addrs_local by simp_all
qed

end

section \<open>The maps and the copiers of the program\<close>

interpretation bool_cells: cells h_bool_update h_bool by unfold_locales (auto simp: agree_on_def)
interpretation storage_cells: cells h_storage_update h_storage by unfold_locales (auto simp: agree_on_def)
interpretation mapping_arrays: arrays a_mappings_update a_mappings by unfold_locales (auto simp: agree_on_def)
interpretation condition_arrays: arrays a_conditions_update a_conditions by unfold_locales (auto simp: agree_on_def)
interpretation item_arrays: arrays a_items_update a_items by unfold_locales (auto simp: agree_on_def)

lemma slice_local: "(\<And>a. a \<in> slice_addrs s \<Longrightarrow> h a = h' a) \<Longrightarrow> slice_value h s = slice_value h' s"
  by (cases s) (auto simp: slice_addrs_def slice_value_def)

interpretation partition_mapping: deep_copier PartitionMapping_DeepCopyInto "\<lambda>_ _. {}" "\<lambda>_ c. c" id h_mapping_update h_mapping
  by unfold_locales (auto simp: PartitionMapping_DeepCopyInto_def agree_on_def)

interpretation shared_storage: deep_copier SharedStorage_DeepCopyInto "\<lambda>_ _. {}" "\<lambda>_ c. c" id h_storage_update h_storage
  by unfold_locales (auto simp: SharedStorage_DeepCopyInto_def agree_on_def)

interpretation topology: deep_copier Topology_DeepCopyInto "\<lambda>_ _. {}" "\<lambda>_ c. c" id h_topology_update h_topology
  by unfold_locales (auto simp: Topology_DeepCopyInto_def agree_on_def)

lemma Slurmd_copy:
  assumes "Slurmd_DeepCopyInto c st = (c', st')"
  shows "keeps st st'" "slurmd_addrs c' \<subseteq> {limit st..<limit st'}"
    "slurmd_addrs c \<subseteq> {..<limit st} \<Longrightarrow> slurmd_value st' c' = slurmd_value st c"
proof -
  obtain p st1 where p: "copy_pointer h_bool_update (h_bool st) (sc_Privileged c) st = (p, st1)" by (rule prod.exhaust)
  obtain s st2 where s: "copy_pointer h_storage_update (h_storage st1) (sc_SharedStorage c) st1 = (s, st2)" by (rule prod.exhaust)
  note p' = bool_cells.copy_pointer_result [OF p] and s' = storage_cells.copy_pointer_result [OF s]
  have c': "c' = c\<lparr>sc_Privileged := p, sc_SharedStorage := s\<rparr>" "st' = st2"
    using assms by (simp_all add: Slurmd_DeepCopyInto_def p s)
  show "keeps st st'" unfolding c' by (rule keeps_trans [OF p'(1) s'(1)])
  have lim: "limit st \<le> limit st1" "limit st1 \<le> limit st2" using p'(1) s'(1) by (simp_all add: keeps_def)
  show "slurmd_addrs c' \<subseteq> {limit st..<limit st'}"
    using p'(2) s'(2) lim by (fastforce simp: c' slurmd_addrs_def)
  assume old: "slurmd_addrs c \<subseteq> {..<limit st}"
  have "agree_on (set_option p) st1 st2" using p'(2) by (intro keeps_agree [OF s'(1)]) auto
  then have "map_option (h_bool st2) p = map_option (h_bool st1) p"
    by (auto simp: agree_on_def intro: option.map_cong)
  moreover have "agree_on (set_option (sc_SharedStorage c)) st st1"
    using old by (intro keeps_agree [OF p'(1)]) (simp add: slurmd_addrs_def)
  then have "map_option (h_storage st1) (sc_SharedStorage c) = map_option (h_storage st) (sc_SharedStorage c)"
    by (auto simp: agree_on_def intro: option.map_cong)
  ultimately show "slurmd_value st' c' = slurmd_value st c"
    using p'(3) s'(3) by (simp add: c' slurmd_value_def)
qed

lemma slurmd_local: "agree_on (slurmd_addrs c) st st' \<Longrightarrow> slurmd_value st' c = slurmd_value st c"
  by (auto simp: slurmd_value_def slurmd_addrs_def agree_on_def intro: option.map_cong)

interpretation slurmd_cells: cells h_slurmd_update h_slurmd by unfold_locales (auto simp: agree_on_def)
interpretation slurmd: deep_copier Slurmd_DeepCopyInto "\<lambda>_. slurmd_addrs" slurmd_value id h_slurmd_update h_slurmd
  by unfold_locales (simp_all add: slurmd_local Slurmd_copy)

lemma Spec_copy:
  assumes "Spec_DeepCopyInto c st = (c', st')"
  shows "keeps st st'" "spec_addrs c' \<subseteq> {limit st..<limit st'}"
    "spec_addrs c \<subseteq> {..<limit st} \<Longrightarrow> spec_value st' c' = spec_value st c"
proof -
  obtain ms st1 where ms: "copy_slice a_mappings_update id (a_mappings st) (sp_PartitionMappings c) st = (ms, st1)" by (rule prod.exhaust)
  obtain sl st2 where sl: "Slurmd_DeepCopyInto (sp_Slurmd c) st1 = (sl, st2)" by (rule prod.exhaust)
  note ms' = mapping_arrays.copy_slice_result [OF ms] and sl' = Slurmd_copy [OF sl]
  have c': "c' = c\<lparr>sp_PartitionMappings := ms, sp_Slurmd := sl\<rparr>" "st' = st2"
    using assms by (simp_all add: Spec_DeepCopyInto_def ms sl)
  show "keeps st st'" unfolding c' by (rule keeps_trans [OF ms'(1) sl'(1)])
  have lim: "limit st \<le> limit st1" "limit st1 \<le> limit st2" using ms'(1) sl'(1) by (simp_all add: keeps_def)
  show "spec_addrs c' \<subseteq> {limit st..<limit st'}"
    using ms'(2) sl'(2) lim by (fastforce simp: c' spec_addrs_def)
  assume old: "spec_addrs c \<subseteq> {..<limit st}"
  have "agree_on (slice_addrs ms) st1 st2" using ms'(2) by (intro keeps_agree [OF sl'(1)]) auto
  then have "slice_value (a_mappings st2) ms = slice_value (a_mappings st1) ms"
    by (intro slice_local) (simp add: agree_on_def)
  moreover have "slurmd_value st1 (sp_Slurmd c) = slurmd_value st (sp_Slurmd c)"
    using old by (intro slurmd_local keeps_agree [OF ms'(1)]) (simp add: spec_addrs_def)
  moreover have "slurmd_value st2 sl = slurmd_value st1 (sp_Slurmd c)"
    using old lim(1) by (intro sl'(3)) (auto simp: spec_addrs_def)
  ultimately show "spec_value st' c' = spec_value st c"
    using ms'(3,4) by (simp add: c' spec_value_def option.map_id list.map_id0)
qed

lemma spec_local: "agree_on (spec_addrs c) st st' \<Longrightarrow> spec_value st' c = spec_value st c"
  using slurmd_local [of "sp_Slurmd c" st st'] slice_local [of "sp_PartitionMappings c" "a_mappings st" "a_mappings st'"]
  by (auto simp: spec_value_def spec_addrs_def agree_on_def)

interpretation spec_cells: cells h_spec_update h_spec by unfold_locales (auto simp: agree_on_def)
interpretation spec: deep_copier Spec_DeepCopyInto "\<lambda>_. spec_addrs" spec_value id h_spec_update h_spec
  by unfold_locales (simp_all add: spec_local Spec_copy)

lemma Status_copy:
  assumes "Status_DeepCopyInto m c st = (c', st')"
  shows "keeps st st'" "status_addrs c' \<subseteq> {limit st..<limit st'}"
    "status_value st' c' = map_option (map (copyCondition m)) (status_value st c)"
  using assms condition_arrays.copy_slice_result [of "copyCondition m" st "st_Conditions c"]
  by (auto simp: Status_DeepCopyInto_def status_addrs_def status_value_def split: prod.splits)

lemma status_local: "agree_on (status_addrs c) st st' \<Longrightarrow> status_value st' c = status_value st c"
  using slice_local [of "st_Conditions c" "a_conditions st" "a_conditions st'"]
  by (auto simp: status_value_def status_addrs_def agree_on_def)

interpretation status_cells: cells h_status_update h_status by unfold_locales (auto simp: agree_on_def)
interpretation status: deep_copier "Status_DeepCopyInto m" "\<lambda>_. status_addrs" status_value "map_option (map (copyCondition m))"
    h_status_update h_status for m
  by unfold_locales (simp_all add: status_local Status_copy)

section \<open>Objects\<close>

text \<open>The cells and the value of metadata depend on \<open>h_meta\<close> at its cells only.\<close>

lemma meta_local:
  assumes "faithful_machinery m" "\<forall>a \<in> metaAddrs m h x. h a = h' a"
  shows "metaAddrs m h' x = metaAddrs m h x" "metaValue m h' x = metaValue m h x"
proof -
  have C: "copier (copyMeta m) (\<lambda>st. metaAddrs m (h_meta st)) (\<lambda>st. metaValue m (h_meta st)) id"
    using assms(1) by (simp add: faithful_machinery_def)
  define st where "st = (undefined :: 'a store)\<lparr>h_meta := h\<rparr>"
  have st: "h_meta st = h" by (simp add: st_def)
  have "agree_on (metaAddrs m (h_meta st) x) st (st\<lparr>h_meta := h'\<rparr>)" using assms(2) by (simp add: agree_on_def st)
  from copier.addrs_local [OF C this] copier.val_local [OF C this]
  show "metaAddrs m h' x = metaAddrs m h x" "metaValue m h' x = metaValue m h x" by (simp_all add: st)
qed

lemma cell_local:
  assumes "faithful_machinery m" "agree_on (cell_addrs m st c) st st'"
  shows "cell_addrs m st' c = cell_addrs m st c" "cell_value m st' c = cell_value m st c"
proof -
  have "agree_on (spec_addrs (c_Spec c)) st st'" "agree_on (status_addrs (c_Status c)) st st'"
    by (rule agree_on_subset [OF assms(2)], unfold cell_addrs_def, blast)+
  moreover have "\<forall>a \<in> metaAddrs m (h_meta st) (c_ObjectMeta c). h_meta st a = h_meta st' a"
    using assms(2) by (simp add: agree_on_def cell_addrs_def)
  ultimately show "cell_addrs m st' c = cell_addrs m st c" "cell_value m st' c = cell_value m st c"
    using meta_local [OF assms(1), of "h_meta st" "c_ObjectMeta c" "h_meta st'"]
    by (simp_all add: cell_addrs_def cell_value_def spec_local status_local)
qed

lemma WorkloadMixing_copy:
  assumes "faithful_machinery m" "WorkloadMixing_DeepCopyInto m c st = (c', st')"
  shows "keeps st st'"
    "cell_addrs m st c \<subseteq> {..<limit st} \<Longrightarrow> cell_addrs m st' c' \<subseteq> {limit st..<limit st'}"
    "cell_addrs m st c \<subseteq> {..<limit st} \<Longrightarrow> cell_value m st' c' = cell_value m st c"
proof -
  have C: "copier (copyMeta m) (\<lambda>st. metaAddrs m (h_meta st)) (\<lambda>st. metaValue m (h_meta st)) id" and "copyCondition m = id"
    using assms(1) by (simp_all add: faithful_machinery_def)
  obtain md st1 where md: "copyMeta m (c_ObjectMeta c) st = (md, st1)" by (rule prod.exhaust)
  obtain sp st2 where sp: "Spec_DeepCopyInto (c_Spec c) st1 = (sp, st2)" by (rule prod.exhaust)
  obtain cs st3 where cs: "Status_DeepCopyInto m (c_Status c) st2 = (cs, st3)" by (rule prod.exhaust)
  note md' = copier.into_keeps [OF C md] and sp' = Spec_copy [OF sp] and cs' = Status_copy [OF cs]
  have c': "c' = c\<lparr>c_ObjectMeta := md, c_Spec := sp, c_Status := cs\<rparr>" "st' = st3"
    using assms(2) by (simp_all add: WorkloadMixing_DeepCopyInto_def md sp cs)
  show "keeps st st'" unfolding c' by (rule keeps_trans [OF md' keeps_trans [OF sp'(1) cs'(1)]])
  have lim: "limit st \<le> limit st1" "limit st1 \<le> limit st2" "limit st2 \<le> limit st3"
    using md' sp'(1) cs'(1) by (simp_all add: keeps_def)
  assume old: "cell_addrs m st c \<subseteq> {..<limit st}"
  then have old1: "metaAddrs m (h_meta st) (c_ObjectMeta c) \<subseteq> {..<limit st}" "spec_addrs (c_Spec c) \<subseteq> {..<limit st}"
    "status_addrs (c_Status c) \<subseteq> {..<limit st}" by (simp_all add: cell_addrs_def)
  have fresh: "metaAddrs m (h_meta st1) md \<subseteq> {limit st..<limit st1}" by (rule copier.into_fresh [OF C md old1(1)])
  have "agree_on {..<limit st1} st1 st3" using keeps_trans [OF sp'(1) cs'(1)] by (simp add: keeps_def)
  then have "\<forall>a \<in> metaAddrs m (h_meta st1) md. h_meta st1 a = h_meta st3 a" using fresh by (auto simp: agree_on_def)
  note meta = meta_local [OF assms(1) this]
  show "cell_addrs m st' c' \<subseteq> {limit st..<limit st'}"
    using fresh sp'(2) cs'(2) lim by (fastforce simp: c' cell_addrs_def meta)
  have "metaValue m (h_meta st3) md = metaValue m (h_meta st) (c_ObjectMeta c)"
    using copier.into_value [OF C md old1(1)] meta(2) by simp
  moreover have "spec_value st3 sp = spec_value st (c_Spec c)"
  proof -
    have "spec_value st3 sp = spec_value st2 sp" using sp'(2) by (intro spec_local keeps_agree [OF cs'(1)]) auto
    also have "\<dots> = spec_value st1 (c_Spec c)" using old1(2) lim(1) by (intro sp'(3)) auto
    also have "\<dots> = spec_value st (c_Spec c)" by (rule spec_local [OF keeps_agree [OF md' old1(2)]])
    finally show ?thesis .
  qed
  moreover have "status_value st3 cs = status_value st (c_Status c)"
  proof -
    have "status_value st3 cs = status_value st2 (c_Status c)"
      using cs'(3) \<open>copyCondition m = id\<close> by (simp add: option.map_id list.map_id0)
    also have "\<dots> = status_value st (c_Status c)"
      by (rule status_local [OF keeps_agree [OF keeps_trans [OF md' sp'(1)] old1(3)]])
    finally show ?thesis .
  qed
  ultimately show "cell_value m st' c' = cell_value m st c" by (simp add: c' cell_value_def)
qed

interpretation object_cells: cells h_obj_update h_obj by unfold_locales (auto simp: agree_on_def)

text \<open>On a faithful machinery the copy of an object keeps the contract, too.\<close>

lemma object_copier:
  assumes "faithful_machinery m"
  shows "deep_copier (WorkloadMixing_DeepCopyInto m) (cell_addrs m) (cell_value m) id h_obj_update h_obj"
  by unfold_locales
    (use WorkloadMixing_copy [OF assms] cell_local [OF assms] in \<open>auto simp: object_cells.upd_get object_cells.upd_others\<close>)

section \<open>Lists of objects\<close>

text \<open>The cells of several objects.\<close>

definition cells_of :: "'m machinery \<Rightarrow> 'm store \<Rightarrow> 'm wm_cell list \<Rightarrow> addr set" where
  "cells_of m st cs = (\<Union>c \<in> set cs. cell_addrs m st c)"

lemma cells_of_simps [simp]:
  "cells_of m st [] = {}" "cells_of m st (c # cs) = cell_addrs m st c \<union> cells_of m st cs"
  by (simp_all add: cells_of_def)

lemma cells_local:
  assumes "faithful_machinery m" "agree_on (cells_of m st cs) st st'"
  shows "cells_of m st' cs = cells_of m st cs" "map (cell_value m st') cs = map (cell_value m st) cs"
proof -
  have "agree_on (cell_addrs m st c) st st'" if "c \<in> set cs" for c
    by (rule agree_on_subset [OF assms(2)]) (use that in \<open>auto simp: cells_of_def\<close>)
  then have "cell_addrs m st' c = cell_addrs m st c \<and> cell_value m st' c = cell_value m st c" if "c \<in> set cs" for c
    using cell_local [OF assms(1)] that by blast
  then show "cells_of m st' cs = cells_of m st cs" "map (cell_value m st') cs = map (cell_value m st) cs"
    by (simp_all add: cells_of_def)
qed

lemma copy_items_result:
  assumes "faithful_machinery m"
    and "dst < limit st" "i + length cs \<le> length (a_items st dst)"
    and "cells_of m st cs \<subseteq> {..<limit st} - {dst}" "copy_items m cs dst i st = st'"
  shows "limit st \<le> limit st' \<and> agree_on ({..<limit st} - {dst}) st st'
    \<and> (\<exists>cs'. a_items st' dst = take i (a_items st dst) @ cs' @ drop (i + length cs) (a_items st dst)
        \<and> length cs' = length cs \<and> cells_of m st' cs' \<subseteq> {limit st..<limit st'}
        \<and> map (cell_value m st') cs' = map (cell_value m st) cs)"
  using assms(2-)
proof (induction cs arbitrary: i st)
  case (Cons c cs)
  note here = cell_local [OF assms(1)] and all = cells_local [OF assms(1)]
  obtain c1 s1 where c1: "WorkloadMixing_DeepCopyInto m c st = (c1, s1)" by (rule prod.exhaust)
  note c1' = WorkloadMixing_copy [OF assms(1) c1]
  have own: "cell_addrs m st c \<subseteq> {..<limit st}" using Cons.prems(3) by auto
  define s2 where "s2 = s1\<lparr>a_items := (a_items s1)(dst := (a_items s1 dst)[i := c1])\<rparr>"
  have rest: "copy_items m cs dst (Suc i) s2 = st'" using Cons.prems(4) by (simp add: c1 s2_def)
  have lim: "limit st \<le> limit s1" "limit s2 = limit s1" using c1'(1) by (simp_all add: keeps_def s2_def)
  have arr: "a_items s1 dst = a_items st dst" using c1'(1) Cons.prems(1) by (simp add: keeps_def agree_on_def)
  have a2: "a_items s2 dst = (a_items st dst)[i := c1]" by (simp add: s2_def arr)
  have off: "agree_on A s1 s2" if "dst \<notin> A" for A using that by (auto simp: s2_def agree_on_def)
  have near: "agree_on ({..<limit st} - {dst}) st s2"
    by (rule agree_on_trans [OF keeps_agree [OF c1'(1)] off]) auto
  have others: "agree_on (cells_of m st cs) st s2" using Cons.prems(3) by (intro agree_on_subset [OF near]) auto
  have pre: "dst < limit s2" "Suc i + length cs \<le> length (a_items s2 dst)" using Cons.prems(1,2) lim by (simp_all add: a2)
  have inside: "cells_of m s2 cs \<subseteq> {..<limit s2} - {dst}" unfolding all(1) [OF others] using Cons.prems(3) lim by force
  from Cons.IH [OF pre inside rest] obtain cs' where IH: "limit s2 \<le> limit st'" "agree_on ({..<limit s2} - {dst}) s2 st'"
    "a_items st' dst = take (Suc i) (a_items s2 dst) @ cs' @ drop (Suc i + length cs) (a_items s2 dst)"
    "length cs' = length cs" "cells_of m st' cs' \<subseteq> {limit s2..<limit st'}"
    "map (cell_value m st') cs' = map (cell_value m s2) cs"
    by blast
  have d: "cell_addrs m s1 c1 \<subseteq> {limit st..<limit s1}" by (rule c1'(2) [OF own])
  then have "dst \<notin> cell_addrs m s1 c1" using Cons.prems(1) by auto
  note at2 = here [OF off [OF this]]
  have "agree_on (cell_addrs m s2 c1) s2 st'"
    unfolding at2(1) by (rule agree_on_subset [OF IH(2)]) (use d lim Cons.prems(1) in auto)
  note at3 = here [OF this]
  have "agree_on ({..<limit st} - {dst}) st st'"
    by (rule agree_on_trans [OF near agree_on_subset [OF IH(2)]]) (use lim in auto)
  moreover have "a_items st' dst = take i (a_items st dst) @ (c1 # cs') @ drop (i + length (c # cs)) (a_items st dst)"
    using IH(3) Cons.prems(2) by (simp add: a2 take_Suc_conv_app_nth)
  moreover have "map (cell_value m st') (c1 # cs') = map (cell_value m st) (c # cs)"
    using IH(6) all(2) [OF others] at3(2) at2(2) c1'(3) [OF own] by simp
  moreover have "cells_of m st' (c1 # cs') \<subseteq> {limit st..<limit st'}"
    using IH(1,5) d lim at3(1) at2(1) by force
  ultimately show ?case using IH(1,4) lim by (intro conjI exI [of _ "c1 # cs'"]) auto
qed simp

definition list_items :: "'m store \<Rightarrow> 'm list_cell \<Rightarrow> 'm wm_cell list" where
  "list_items st c = (case slice_value (a_items st) (l_Items c) of None \<Rightarrow> [] | Some cs \<Rightarrow> cs)"

definition list_addrs :: "'m machinery \<Rightarrow> 'm store \<Rightarrow> 'm list_cell \<Rightarrow> addr set" where
  "list_addrs m st c = metaAddrs m (h_meta st) (l_ListMeta c) \<union> slice_addrs (l_Items c) \<union> cells_of m st (list_items st c)"

definition list_value :: "'m machinery \<Rightarrow> 'm store \<Rightarrow> 'm list_cell \<Rightarrow> (string \<times> string) \<times> 'm \<times> bool \<times> 'm wm_value list" where
  "list_value m st c =
     (l_TypeMeta c, metaValue m (h_meta st) (l_ListMeta c), l_Items c = None, map (cell_value m st) (list_items st c))"

text \<open>A slice is not longer than its array.\<close>

definition list_ok :: "'m machinery \<Rightarrow> 'm store \<Rightarrow> 'm list_cell \<Rightarrow> bool" where
  "list_ok m st c \<longleftrightarrow> list_addrs m st c \<subseteq> {..<limit st}
     \<and> (case l_Items c of None \<Rightarrow> True | Some sl \<Rightarrow> s_len sl \<le> length (a_items st (s_arr sl)))"

text \<open>The items of a copied list are the same values in cells of their own.\<close>

lemma List_copy:
  assumes "faithful_machinery m" "list_ok m st c" "List_DeepCopyInto m zero c st = (c', st')"
  shows "keeps st st' \<and> list_addrs m st' c' \<subseteq> {limit st..<limit st'} \<and> list_value m st' c' = list_value m st c"
proof -
  have C: "copier (copyListMeta m) (\<lambda>st. metaAddrs m (h_meta st)) (\<lambda>st. metaValue m (h_meta st)) id"
    using assms(1) by (simp add: faithful_machinery_def)
  obtain md st1 where md: "copyListMeta m (l_ListMeta c) st = (md, st1)" by (rule prod.exhaust)
  have old: "metaAddrs m (h_meta st) (l_ListMeta c) \<subseteq> {..<limit st}" "slice_addrs (l_Items c) \<subseteq> {..<limit st}"
    "cells_of m st (list_items st c) \<subseteq> {..<limit st}"
    using assms(2) by (simp_all add: list_ok_def list_addrs_def)
  note md' = copier.into_keeps [OF C md] copier.into_fresh [OF C md old(1)] copier.into_value [OF C md old(1), simplified]
  show ?thesis
  proof (cases "l_Items c")
    case None
    then show ?thesis using assms(3) md'
      by (auto simp: List_DeepCopyInto_def md list_addrs_def list_items_def list_value_def slice_value_def slice_addrs_def)
  next
    case (Some sl)
    obtain a st2 where al: "alloc a_items_update (replicate (s_len sl) zero) st1 = (a, st2)" by (rule prod.exhaust)
    note al' = item_arrays.alloc_result [OF al]
    define cs where "cs = take (s_len sl) (a_items st (s_arr sl))"
    have items: "list_items st c = cs" by (simp add: list_items_def slice_value_def Some cs_def)
    have len: "length cs = s_len sl" using assms(2) by (simp add: list_ok_def Some cs_def)
    have arr: "a_items st1 (s_arr sl) = a_items st (s_arr sl)"
      using md'(1) old(2) by (simp add: keeps_def agree_on_def Some slice_addrs_def)
    have c': "c' = c\<lparr>l_ListMeta := md, l_Items := Some \<lparr>s_arr = a, s_len = s_len sl\<rparr>\<rparr>"
      and st': "copy_items m cs a 0 st2 = st'"
      using assms(3) by (simp_all add: List_DeepCopyInto_def md Some al cs_def arr)
    have k2: "keeps st st2" by (rule keeps_trans [OF md'(1) al'(4)])
    have same: "agree_on (cells_of m st cs) st st2" by (rule keeps_agree [OF k2]) (use old(3) items in simp)
    have lim: "limit st \<le> limit st1" "limit st2 = Suc (limit st1)" using md'(1) al'(2) by (simp_all add: keeps_def)
    have "cells_of m st2 cs \<subseteq> {..<limit st2} - {a}"
      unfolding cells_local(1) [OF assms(1) same] using old(3) items lim al'(1) by force
    from copy_items_result [OF assms(1) _ _ this st'] obtain cs' where R: "limit st2 \<le> limit st'"
      "agree_on ({..<limit st2} - {a}) st2 st'" "a_items st' a = cs'" "length cs' = length cs"
      "cells_of m st' cs' \<subseteq> {limit st2..<limit st'}" "map (cell_value m st') cs' = map (cell_value m st2) cs"
      using lim(2) al'(3) unfolding al'(1) by (auto simp: len)
    have "agree_on {..<limit st} st st'"
      by (rule agree_on_trans [OF keeps_agree [OF k2] agree_on_subset [OF R(2)]]) (use al'(1) lim in auto)
    then have keep: "keeps st st'" using R(1) lim by (simp add: keeps_def)
    have items': "list_items st' c' = cs'" using R(4) len by (simp add: list_items_def slice_value_def c' R(3))
    have "agree_on (metaAddrs m (h_meta st1) md) st1 st'"
      using md'(2) al'(1) lim
      by (intro agree_on_trans [OF keeps_agree [OF al'(4)] agree_on_subset [OF R(2)]]) auto
    then have "\<forall>x \<in> metaAddrs m (h_meta st1) md. h_meta st1 x = h_meta st' x" by (simp add: agree_on_def)
    note meta = meta_local [OF assms(1) this]
    have "list_addrs m st' c' \<subseteq> {limit st..<limit st'}"
      using md'(2) R(1,5) lim al'(1) unfolding list_addrs_def items' by (auto simp: c' slice_addrs_def meta)
    moreover have "list_value m st' c' = list_value m st c"
      unfolding list_value_def items items' using R(6) cells_local(2) [OF assms(1) same] md'(3) meta(2) by (simp add: c' Some)
    ultimately show ?thesis using keep by simp
  qed
qed

section \<open>The status patch\<close>

text \<open>
  \<open>SetStatusCondition\<close> of the API machinery: it writes in the array of the conditions it is given, or
  in cells it allocates, and nowhere else.
\<close>

type_synonym 'm set_condition = "slice option \<Rightarrow> condition \<Rightarrow> 'm store \<Rightarrow> slice option \<times> 'm store"

definition confined :: "'m set_condition \<Rightarrow> bool" where
  "confined setc \<longleftrightarrow> (\<forall>s c st s' st'. setc s c st = (s', st') \<longrightarrow> limit st \<le> limit st' \<and>
     (\<exists>f. agree_on {..<limit st} (st\<lparr>a_conditions := f\<rparr>) st'
        \<and> (\<forall>a < limit st. a \<notin> slice_addrs s \<longrightarrow> f a = a_conditions st a)))"

text \<open>
  The object was fetched into the cell \<open>a\<close>: copy it as the base of the patch, then set the condition in
  the object. The patch is the difference of the two.
\<close>

definition patch_status :: "'m machinery \<Rightarrow> 'm set_condition \<Rightarrow> condition \<Rightarrow> addr \<Rightarrow> 'm store \<Rightarrow> addr option \<times> 'm store" where
  "patch_status m setc c a st =
     (case WorkloadMixing_DeepCopy m (Some a) st of
        (base, st1) \<Rightarrow>
      case setc (st_Conditions (c_Status (h_obj st1 a))) c st1 of
        (s, st2) \<Rightarrow>
          (base, st2\<lparr>h_obj := (h_obj st2)(a := (h_obj st2 a)\<lparr>c_Status := (c_Status (h_obj st2 a))\<lparr>st_Conditions := s\<rparr>\<rparr>)\<rparr>))"

section \<open>Registration\<close>

text \<open>
  \<open>addKnownTypes\<close> of \<open>api/v1alpha1/groupversion_info.go\<close>; the scheme and its two operations are the API
  machinery's. The error is always nil.
\<close>

definition GroupVersion :: "string \<times> string" where
  "GroupVersion = (''k8s-bridge.x-k8s.io'', ''v1alpha1'')"

definition addKnownTypes :: "(string \<times> string \<Rightarrow> string list \<Rightarrow> 's \<Rightarrow> 's) \<Rightarrow> (string \<times> string \<Rightarrow> 's \<Rightarrow> 's) \<Rightarrow> 's \<Rightarrow> 's \<times> error option" where
  "addKnownTypes add_types add_meta s =
     (add_meta GroupVersion (add_types GroupVersion [''WorkloadMixing'', ''WorkloadMixingList''] s), None)"

text \<open>Both kinds can be read and listed through the scheme, and nothing that it knew is lost.\<close>

lemma api_types_are_known:
  assumes "\<And>gv ks s. known (add_types gv ks s) = known s \<union> Pair gv ` set ks" "\<And>gv s. known s \<subseteq> known (add_meta gv s)"
  shows "known s \<union> {(GroupVersion, ''WorkloadMixing''), (GroupVersion, ''WorkloadMixingList'')}
    \<subseteq> known (fst (addKnownTypes add_types add_meta s))"
  using assms(2) [of "add_types GroupVersion [''WorkloadMixing'', ''WorkloadMixingList''] s" GroupVersion]
  by (auto simp: addKnownTypes_def assms(1))

section \<open>Properties\<close>

lemma object_copied:
  assumes "faithful_machinery m" "insert a (cell_addrs m st (h_obj st a)) \<subseteq> {..<limit st}"
    and "WorkloadMixing_DeepCopy m (Some a) st = (r, st')"
  obtains b where "r = Some b" "keeps st st'" "insert b (cell_addrs m st' (h_obj st' b)) \<subseteq> {limit st..<limit st'}"
    "cell_value m st' (h_obj st' b) = cell_value m st (h_obj st a)" "h_obj st' a = h_obj st a"
    "cell_addrs m st' (h_obj st a) = cell_addrs m st (h_obj st a)" "cell_value m st' (h_obj st a) = cell_value m st (h_obj st a)"
proof -
  obtain b where b: "r = Some b" "keeps st st'" "insert b (cell_addrs m st' (h_obj st' b)) \<subseteq> {limit st..<limit st'}"
    "cell_value m st' (h_obj st' b) = id (cell_value m st (h_obj st a))"
    using deep_copier.deep_copy_result [OF object_copier [OF assms(1)] assms(3) [unfolded WorkloadMixing_DeepCopy_def] assms(2)]
    by blast
  have "h_obj st' a = h_obj st a" using b(2) assms(2) by (simp add: keeps_def agree_on_def)
  moreover have "agree_on (cell_addrs m st (h_obj st a)) st st'" by (rule keeps_agree [OF b(2)]) (use assms(2) in simp)
  ultimately show thesis using that b cell_local [OF assms(1)] by simp
qed

text \<open>C23: a deep copy is an independent object, its metadata (labels, annotations, owner references and
  what else the API machinery's types point to) included. The copy has the value of the original, which is
  unchanged; no pointer, slice or map is shared; and whatever is later written outside the cells of the copy
  (through the original, say) leaves the copy's value as it is, and the other way round.\<close>

theorem deep_copy_is_independent:
  assumes "faithful_machinery m" "insert a (cell_addrs m st (h_obj st a)) \<subseteq> {..<limit st}"
    and "WorkloadMixing_DeepCopy m (Some a) st = (r, st')"
  shows "\<exists>b. r = Some b
    \<and> insert a (cell_addrs m st' (h_obj st' a)) \<inter> insert b (cell_addrs m st' (h_obj st' b)) = {}
    \<and> (\<forall>st''. agree_on (insert b (cell_addrs m st' (h_obj st' b))) st' st'' \<longrightarrow>
         cell_value m st'' (h_obj st'' b) = cell_value m st (h_obj st a))
    \<and> (\<forall>st''. agree_on (insert a (cell_addrs m st' (h_obj st' a))) st' st'' \<longrightarrow>
         cell_value m st'' (h_obj st'' a) = cell_value m st (h_obj st a))"
proof -
  obtain b where b: "r = Some b" "insert b (cell_addrs m st' (h_obj st' b)) \<subseteq> {limit st..<limit st'}"
    "cell_value m st' (h_obj st' b) = cell_value m st (h_obj st a)" "h_obj st' a = h_obj st a"
    "cell_addrs m st' (h_obj st a) = cell_addrs m st (h_obj st a)" "cell_value m st' (h_obj st a) = cell_value m st (h_obj st a)"
    using object_copied [OF assms] by blast
  have "insert a (cell_addrs m st' (h_obj st' a)) \<inter> insert b (cell_addrs m st' (h_obj st' b)) = {}"
    using assms(2) b(2) unfolding b(4,5) by fastforce
  then show ?thesis
    using b(1,3,4,6) deep_copier.value_behind(1) [OF object_copier [OF assms(1)], of _ st'] by metis
qed

text \<open>Concrete metadata: a struct of one map, the labels, which may be nil.\<close>

datatype label_meta = LabelsAt "addr option" | LabelMap "(string \<times> string) list"

fun copy_labels :: "label_meta \<Rightarrow> label_meta store \<Rightarrow> label_meta \<times> label_meta store" where
  "copy_labels (LabelsAt p) st = (case copy_pointer h_meta_update (h_meta st) p st of (p', st') \<Rightarrow> (LabelsAt p', st'))"
| "copy_labels (LabelMap kvs) st = (LabelMap kvs, st)"

fun labels_value :: "(addr \<Rightarrow> label_meta) \<Rightarrow> label_meta \<Rightarrow> label_meta" where
  "labels_value h (LabelsAt (Some a)) = h a"
| "labels_value h x = x"

fun labels_addrs :: "(addr \<Rightarrow> label_meta) \<Rightarrow> label_meta \<Rightarrow> addr set" where
  "labels_addrs h (LabelsAt p) = set_option p"
| "labels_addrs h (LabelMap kvs) = {}"

definition plain_machinery :: "label_meta machinery" where
  "plain_machinery = \<lparr>copyMeta = copy_labels, copyListMeta = copy_labels, copyCondition = id,
     metaAddrs = labels_addrs, metaValue = labels_value\<rparr>"

interpretation meta_cells: cells h_meta_update h_meta by unfold_locales (auto simp: agree_on_def)

interpretation labels: copier copy_labels "\<lambda>st. labels_addrs (h_meta st)" "\<lambda>st. labels_value (h_meta st)" id
proof unfold_locales
  fix c :: label_meta and st st' :: "label_meta store"
  assume "agree_on (labels_addrs (h_meta st) c) st st'"
  then show "labels_addrs (h_meta st') c = labels_addrs (h_meta st) c" "labels_value (h_meta st') c = labels_value (h_meta st) c"
    by (cases "(h_meta st, c)" rule: labels_value.cases; simp add: agree_on_def)+
next
  fix c c' :: label_meta and st st' :: "label_meta store"
  assume copy: "copy_labels c st = (c', st')"
  show "keeps st st'" using copy meta_cells.copy_pointer_result(1) by (cases c) (auto split: prod.splits)
  show "labels_addrs (h_meta st') c' \<subseteq> {limit st..<limit st'}"
    using copy by (cases c) (auto simp: copy_pointer_def alloc_def split: prod.splits option.splits)
  show "labels_value (h_meta st') c' = id (labels_value (h_meta st) c)"
    using copy by (cases "(h_meta st, c)" rule: labels_value.cases)
      (auto simp: copy_pointer_def alloc_def split: prod.splits)
qed

lemma plain_machinery: "faithful_machinery plain_machinery"
  using labels.copier_axioms by (simp add: faithful_machinery_def plain_machinery_def)

text \<open>A concrete store: an object with a label, one condition, a pointer and a list of mappings.\<close>

definition small_spec :: spec_cell where
  "small_spec = \<lparr>sp_values = wm_spec (as_resource ''gpu'' 1 example_config), sp_PartitionMappings = Some \<lparr>s_arr = 1, s_len = 1\<rparr>,
     sp_Slurmd = \<lparr>sc_Image = ''img'', sc_ConfServer = [], sc_AuthSecretName = [], sc_GPUResourceName = [],
       sc_Privileged = Some 2, sc_SharedStorage = None\<rparr>,
     sp_Topology = \<lparr>RequiredLevel = [], PreferredLevel = []\<rparr>\<rparr>"

definition stale_condition :: condition where
  "stale_condition = \<lparr>cd_Type = ''Ready'', cd_Status = ''False'', cd_Reason = ''TickFailed'', cd_Message = ''refused'',
     cd_ObservedGeneration = 1, cd_LastTransitionTime = 7\<rparr>"

definition small_store :: "label_meta store" where
  "small_store = \<lparr>h_bool = (\<lambda>_. True), h_storage = (\<lambda>_. \<lparr>NFSServer = [], NFSPath = [], MountPath = []\<rparr>),
     h_mapping = (\<lambda>_. \<lparr>PartitionName = ''gpu'', WorkloadPriorityClass = ''p'', PartitionQueue = []\<rparr>),
     h_slurmd = (\<lambda>_. sp_Slurmd small_spec), h_topology = (\<lambda>_. sp_Topology small_spec), h_spec = (\<lambda>_. small_spec),
     h_status = (\<lambda>_. \<lparr>st_Conditions = None\<rparr>),
     h_obj = (\<lambda>_. \<lparr>c_TypeMeta = ([], []), c_ObjectMeta = LabelsAt (Some 0), c_Spec = small_spec, c_Status = \<lparr>st_Conditions = Some \<lparr>s_arr = 3, s_len = 1\<rparr>\<rparr>\<rparr>),
     h_list = (\<lambda>_. \<lparr>l_TypeMeta = ([], []), l_ListMeta = LabelsAt None, l_Items = None\<rparr>),
     a_mappings = (\<lambda>_. [\<lparr>PartitionName = ''gpu'', WorkloadPriorityClass = ''p'', PartitionQueue = []\<rparr>]),
     a_conditions = (\<lambda>_. [stale_condition]), a_items = (\<lambda>_. []),
     h_meta = (\<lambda>_. LabelMap [(''team'', ''ml'')]), limit = 4\<rparr>"

lemma small_store: "insert 0 (cell_addrs plain_machinery small_store (h_obj small_store 0)) \<subseteq> {..<limit small_store}"
  by (simp add: plain_machinery_def small_store_def small_spec_def cell_addrs_def spec_addrs_def
      status_addrs_def slurmd_addrs_def slice_addrs_def)

theorem deep_copy_is_independent_witness:
  "\<exists>b st'. WorkloadMixing_DeepCopy plain_machinery (Some 0) small_store = (Some b, st')
     \<and> (let st'' = st'\<lparr>a_conditions := (a_conditions st')(3 := []), h_meta := (h_meta st')(0 := LabelMap [])\<rparr>;
            v = cell_value plain_machinery st'' (h_obj st' b)
        in v_Conditions v = Some [stale_condition] \<and> v_ObjectMeta v = LabelMap [(''team'', ''ml'')])"
proof -
  obtain r st' where c: "WorkloadMixing_DeepCopy plain_machinery (Some 0) small_store = (r, st')" by (rule prod.exhaust)
  let ?st'' = "st'\<lparr>a_conditions := (a_conditions st')(3 := []), h_meta := (h_meta st')(0 := LabelMap [])\<rparr>"
  let ?cells = "\<lambda>b. insert b (cell_addrs plain_machinery st' (h_obj st' b))"
  from object_copied [OF plain_machinery small_store c] obtain b where "r = Some b" and
    fresh: "?cells b \<subseteq> {limit small_store..<limit st'}" by blast
  with deep_copy_is_independent [OF plain_machinery small_store c]
  have all: "\<forall>st''. agree_on (?cells b) st' st'' \<longrightarrow>
      cell_value plain_machinery st'' (h_obj st'' b) = cell_value plain_machinery small_store (h_obj small_store 0)" by blast
  have "3 \<notin> ?cells b" "0 \<notin> ?cells b" using fresh by (auto simp: small_store_def)
  then have "agree_on (?cells b) st' ?st''" by (auto simp: agree_on_def)
  then have "cell_value plain_machinery ?st'' (h_obj st' b) = cell_value plain_machinery small_store (h_obj small_store 0)"
    using all [rule_format, of ?st''] by simp
  then have "v_Conditions (cell_value plain_machinery ?st'' (h_obj st' b)) = Some [stale_condition]
      \<and> v_ObjectMeta (cell_value plain_machinery ?st'' (h_obj st' b)) = LabelMap [(''team'', ''ml'')]"
    by (simp only:) (simp add: small_store_def cell_value_def status_value_def slice_value_def plain_machinery_def)
  then show ?thesis using c \<open>r = Some b\<close> unfolding Let_def by blast
qed

lemma conditions_apart:
  assumes "agree_on {..<limit st} (st\<lparr>a_conditions := f\<rparr>) st'"
  shows "spec_addrs c \<subseteq> {..<limit st} \<Longrightarrow> spec_value st' c = spec_value st c"
    and "a < limit st \<Longrightarrow> h_meta st' a = h_meta st a"
proof -
  show "a < limit st \<Longrightarrow> h_meta st' a = h_meta st a" using assms by (simp add: agree_on_def)
  assume "spec_addrs c \<subseteq> {..<limit st}"
  from spec_local [OF agree_on_subset [OF assms this]]
  show "spec_value st' c = spec_value st c" by (simp add: spec_value_def slurmd_value_def)
qed

text \<open>C22: the status patch starts from what was fetched. After the Ready condition has been set in the
  fetched object, in place or not, the base of the patch still has the value that was fetched, and the
  object differs from it in its conditions only. So the patch carries the change of the conditions:
  were a pointer shared, an update in place would change both sides and the patch would be empty.\<close>

theorem status_patch_starts_from_the_fetched_object:
  assumes "faithful_machinery m" "confined setc" "insert a (cell_addrs m st (h_obj st a)) \<subseteq> {..<limit st}"
    and "patch_status m setc c a st = (base, st')"
  shows "\<exists>b. base = Some b \<and> cell_value m st' (h_obj st' b) = cell_value m st (h_obj st a)
    \<and> (\<exists>cs. cell_value m st' (h_obj st' a) = (cell_value m st (h_obj st a))\<lparr>v_Conditions := cs\<rparr>)"
proof -
  obtain r st1 where dc: "WorkloadMixing_DeepCopy m (Some a) st = (r, st1)" by (rule prod.exhaust)
  from object_copied [OF assms(1,3) dc] obtain b where b: "r = Some b" "keeps st st1"
    "insert b (cell_addrs m st1 (h_obj st1 b)) \<subseteq> {limit st..<limit st1}"
    "cell_value m st1 (h_obj st1 b) = cell_value m st (h_obj st a)" "h_obj st1 a = h_obj st a"
    "cell_addrs m st1 (h_obj st a) = cell_addrs m st (h_obj st a)" "cell_value m st1 (h_obj st a) = cell_value m st (h_obj st a)"
    by blast
  let ?s0 = "st_Conditions (c_Status (h_obj st a))"
  obtain s st2 where sc: "setc ?s0 c st1 = (s, st2)" by (rule prod.exhaust)
  with assms(2) obtain f where f: "agree_on {..<limit st1} (st1\<lparr>a_conditions := f\<rparr>) st2"
    "\<forall>x < limit st1. x \<notin> slice_addrs ?s0 \<longrightarrow> f x = a_conditions st1 x"
    unfolding confined_def by blast
  have st': "base = Some b"
    "st' = st2\<lparr>h_obj := (h_obj st2)(a := (h_obj st2 a)\<lparr>c_Status := (c_Status (h_obj st2 a))\<lparr>st_Conditions := s\<rparr>\<rparr>)\<rparr>"
    using assms(4) by (simp_all add: patch_status_def dc b(1,5) sc)
  have ab: "a < limit st1" "b < limit st1" "a \<noteq> b" using b(2,3) assms(3) by (auto simp: keeps_def)
  have objs: "h_obj st2 a = h_obj st a" "h_obj st2 b = h_obj st1 b"
    using f(1) ab b(5) by (simp_all add: agree_on_def)
  have put: "cell_value m st' x = cell_value m st2 x" for x
    by (simp add: st'(2) cell_value_def spec_value_def status_value_def slurmd_value_def)
  have sep: "slice_addrs ?s0 \<inter> cell_addrs m st1 (h_obj st1 b) = {}"
    using b(3) assms(3) by (fastforce simp: cell_addrs_def status_addrs_def)
  have "agree_on (cell_addrs m st1 (h_obj st1 b)) st1 st2"
  proof -
    have "x < limit st1 \<and> x \<notin> slice_addrs ?s0" if "x \<in> cell_addrs m st1 (h_obj st1 b)" for x using that b(3) sep by auto
    then show ?thesis using f by (auto simp: agree_on_def)
  qed
  then have "cell_value m st2 (h_obj st1 b) = cell_value m st (h_obj st a)" using cell_local(2) [OF assms(1)] b(4) by metis
  then have base: "cell_value m st' (h_obj st' b) = cell_value m st (h_obj st a)"
    unfolding put using ab(3) objs(2) by (simp add: st'(2))
  have old: "cell_addrs m st1 (h_obj st a) \<subseteq> {..<limit st1}" using assms(3) b(2) unfolding b(6) by (auto simp: keeps_def)
  then have own: "spec_addrs (c_Spec (h_obj st a)) \<subseteq> {..<limit st1}"
    "\<forall>x \<in> metaAddrs m (h_meta st1) (c_ObjectMeta (h_obj st a)). h_meta st1 x = h_meta st2 x"
    using conditions_apart(2) [OF f(1)] by (auto simp: cell_addrs_def)
  have "cell_value m st' (h_obj st' a) = (cell_value m st1 (h_obj st a))\<lparr>v_Conditions := status_value st2 \<lparr>st_Conditions = s\<rparr>\<rparr>"
    unfolding put using conditions_apart(1) [OF f(1) own(1)] meta_local(2) [OF assms(1) own(2)]
    by (simp add: st'(2) objs(1) cell_value_def status_value_def)
  with base st'(1) b(7) show ?thesis by auto
qed

text \<open>A \<open>SetStatusCondition\<close> that overwrites a condition of the type in place, or appends in a new array.\<close>

definition set_in_place :: "'m set_condition" where
  "set_in_place s c st =
     (case s of
        Some sl \<Rightarrow>
          if list_ex (\<lambda>d. cd_Type d = cd_Type c) (take (s_len sl) (a_conditions st (s_arr sl)))
          then (s, st\<lparr>a_conditions := (a_conditions st)(s_arr sl :=
                 map (\<lambda>d. if cd_Type d = cd_Type c then c else d) (a_conditions st (s_arr sl)))\<rparr>)
          else (case alloc a_conditions_update (take (s_len sl) (a_conditions st (s_arr sl)) @ [c]) st of
                  (a, st') \<Rightarrow> (Some \<lparr>s_arr = a, s_len = Suc (s_len sl)\<rparr>, st'))
      | None \<Rightarrow> (case alloc a_conditions_update [c] st of (a, st') \<Rightarrow> (Some \<lparr>s_arr = a, s_len = 1\<rparr>, st')))"

lemma confined_set_in_place: "confined set_in_place"
  unfolding confined_def
proof (intro allI impI)
  fix s :: "slice option" and c and st :: "'m store" and s' st'
  assume "set_in_place s c st = (s', st')"
  then show "limit st \<le> limit st' \<and> (\<exists>f. agree_on {..<limit st} (st\<lparr>a_conditions := f\<rparr>) st'
      \<and> (\<forall>a < limit st. a \<notin> slice_addrs s \<longrightarrow> f a = a_conditions st a))"
    by (intro conjI exI [of _ "a_conditions st'"])
      (auto simp: set_in_place_def alloc_def agree_on_def slice_addrs_def split: option.splits if_splits)
qed

theorem status_patch_starts_from_the_fetched_object_witness:
  "\<exists>b st'. patch_status plain_machinery set_in_place (stale_condition\<lparr>cd_Status := ''True''\<rparr>) 0 small_store = (Some b, st')
     \<and> v_Conditions (cell_value plain_machinery st' (h_obj st' b)) = Some [stale_condition]"
proof -
  obtain base st' where p: "patch_status plain_machinery set_in_place (stale_condition\<lparr>cd_Status := ''True''\<rparr>) 0 small_store = (base, st')"
    by (rule prod.exhaust)
  from status_patch_starts_from_the_fetched_object [OF plain_machinery confined_set_in_place small_store p]
  obtain b where "base = Some b"
    "cell_value plain_machinery st' (h_obj st' b) = cell_value plain_machinery small_store (h_obj small_store 0)" by blast
  then show ?thesis using p by (simp add: small_store_def cell_value_def status_value_def slice_value_def)
qed

end
