(* ===== verification/Spec2Isabelle.thy ===== *)
theory Spec2Isabelle imports
  Bridge_Audit
  Slurm_Backed
  Slurm_Metrics
  Object_Shape
  Shutdown
  Process_End
  Deep_Copy
  Bridge_Protocol
begin

text \<open>
  \<^bold>\<open>A verification library for k8s-bridge.\<close> The repository holds two Kubernetes controllers.
  \<^item> \<open>k8s-bridge\<close> polls slurmrestd. For every held Slurm job on a mapped partition it creates a JobSet of
    slurmd pods, waits until Kueue admits the JobSet's Workload, pins the job to its own nodes and
    releases it; it mirrors status and priority between Kueue and Slurm, and cleans up behind jobs that
    ended, were preempted, or lost their JobSet.
  \<^item> \<open>ray-bridge\<close> watches RayJobs of a shared Ray cluster. For each it creates a JobSet of dedicated
    workers that announce a pin resource, which an admission webhook makes the RayJob ask for.

  \<^bold>\<open>Theories and what they model.\<close>
  \<^item> \<open>Bridge_Prelude\<close>: machine integers, facts shared by all. \<open>Go_Strings\<close>, \<open>Go_Time\<close>, \<open>Go_Duration\<close>: what the
    source uses of Go's \<open>strings\<close>, \<open>strconv\<close>, \<open>unicode/utf8\<close>, and of \<open>time\<close>'s RFC 3339 and duration texts.
  \<^item> \<open>K8s_Objects\<close>: JobSets, Workloads and errors, as far as the code reads or sets them.
  \<^item> \<open>Slurm_Job\<close>, \<open>Slurm_Client\<close> (\<open>internal/slurm/client.go\<close>): the job record with its accessors and its
    decoding; every REST operation, the envelope check and the streaming decoder of the job listing.
  \<^item> \<open>Bridge_Config\<close> (\<open>internal/config/config.go\<close>): configuration, defaults, validation, allowlists.
    \<open>CR_Config\<close>, \<open>Ready_Condition\<close> (\<open>internal/bridge/crdconfig.go\<close>, \<open>api/v1alpha1\<close>): the WorkloadMixing
    resource as a configuration, its Ready condition, and the hot reload. \<open>Deep_Copy\<close>
    (\<open>api/v1alpha1/zz_generated.deepcopy.go\<close>): its pointers, slices and metadata in a store, and the status patch.
  \<^item> \<open>Translate\<close> (\<open>internal/translate/translate.go\<close>): the JobSet of a job.
    \<open>Kueue_Workload\<close> (\<open>internal/kueue/kueue.go\<close>): reading a Workload.
  \<^item> \<open>Bridge_State\<close>, \<open>Bridge_Status\<close> (\<open>internal/bridge/kueue.go\<close>), \<open>Bridge_Admit\<close>, \<open>Bridge_Cleanup\<close>,
    \<open>Bridge_Orphans\<close>, \<open>Bridge_Tick\<close>, \<open>Run_Loop\<close> (\<open>internal/bridge/reconciler.go\<close>, \<open>health.go\<close>): the state of
    a bridge; status comments and priorities; the admission pass; cleanup with retention and
    preemption; the orphan pass; one tick; the loop of ticks with backoff, nudges and health.
  \<^item> \<open>Supervisor\<close> (\<open>internal/bridge/supervisor.go\<close>): one bridge for each resource of a namespace;
    \<open>Bridge_Fleet\<close>: the ticks of its bridges together; \<open>Shutdown\<close>: the end of its loops.
  \<^item> \<open>Controller_Main\<close>, \<open>Startup\<close> (\<open>cmd/k8s-bridge/main.go\<close>, \<open>internal/bridge/watch.go\<close>): the decisions of the
    entry point, its flags, watch events; the start from the flags to the process, with every exit.
    \<open>Process_End\<close> (the same file, and \<open>cmd/ray-bridge/main.go\<close>): routes and failures of the servers, and the exit.
  \<^item> \<open>Metrics\<close> (\<open>internal/metrics\<close>, \<open>internal/raybridge/metrics.go\<close>): the collectors and their registration;
    \<open>Bridge_Protocol\<close>: the ticks as runs of an abstract machine of stages.
    \<open>Bridge_Audit\<close>: the counters against the log. \<open>Bridge_Steady\<close>: the tick that has nothing to
    do. \<open>Bridge_Service\<close>: a held job from the queue to its release.
    \<open>Slurm_Backed\<close>: the bridge on the Slurm client; \<open>Slurm_Metrics\<close>: what that client reports of its requests.
    \<open>Object_Shape\<close>: what Kubernetes demands of a JobSet.
  \<^item> \<open>Ray_Config\<close>, \<open>Ray_Job\<close>, \<open>Ray_Translate\<close>, \<open>Ray_Bridge\<close>, \<open>Ray_Webhook\<close>, \<open>Ray_Main\<close> (\<open>internal/rayconfig\<close>,
    \<open>ray\<close>, \<open>raytranslate\<close>, \<open>raybridge\<close>, \<open>raywebhook\<close>, \<open>cmd/ray-bridge\<close>): the same parts of ray-bridge.

  \<^bold>\<open>How code becomes definitions.\<close> A struct is a record, a handler is a function from state to state and
  result, an error is a value; a definition has the name of the function it translates (with a prefix
  where both programs use one name), or that of the block of a long function it stands for.
  \<^item> The outside world is a record of answer functions over the history of calls (\<open>env\<close>, \<open>cr_env\<close>, \<open>ray_env\<close>).
    Every call is recorded with its outcome, newest first, so properties speak about the log and hold for
    every behaviour of Kubernetes, Kueue and Slurm, failures and changes between calls included.
  \<^item> A Go map the code ranges over is an association list, whose order the caller chooses. The worker pool
    that prepares JobSets is a schedule: the list of indices in the order in which they ran, perhaps not all
    of them; the creation for one job and its read back are one step.
  \<^item> Integers have their width where they are computed with (\<open>i32\<close>, \<open>i64\<close>, \<open>u64\<close>); instants and durations are
    unbounded nanoseconds, except in the backoff, whose 64-bit products and shifts are kept. A \<open>float64\<close> is a
    rational and a rounding function, with the documented error of IEEE 754 as hypothesis where it matters.
  \<^item> JSON texts are trees and HTTP answers are values; the tokeniser, the HTTP client and the API machinery are
    arguments of the definitions. Objects are values, except in \<open>Deep_Copy\<close>, where the metadata types of the API
    machinery and their copies are arguments with the law of a deep copy (\<open>faithful_machinery\<close>).
    \<open>NodeNames\<close> is total where the source panics on a negative count, which no caller passes
    (\<open>sint_PodCount_pos\<close>). RFC 3339 parsing covers the layout the bridge itself writes.
  \<^item> Logs, gauges and histograms are left out; counters and events are in. No definition has fuel: every
    loop of the source is a structural recursion or has its termination proved.

  \<^bold>\<open>Interfaces.\<close> The locale \<open>mapping_table\<close> (first match wins) holds of the partitions, the pools and the
  managed clusters; \<open>deterministic_name\<close> (distinct identifiers have distinct names) of the names of JobSets,
  nodes, features, Ray workers and pins; \<open>deep_copier\<close> (same value, fresh cells, the rest of the store kept) of the
  deep copy of each API type, from \<open>copier\<close> (one struct) and \<open>cells\<close> (one map of the store). The supervisor
  refines an abstract table of exclusive claims (\<open>claim_step\<close>), whose invariant is proved once; the bridge
  refines a machine of stages (\<open>protocol\<close>), of which it is proved what must come before a release and before a
  destructive call.

  \<^bold>\<open>What is proved.\<close> Every theory ends with its properties and the lemmas under them. In short:
  \<^item> admission: nothing is pinned or released before Kueue admits it, every release follows the job's own pin,
    a reused job id inherits no JobSet that bears another submit time, the order of the worker pool does not matter as long as no answer depends on it, and an admitted
    job is released in the next tick that sees the cluster;
  \<^item> service and rest: in a cluster that serves a job (the hypothesis \<open>serving\<close>, satisfied by a concrete
    one) the JobSet of a held job is created and the job then released within a bounded number of ticks, and a tick over a queue that is
    already as it should be only lists;
  \<^item> destruction: JobSets and jobs are deleted or cancelled only in a tick that listed everything and had no
    creation refused, and only on the evidence the code names; the orphan pass keeps its grace and its limits,
    a blind tick changes nothing, retention lasts exactly its window;
  \<^item> on the wire: an answer of slurmrestd that is truncated, refused, reports errors or is not understood never deletes a
    JobSet, and the streamed callback of the source equals the collected list of the model
    (\<open>streaming_is_collecting\<close>);
  \<^item> several bridges: no job is driven by the ticks of two of them; from the flags to the pods, every image is
    allowed (a reload with one bridge apart, which skips that gate); created JobSets are well-formed, for
    names that are label values and sizes that do not overflow; the counters agree with the log;
  \<^item> the loop: bounds of the wait for up to 62 failures in a row (after more it vanishes), damping of watch
    ticks, no tick ends the loop and a wait that is over starts one, bounded memory, a shutdown that ends after
    at most five moves of each loop that has failed fewer than 50 times in a row;
  \<^item> configuration: validation is exact (\<open>validate_accepts_exactly\<close>), resources and files yield the same configuration, paths are confined,
    and what the supervisor runs is vetted, conflict-free and reported truthfully;
  \<^item> the process: no start without its checks, no process that lives on without probes, a truthful exit code;
  \<^item> sharing: a deep copy has the value of its original, metadata included, and no cell in common with it, so the base of a status patch
    is what was fetched;
  \<^item> ray-bridge: the webhook and the reconciler agree, requested and announced capacity are equal
    (\<open>worker_capacity_matches_request\<close>), retries are bounded unless somebody resets their count, and touch only the RayJob's own workers.
  Several theorems state defects of the code, as the surrounding text says; so do the lemmas whose names are
  \<open>signalled_job_is_never_created\<close>, \<open>empty_object_reads_as_job_gone\<close>, \<open>recreated_resource_is_ignored\<close>,
  \<open>null_resources_panic\<close> and the like.

  \<^bold>\<open>Not modelled.\<close> The construction of HTTP requests below \<open>newRequest\<close>; the merge of a condition into a
  condition list and the computation of patches; the registration with the manager, leader election, HTTP below
  the routes of the servers; gauges, histograms and their observations; the library's side of the registration
  of types. They are I/O, wiring or library code.
\<close>

end
